(* ===== verification/JsValues.thy ===== *)
theory JsValues
  imports Main
begin

text \<open>
  The JavaScript values the clients exchange with the backend and keep in their stores, and the
  operations of the language the source applies to them.

  \<^item> \<open>js\<close> is a JSON-like value. An object is the list of its own properties in insertion order;
    object identity is not part of the model, and no object has a \<open>toString\<close> of its own.
  \<^item> \<open>jsnum\<close> is a number by its shortest decimal form: \<open>JInt i\<close> is the integer \<open>i\<close>,
    \<open>JDec m k\<close> (with \<open>k > 0\<close> and \<open>m\<close> not divisible by ten) is \<open>m / 10 ^ k\<close>. The decimal text of
    a number is the one the language prints between 1e-6 and 1e21 in size.
  \<^item> a string is a \<open>string\<close>: code units below 256. Case conversion is that of the ASCII letters.
\<close>

section \<open>Values\<close>

datatype jsnum = JInt int | JDec int nat | JInf bool | JNaN

datatype js =
    Undef
  | Null
  | JBool bool
  | JNum jsnum
  | Str string
  | Arr "js list"
  | Obj "(string \<times> js) list"

named_theorems js_defs \<open>definitions of the language's operations, for evaluation\<close>
named_theorems text_simps \<open>rewrite rules on normalised text\<close>

text \<open>\<open>value == null\<close>, \<open>left ?? right\<close> and \<open>Boolean(value)\<close>.\<close>

fun is_nullish :: "js \<Rightarrow> bool" where
  "is_nullish Undef = True"
| "is_nullish Null = True"
| "is_nullish _ = False"

definition nullish :: "js \<Rightarrow> js \<Rightarrow> js" where
  "nullish a b = (if is_nullish a then b else a)"

fun truthy :: "js \<Rightarrow> bool" where
  "truthy Undef = False"
| "truthy Null = False"
| "truthy (JBool b) = b"
| "truthy (JNum n) = (n \<noteq> JInt 0 \<and> n \<noteq> JNaN)"
| "truthy (Str s) = (s \<noteq> [])"
| "truthy (Arr _) = True"
| "truthy (Obj _) = True"

definition js_or :: "js \<Rightarrow> js \<Rightarrow> js" where
  "js_or a b = (if truthy a then a else b)"

text \<open>\<open>value && typeof value === "object"\<close>, \<open>Array.isArray\<close> and \<open>typeof value === "string"\<close>.\<close>

fun is_object :: "js \<Rightarrow> bool" where
  "is_object (Arr _) = True"
| "is_object (Obj _) = True"
| "is_object _ = False"

fun is_array :: "js \<Rightarrow> bool" where
  "is_array (Arr _) = True"
| "is_array _ = False"

fun is_string :: "js \<Rightarrow> bool" where
  "is_string (Str _) = True"
| "is_string _ = False"

text \<open>\<open>value?.name\<close>: only a named property of an object yields anything.\<close>

fun field :: "js \<Rightarrow> string \<Rightarrow> js" where
  "field (Obj ps) k = (case map_of ps k of None \<Rightarrow> Undef | Some v \<Rightarrow> v)"
| "field _ _ = Undef"

fun has_own :: "js \<Rightarrow> string \<Rightarrow> bool" where
  "has_own (Obj ps) k = (k \<in> set (map fst ps))"
| "has_own _ _ = False"

text \<open>\<open>Object.entries\<close> and the spread of objects: \<open>{...left, ...right}\<close>.\<close>

fun own_entries :: "js \<Rightarrow> (string \<times> js) list" where
  "own_entries (Obj ps) = ps"
| "own_entries _ = []"

fun entry_set :: "string \<Rightarrow> js \<Rightarrow> (string \<times> js) list \<Rightarrow> (string \<times> js) list" where
  "entry_set k v [] = [(k, v)]"
| "entry_set k v ((l, w) # ps) = (if l = k then (k, v) # ps else (l, w) # entry_set k v ps)"

definition spread :: "js \<Rightarrow> js \<Rightarrow> js" where
  "spread l r = Obj (foldl (\<lambda>ps (k, v). entry_set k v ps) [] (own_entries l @ own_entries r))"

fun elements :: "js \<Rightarrow> js list" where
  "elements (Arr xs) = xs"
| "elements _ = []"

text \<open>\<open>left === right\<close> where at least one side is a primitive value.\<close>

fun strict_eq :: "js \<Rightarrow> js \<Rightarrow> bool" where
  "strict_eq (JNum a) (JNum b) = (a = b \<and> a \<noteq> JNaN)"
| "strict_eq (Arr _) _ = False"
| "strict_eq (Obj _) _ = False"
| "strict_eq a b = (a = b)"

definition of_opt :: "string option \<Rightarrow> js" where
  "of_opt t = (case t of None \<Rightarrow> Null | Some s \<Rightarrow> Str s)"

section \<open>Text\<close>

definition is_space :: "char \<Rightarrow> bool" where
  "is_space c = ((of_char c :: nat) \<in> {9, 10, 11, 12, 13, 32, 160})"

definition upper_char :: "char \<Rightarrow> char" where
  "upper_char c =
     (if 97 \<le> (of_char c :: nat) \<and> (of_char c :: nat) \<le> 122
      then char_of ((of_char c :: nat) - 32) else c)"

definition lower_char :: "char \<Rightarrow> char" where
  "lower_char c =
     (if 65 \<le> (of_char c :: nat) \<and> (of_char c :: nat) \<le> 90
      then char_of ((of_char c :: nat) + 32) else c)"

definition to_upper :: "string \<Rightarrow> string" where
  "to_upper s = map upper_char s"

definition to_lower :: "string \<Rightarrow> string" where
  "to_lower s = map lower_char s"

definition trim_start :: "string \<Rightarrow> string" where
  "trim_start s = dropWhile is_space s"

definition trim_end :: "string \<Rightarrow> string" where
  "trim_end s = rev (dropWhile is_space (rev s))"

definition trim :: "string \<Rightarrow> string" where
  "trim s = trim_end (trim_start s)"

text \<open>\<open>text.replace(/\s+/g, "-")\<close>: the flag says that the run of white space has its dash.\<close>

fun dash_spaces :: "bool \<Rightarrow> string \<Rightarrow> string" where
  "dash_spaces _ [] = []"
| "dash_spaces inside (c # cs) =
     (if is_space c then (if inside then dash_spaces True cs else CHR ''-'' # dash_spaces True cs)
      else c # dash_spaces False cs)"

text \<open>\<open>text.replace(/[_\-\s]/g, "")\<close>.\<close>

definition is_name_separator :: "char \<Rightarrow> bool" where
  "is_name_separator c = (c = CHR ''_'' \<or> c = CHR ''-'' \<or> is_space c)"

definition strip_separators :: "string \<Rightarrow> string" where
  "strip_separators s = filter (\<lambda>c. \<not> is_name_separator c) s"

text \<open>\<open>text.includes(part)\<close>.\<close>

fun has_part :: "string \<Rightarrow> string \<Rightarrow> bool" where
  "has_part [] part = (part = [])"
| "has_part (c # cs) part = (take (length part) (c # cs) = part \<or> has_part cs part)"

section \<open>Numbers and \<open>String(value)\<close>\<close>

fun nat_text :: "nat \<Rightarrow> string" where
  "nat_text n =
     (if n < 10 then [char_of (48 + n)] else nat_text (n div 10) @ [char_of (48 + n mod 10)])"

declare nat_text.simps [simp del]

definition int_text :: "int \<Rightarrow> string" where
  "int_text i = (if i < 0 then ''-'' @ nat_text (nat (- i)) else nat_text (nat i))"

definition dec_text :: "int \<Rightarrow> nat \<Rightarrow> string" where
  "dec_text m k =
     (let ds = nat_text (nat \<bar>m\<bar>);
          padded = replicate (Suc k - length ds) CHR ''0'' @ ds;
          n = length padded - k
      in (if m < 0 then ''-'' else []) @ take n padded @ ''.'' @ drop n padded)"

fun num_text :: "jsnum \<Rightarrow> string" where
  "num_text (JInt i) = int_text i"
| "num_text (JDec m k) = dec_text m k"
| "num_text (JInf negative) = (if negative then ''-Infinity'' else ''Infinity'')"
| "num_text JNaN = ''NaN''"

fun join :: "string \<Rightarrow> string list \<Rightarrow> string" where
  "join _ [] = []"
| "join _ [x] = x"
| "join sep (x # y # ys) = x @ sep @ join sep (y # ys)"

fun js_str :: "js \<Rightarrow> string" where
  "js_str Undef = ''undefined''"
| "js_str Null = ''null''"
| "js_str (JBool b) = (if b then ''true'' else ''false'')"
| "js_str (JNum n) = num_text n"
| "js_str (Str s) = s"
| "js_str (Arr xs) = join '','' (map (\<lambda>x. if is_nullish x then [] else js_str x) xs)"
| "js_str (Obj _) = ''[object Object]''"

text \<open>The two forms of \<open>String(value ?? "").trim()\<close> in the source: with \<open>""\<close> or \<open>null\<close> for none.\<close>

definition text_of :: "js \<Rightarrow> string" where
  "text_of v = trim (js_str (nullish v (Str [])))"

definition opt_text :: "js \<Rightarrow> string option" where
  "opt_text v = (let t = text_of v in if t = [] then None else Some t)"

definition upper_text :: "js \<Rightarrow> string" where
  "upper_text v = to_upper (text_of v)"

definition lower_text :: "js \<Rightarrow> string" where
  "lower_text v = to_lower (text_of v)"

section \<open>\<open>Number(text)\<close>\<close>

definition digit_in :: "nat \<Rightarrow> char \<Rightarrow> nat option" where
  "digit_in base c =
     (let n = (of_char c :: nat);
          d = (if 48 \<le> n \<and> n \<le> 57 then n - 48
               else if 97 \<le> n \<and> n \<le> 102 then n - 87
               else if 65 \<le> n \<and> n \<le> 70 then n - 55 else 99)
      in if d < base then Some d else None)"

fun digits_from :: "nat \<Rightarrow> nat \<Rightarrow> string \<Rightarrow> nat option" where
  "digits_from base acc [] = Some acc"
| "digits_from base acc (c # cs) =
     (case digit_in base c of None \<Rightarrow> None | Some d \<Rightarrow> digits_from base (acc * base + d) cs)"

definition digits_value :: "nat \<Rightarrow> string \<Rightarrow> nat option" where
  "digits_value base s = (if s = [] then None else digits_from base 0 s)"

fun norm_dec :: "int \<Rightarrow> nat \<Rightarrow> jsnum" where
  "norm_dec m 0 = JInt m"
| "norm_dec m (Suc k) = (if m mod 10 = 0 then norm_dec (m div 10) k else JDec m (Suc k))"

fun split_sign :: "string \<Rightarrow> bool \<times> string" where
  "split_sign [] = (False, [])"
| "split_sign (c # cs) =
     (if c = CHR ''-'' then (True, cs) else if c = CHR ''+'' then (False, cs)
      else (False, c # cs))"

definition int_value :: "string \<Rightarrow> int option" where
  "int_value s =
     (case split_sign s of (neg, ds) \<Rightarrow>
        (case digits_value 10 ds of None \<Rightarrow> None
         | Some n \<Rightarrow> Some (if neg then - int n else int n)))"

definition decimal_value :: "string \<Rightarrow> jsnum" where
  "decimal_value s =
     (case split_sign s of (neg, body) \<Rightarrow>
        if body = ''Infinity'' then JInf neg
        else
          let mant = takeWhile (\<lambda>c. c \<noteq> CHR ''e'' \<and> c \<noteq> CHR ''E'') body;
              exp = (if length mant = length body then Some 0
                     else int_value (drop (Suc (length mant)) body));
              whole = takeWhile (\<lambda>c. c \<noteq> CHR ''.'') mant;
              frac = drop (Suc (length whole)) mant
          in case (exp, digits_value 10 (whole @ frac)) of
               (Some e, Some n) \<Rightarrow>
                 (let m = (if neg then - int n else int n); shift = e - int (length frac)
                  in if 0 \<le> shift then JInt (m * 10 ^ nat shift)
                     else norm_dec m (nat (- shift)))
             | _ \<Rightarrow> JNaN)"

definition radix_value :: "nat \<Rightarrow> string \<Rightarrow> jsnum" where
  "radix_value base s = (case digits_value base s of None \<Rightarrow> JNaN | Some n \<Rightarrow> JInt (int n))"

definition text_number :: "string \<Rightarrow> jsnum" where
  "text_number s =
     (let t = trim s; p = to_lower (take 2 t) in
      if t = [] then JInt 0
      else if p = ''0x'' then radix_value 16 (drop 2 t)
      else if p = ''0o'' then radix_value 8 (drop 2 t)
      else if p = ''0b'' then radix_value 2 (drop 2 t)
      else decimal_value t)"

text \<open>\<open>Number(value)\<close>; an object goes through its text.\<close>

fun to_number :: "js \<Rightarrow> jsnum" where
  "to_number Undef = JNaN"
| "to_number Null = JInt 0"
| "to_number (JBool b) = JInt (if b then 1 else 0)"
| "to_number (JNum n) = n"
| "to_number (Str s) = text_number s"
| "to_number v = text_number (js_str v)"

fun is_finite_num :: "jsnum \<Rightarrow> bool" where
  "is_finite_num (JInt _) = True"
| "is_finite_num (JDec _ _) = True"
| "is_finite_num _ = False"

end
