(* ===== verification/JsText.thy ===== *)
theory JsText
  imports JsValues
begin

text \<open>
  The laws of the text operations that the components share: trimming and case conversion are
  idempotent and commute, and text normalised once is left alone by a second normalisation.
\<close>

section \<open>Trimming\<close>

lemma trim_nil [simp]: "trim [] = []"
  by (simp add: trim_def trim_start_def trim_end_def)

lemma trim_end_cases: "trim_end s = [] \<or> \<not> is_space (last (trim_end s))"
proof (cases "dropWhile is_space (rev s)")
  case Nil
  then show ?thesis by (simp add: trim_end_def)
next
  case (Cons c cs)
  then have "\<not> is_space c" by (metis hd_dropWhile list.distinct(1) list.sel(1))
  with Cons show ?thesis by (simp add: trim_end_def)
qed

lemma trim_end_prefix: "\<exists>r. s = trim_end s @ r"
proof -
  have "s = rev (takeWhile is_space (rev s) @ dropWhile is_space (rev s))"
    by (simp only: takeWhile_dropWhile_id rev_rev_ident)
  then have "s = trim_end s @ rev (takeWhile is_space (rev s))"
    by (simp only: trim_end_def rev_append)
  then show ?thesis by (rule exI)
qed

lemma trim_fixed: "s = [] \<or> \<not> is_space (hd s) \<and> \<not> is_space (last s) \<Longrightarrow> trim s = s"
proof (cases s rule: rev_cases)
  case Nil
  then show ?thesis by simp
next
  case (snoc xs x)
  moreover assume "s = [] \<or> \<not> is_space (hd s) \<and> \<not> is_space (last s)"
  ultimately have ends: "\<not> is_space (hd s)" "\<not> is_space x" by auto
  moreover have "dropWhile is_space t = t" if "t \<noteq> []" "\<not> is_space (hd t)" for t
    using that by (cases t) auto
  ultimately have "dropWhile is_space s = s"
    using snoc by simp
  with ends snoc show ?thesis
    by (simp add: trim_def trim_start_def trim_end_def)
qed

lemma trim_ends: "trim s = [] \<or> \<not> is_space (hd (trim s)) \<and> \<not> is_space (last (trim s))"
proof (cases "trim s = []")
  case False
  let ?u = "trim_start s"
  obtain r where r: "?u = trim s @ r"
    using trim_end_prefix [of ?u] by (auto simp: trim_def)
  with False have "?u \<noteq> []" and "hd (trim s) = hd ?u" by auto
  moreover have "?u \<noteq> [] \<Longrightarrow> \<not> is_space (hd ?u)"
    by (simp add: trim_start_def hd_dropWhile)
  ultimately show ?thesis
    using trim_end_cases [of ?u] False by (auto simp: trim_def)
qed simp

lemma trim_trim [simp, text_simps]: "trim (trim s) = trim s"
  by (rule trim_fixed) (rule trim_ends)

lemma trim_fixed_iff: "trim s = s \<longleftrightarrow> s = [] \<or> \<not> is_space (hd s) \<and> \<not> is_space (last s)"
  using trim_ends [of s] trim_fixed [of s] by auto

section \<open>Case conversion\<close>

lemma of_char_upper:
  "(of_char (upper_char c) :: nat) =
     (if 97 \<le> (of_char c :: nat) \<and> (of_char c :: nat) \<le> 122 then of_char c - 32 else of_char c)"
  by (simp add: upper_char_def less_imp_diff_less)

lemma of_char_lower:
  "(of_char (lower_char c) :: nat) =
     (if 65 \<le> (of_char c :: nat) \<and> (of_char c :: nat) \<le> 90 then of_char c + 32 else of_char c)"
  by (simp add: lower_char_def)

lemma char_eqI: "(of_char c :: nat) = of_char d \<Longrightarrow> c = d"
  by (simp add: of_char_eq_iff)

lemma upper_char_idem [simp]: "upper_char (upper_char c) = upper_char c"
  by (rule char_eqI) (auto simp: of_char_upper)

lemma lower_char_idem [simp]: "lower_char (lower_char c) = lower_char c"
  by (rule char_eqI) (auto simp: of_char_lower)

lemma upper_lower_char [simp]: "upper_char (lower_char c) = upper_char c"
  by (rule char_eqI) (auto simp: of_char_upper of_char_lower)

lemma lower_upper_char [simp]: "lower_char (upper_char c) = lower_char c"
  by (rule char_eqI) (auto simp: of_char_upper of_char_lower)

lemma is_space_upper [simp]: "is_space (upper_char c) = is_space c"
  by (auto simp: is_space_def of_char_upper)

lemma is_space_lower [simp]: "is_space (lower_char c) = is_space c"
  by (auto simp: is_space_def of_char_lower)

lemma to_upper_idem [simp, text_simps]: "to_upper (to_upper s) = to_upper s"
  by (simp add: to_upper_def)

lemma to_lower_idem [simp, text_simps]: "to_lower (to_lower s) = to_lower s"
  by (simp add: to_lower_def)

lemma to_upper_lower [simp, text_simps]: "to_upper (to_lower s) = to_upper s"
  by (simp add: to_upper_def to_lower_def)

lemma to_lower_upper [simp, text_simps]: "to_lower (to_upper s) = to_lower s"
  by (simp add: to_upper_def to_lower_def)

lemma to_upper_eq_nil [simp]: "to_upper s = [] \<longleftrightarrow> s = []"
  by (simp add: to_upper_def)

lemma to_lower_eq_nil [simp]: "to_lower s = [] \<longleftrightarrow> s = []"
  by (simp add: to_lower_def)

lemma to_upper_append: "to_upper (s @ t) = to_upper s @ to_upper t"
  by (simp add: to_upper_def)

lemma trim_map: "(\<And>c. is_space (f c) = is_space c) \<Longrightarrow> trim (map f s) = map f (trim s)"
  by (simp add: trim_def trim_start_def trim_end_def dropWhile_map rev_map comp_def)

lemma trim_to_upper [simp, text_simps]: "trim (to_upper s) = to_upper (trim s)"
  by (simp add: to_upper_def trim_map)

lemma trim_to_lower [simp, text_simps]: "trim (to_lower s) = to_lower (trim s)"
  by (simp add: to_lower_def trim_map)

text \<open>Upper-case text holds no ASCII lower-case letter.\<close>

definition is_lower :: "char \<Rightarrow> bool" where
  "is_lower c = (97 \<le> (of_char c :: nat) \<and> (of_char c :: nat) \<le> 122)"

lemma not_lower_upper_char [simp]: "\<not> is_lower (upper_char c)"
  by (auto simp: is_lower_def of_char_upper)

lemma not_lower_upper: "c \<in> set (to_upper s) \<Longrightarrow> \<not> is_lower c"
  by (auto simp: to_upper_def)

section \<open>Normalised text\<close>

lemma text_of_Str [simp, text_simps]: "text_of (Str s) = trim s"
  by (simp add: text_of_def nullish_def)

lemma text_of_Null [simp, text_simps]: "text_of Null = []" "text_of Undef = []"
  by (simp_all add: text_of_def nullish_def)

lemma trim_text_of [simp, text_simps]: "trim (text_of v) = text_of v"
  by (simp add: text_of_def)

lemma upper_text_Str [simp, text_simps]: "upper_text (Str s) = to_upper (trim s)"
  by (simp add: upper_text_def)

lemma lower_text_Str [simp, text_simps]: "lower_text (Str s) = to_lower (trim s)"
  by (simp add: lower_text_def)

lemma upper_text_again [simp, text_simps]: "upper_text (Str (upper_text v)) = upper_text v"
  by (simp add: upper_text_def)

lemma lower_text_again [simp, text_simps]: "lower_text (Str (lower_text v)) = lower_text v"
  by (simp add: lower_text_def)

lemma trim_upper_text [simp, text_simps]: "trim (upper_text v) = upper_text v"
  by (simp add: upper_text_def)

lemma to_upper_upper_text [simp, text_simps]: "to_upper (upper_text v) = upper_text v"
  by (simp add: upper_text_def)

lemma upper_text_eq_nil: "upper_text v = [] \<longleftrightarrow> text_of v = []"
  by (simp add: upper_text_def)

lemma upper_text_text_of [simp, text_simps]: "upper_text (Str (text_of v)) = upper_text v"
  by (simp add: upper_text_def)

lemma opt_text_Some: "opt_text v = Some t \<longleftrightarrow> t = text_of v \<and> t \<noteq> []"
  by (auto simp: opt_text_def Let_def)

lemma opt_text_None: "opt_text v = None \<longleftrightarrow> text_of v = []"
  by (auto simp: opt_text_def Let_def)

lemma opt_text_again [simp, text_simps]: "opt_text (of_opt (opt_text v)) = opt_text v"
  by (auto simp: opt_text_def of_opt_def Let_def)

lemma opt_text_Str: "opt_text (Str s) = (if trim s = [] then None else Some (trim s))"
  by (simp add: opt_text_def)

lemma opt_text_of_Some [simp]: "t \<noteq> [] \<Longrightarrow> trim t = t \<Longrightarrow> opt_text (Str t) = Some t"
  by (simp add: opt_text_Str)

section \<open>Spread objects\<close>

lemma entry_set_get: "map_of (entry_set k v ps) = (map_of ps)(k \<mapsto> v)"
  by (induction ps) (auto simp: fun_eq_iff)

lemma foldl_entry_set_get:
  "map_of (foldl (\<lambda>ps (k, v). entry_set k v ps) ps es) = map_of ps ++ map_of (rev es)"
proof (induction es arbitrary: ps)
  case (Cons e es)
  then show ?case
    by (cases e) (simp add: entry_set_get map_add_def fun_eq_iff split: option.splits)
qed simp

text \<open>A spread field is the right one where the right side has it.\<close>

lemma field_spread:
  "field (spread l r) k =
   (case map_of (rev (own_entries r)) k of
      Some v \<Rightarrow> v
    | None \<Rightarrow> (case map_of (rev (own_entries l)) k of Some v \<Rightarrow> v | None \<Rightarrow> Undef))"
  by (simp add: spread_def foldl_entry_set_get map_add_def split: option.splits)

lemma spread_last: "map_of (rev ps) k = Some v \<Longrightarrow> field (spread l (Obj ps)) k = v"
  by (simp add: field_spread)

section \<open>Evaluation on concrete text\<close>

text \<open>The bundle that evaluates text operations on literals by rewriting.\<close>

lemmas text_eval =
  text_of_def opt_text_def upper_text_def lower_text_def of_opt_def
  nullish_def js_or_def trim_def trim_start_def trim_end_def to_upper_def to_lower_def
  upper_char_def lower_char_def is_space_def char_of_def bit_Suc_0_iff

end
