(* ===== verification/JsMaps.thy ===== *)
theory JsMaps
  imports Main "HOL-Library.Multiset"
begin

text \<open>
  The \<open>Map\<close> and \<open>Set\<close> objects of the language: an entry keeps the place of its first insertion,
  a later \<open>set\<close> under the same key replaces the value in place. The interface \<open>key_store\<close> states
  what the stores of the clients rely on and carries the lemmas about sequences of writes; the
  ordered association lists interpret it.
\<close>

section \<open>Ordered maps\<close>

type_synonym ('k, 'v) jmap = "('k \<times> 'v) list"

fun jm_set :: "'k \<Rightarrow> 'v \<Rightarrow> ('k, 'v) jmap \<Rightarrow> ('k, 'v) jmap" where
  "jm_set k v [] = [(k, v)]"
| "jm_set k v ((l, w) # m) = (if l = k then (k, v) # m else (l, w) # jm_set k v m)"

fun jm_delete :: "'k \<Rightarrow> ('k, 'v) jmap \<Rightarrow> ('k, 'v) jmap" where
  "jm_delete k [] = []"
| "jm_delete k ((l, w) # m) = (if l = k then jm_delete k m else (l, w) # jm_delete k m)"

abbreviation jm_get :: "('k, 'v) jmap \<Rightarrow> 'k \<Rightarrow> 'v option" where
  "jm_get \<equiv> map_of"

abbreviation jm_has :: "('k, 'v) jmap \<Rightarrow> 'k \<Rightarrow> bool" where
  "jm_has m k \<equiv> map_of m k \<noteq> None"

abbreviation jm_keys :: "('k, 'v) jmap \<Rightarrow> 'k list" where
  "jm_keys m \<equiv> map fst m"

abbreviation jm_values :: "('k, 'v) jmap \<Rightarrow> 'v list" where
  "jm_values m \<equiv> map snd m"

definition jm_ok :: "('k, 'v) jmap \<Rightarrow> bool" where
  "jm_ok m = distinct (jm_keys m)"

lemma jm_ok_simps [simp]:
  "jm_ok []"
  "jm_ok ((k, v) # m) \<longleftrightarrow> map_of m k = None \<and> jm_ok m"
  by (auto simp: jm_ok_def map_of_eq_None_iff)

lemma jm_has_keys: "jm_get m k \<noteq> None \<longleftrightarrow> k \<in> set (jm_keys m)"
  by (simp add: map_of_eq_None_iff)

lemma jm_get_set [simp]: "jm_get (jm_set k v m) = (jm_get m)(k \<mapsto> v)"
  by (induction m) (auto simp: fun_eq_iff)

lemma jm_get_delete [simp]: "jm_get (jm_delete k m) = (jm_get m)(k := None)"
  by (induction m) (auto simp: fun_eq_iff)

lemma jm_keys_set: "set (jm_keys (jm_set k v m)) = insert k (set (jm_keys m))"
  by (induction m) (force split: if_splits)+

lemma jm_keys_delete [simp]: "set (jm_keys (jm_delete k m)) = set (jm_keys m) - {k}"
  by (induction m) (force split: if_splits)+

lemma jm_keys_present: "k \<in> set (jm_keys m) \<Longrightarrow> jm_keys (jm_set k v m) = jm_keys m"
  unfolding jm_has_keys [symmetric] by (induction m) auto

lemma jm_ok_set [simp, intro]: "jm_ok m \<Longrightarrow> jm_ok (jm_set k v m)"
  by (induction m) auto

lemma jm_ok_delete [simp, intro]: "jm_ok m \<Longrightarrow> jm_ok (jm_delete k m)"
  by (induction m) auto

lemma jm_set_fresh: "jm_get m k = None \<Longrightarrow> jm_set k v m = m @ [(k, v)]"
  by (induction m) (auto split: if_splits)

lemma jm_delete_fresh: "jm_get m k = None \<Longrightarrow> jm_delete k m = m"
  by (induction m) (auto split: if_splits)

lemma jm_delete_append: "jm_delete k (m @ n) = jm_delete k m @ jm_delete k n"
  by (induction m) auto

lemma jm_delete_set_fresh [simp]: "jm_get m k = None \<Longrightarrow> jm_delete k (jm_set k v m) = m"
  by (simp add: jm_set_fresh jm_delete_append jm_delete_fresh)

lemma jm_delete_set: "jm_delete k (jm_set k v m) = jm_delete k m"
  by (induction m) auto

lemma jm_set_not_nil [simp]: "jm_set k v m \<noteq> []"
  by (cases m) (auto split: if_splits)

lemma jm_set_mem: "(k', v') \<in> set (jm_set k v m) \<Longrightarrow> (k', v') = (k, v) \<or> (k', v') \<in> set m"
  by (induction m) (auto split: if_splits)

lemma jm_delete_mem: "(k', v') \<in> set (jm_delete k m) \<longleftrightarrow> k' \<noteq> k \<and> (k', v') \<in> set m"
  by (induction m) (auto split: if_splits)

lemma jm_get_mem: "jm_ok m \<Longrightarrow> jm_get m k = Some v \<longleftrightarrow> (k, v) \<in> set m"
  by (auto simp: jm_ok_def intro: map_of_is_SomeI dest: map_of_SomeD)

lemma jm_values_get: "jm_ok m \<Longrightarrow> v \<in> set (jm_values m) \<longleftrightarrow> (\<exists>k. jm_get m k = Some v)"
  by (force simp: jm_get_mem)

lemma jm_values_set: "v' \<in> set (jm_values (jm_set k v m)) \<Longrightarrow> v' = v \<or> v' \<in> set (jm_values m)"
  by (induction m) (force split: if_splits)+

lemma jm_set_same [simp]: "jm_get m k = Some v \<Longrightarrow> jm_set k v m = m"
  by (induction m) (auto split: if_splits)

lemma jm_set_set [simp]: "jm_set k v (jm_set k w m) = jm_set k v m"
  by (induction m) auto

lemma jm_get_Nil_iff: "m = [] \<longleftrightarrow> (\<forall>k. jm_get m k = None)"
  by (cases m) auto

lemma list_all_jm_set [intro]: "P (k, v) \<Longrightarrow> list_all P m \<Longrightarrow> list_all P (jm_set k v m)"
  by (induction m) auto

lemma list_all_jm_delete [intro]: "list_all P m \<Longrightarrow> list_all P (jm_delete k m)"
  by (induction m) auto

lemma list_all_jm_get: "list_all P m \<Longrightarrow> jm_get m k = Some v \<Longrightarrow> P (k, v)"
  by (auto simp: list_all_iff dest: map_of_SomeD)

lemma jm_delete_filter: "jm_ok m \<Longrightarrow> jm_delete k m = filter (\<lambda>(l, _). l \<noteq> k) m"
  by (induction m) auto

lemma jm_ok_filter: "jm_ok m \<Longrightarrow> jm_ok (filter P m)"
  by (auto simp: jm_ok_def intro: distinct_map_filter)

text \<open>Building a map by setting entries in turn.\<close>

definition jm_of :: "('k \<times> 'v) list \<Rightarrow> ('k, 'v) jmap" where
  "jm_of es = foldl (\<lambda>m (k, v). jm_set k v m) [] es"

lemma jm_ok_foldl: "jm_ok m \<Longrightarrow> jm_ok (foldl (\<lambda>m (k, v). jm_set k v m) m es)"
  by (induction es arbitrary: m) auto

lemma jm_ok_of [simp, intro]: "jm_ok (jm_of es)"
  by (simp add: jm_of_def jm_ok_foldl)

lemma jm_foldl_mem:
  "e \<in> set (foldl (\<lambda>m (k, v). jm_set k v m) m es) \<Longrightarrow> e \<in> set m \<or> e \<in> set es"
proof (induction es arbitrary: m)
  case (Cons x es)
  obtain k v where x: "x = (k, v)" by (cases x)
  show ?case
    using Cons.IH [of "jm_set k v m"] Cons.prems jm_set_mem [of "fst e" "snd e" k v m]
    by (auto simp: x)
qed simp

lemma jm_of_mem: "e \<in> set (jm_of es) \<Longrightarrow> e \<in> set es"
  using jm_foldl_mem [of e "[]" es] by (simp add: jm_of_def)

lemma jm_foldl_get:
  "jm_get (foldl (\<lambda>m (k, v). jm_set k v m) m es) = jm_get m ++ map_of (rev es)"
proof (induction es arbitrary: m)
  case (Cons x es)
  then show ?case by (cases x) (simp add: map_add_def fun_eq_iff split: option.splits)
qed simp

lemma jm_of_get: "jm_get (jm_of es) = map_of (rev es)"
  by (simp add: jm_of_def jm_foldl_get)

text \<open>Mapping the values of a map.\<close>

definition jm_map :: "('v \<Rightarrow> 'w) \<Rightarrow> ('k, 'v) jmap \<Rightarrow> ('k, 'w) jmap" where
  "jm_map f m = map (\<lambda>(k, v). (k, f v)) m"

lemma jm_map_set: "jm_map f (jm_set k v m) = jm_set k (f v) (jm_map f m)"
  by (induction m) (auto simp: jm_map_def)

lemma jm_map_foldl:
  "jm_map f (foldl (\<lambda>m (k, v). jm_set k v m) m es) =
   foldl (\<lambda>m (k, v). jm_set k v m) (jm_map f m) (map (\<lambda>(k, v). (k, f v)) es)"
  by (induction es arbitrary: m) (auto simp: jm_map_set)

lemma jm_map_of: "jm_map f (jm_of es) = jm_of (map (\<lambda>(k, v). (k, f v)) es)"
  by (simp add: jm_of_def jm_map_foldl) (simp add: jm_map_def)

lemma jm_get_map: "jm_get (jm_map f m) k = map_option f (jm_get m k)"
  by (simp add: jm_map_def map_of_map comp_def)

section \<open>Ordered sets\<close>

text \<open>\<open>[...new Set(values)]\<close>: the first occurrence of each value, in order.\<close>

fun set_of_list :: "'a list \<Rightarrow> 'a list" where
  "set_of_list [] = []"
| "set_of_list (x # xs) = x # filter (\<lambda>y. y \<noteq> x) (set_of_list xs)"

lemma set_set_of_list [simp]: "set (set_of_list xs) = set xs"
  by (induction xs) auto

lemma distinct_set_of_list [simp]: "distinct (set_of_list xs)"
  by (induction xs) auto

lemma length_set_of_list: "length (set_of_list xs) = card (set xs)"
  using distinct_card [of "set_of_list xs"] by simp

text \<open>\<open>values.find(test)\<close>.\<close>

lemma find_SomeD: "List.find P xs = Some x \<Longrightarrow> P x \<and> x \<in> set xs"
  by (induction xs) (auto split: if_splits)

lemma find_None_set: "List.find P xs = None \<longleftrightarrow> (\<forall>x \<in> set xs. \<not> P x)"
  by (induction xs) auto

lemma find_append: "List.find P xs = None \<Longrightarrow> List.find P (xs @ ys) = List.find P ys"
  by (induction xs) (auto split: if_splits)

section \<open>Sorting\<close>

text \<open>\<open>values.sort\<close> by a numeric key is the stable \<open>sort_key\<close>.\<close>

lemma sort_key_eq_Nil [simp]: "sort_key f xs = [] \<longleftrightarrow> xs = []"
  by (metis length_0_conv length_sort)

section \<open>The interface of a keyed store\<close>

text \<open>
  What the stores rely on: a write shows under its key only, a removal hides its key only, both
  keep the invariant of the store.
\<close>

locale key_store =
  fixes get :: "'s \<Rightarrow> 'k \<Rightarrow> 'v option"
    and put :: "'k \<Rightarrow> 'v \<Rightarrow> 's \<Rightarrow> 's"
    and del :: "'k \<Rightarrow> 's \<Rightarrow> 's"
    and ok :: "'s \<Rightarrow> bool"
  assumes get_put: "ok s \<Longrightarrow> get (put k v s) = (get s)(k \<mapsto> v)"
    and get_del: "ok s \<Longrightarrow> get (del k s) = (get s)(k := None)"
    and ok_put: "ok s \<Longrightarrow> ok (put k v s)"
    and ok_del: "ok s \<Longrightarrow> ok (del k s)"
begin

primrec put_all :: "('k \<times> 'v) list \<Rightarrow> 's \<Rightarrow> 's" where
  "put_all [] s = s"
| "put_all (e # es) s = put_all es (put (fst e) (snd e) s)"

primrec del_all :: "'k list \<Rightarrow> 's \<Rightarrow> 's" where
  "del_all [] s = s"
| "del_all (k # ks) s = del_all ks (del k s)"

lemma ok_put_all: "ok s \<Longrightarrow> ok (put_all es s)"
  by (induction es arbitrary: s) (auto simp: ok_put)

lemma ok_del_all: "ok s \<Longrightarrow> ok (del_all ks s)"
  by (induction ks arbitrary: s) (auto simp: ok_del)

lemma get_put_all: "ok s \<Longrightarrow> get (put_all es s) = get s ++ map_of (rev es)"
  by (induction es arbitrary: s)
    (auto simp: get_put ok_put map_add_def fun_eq_iff split: option.splits)

lemma get_del_all: "ok s \<Longrightarrow> get (del_all ks s) = get s |` (- set ks)"
  by (induction ks arbitrary: s) (auto simp: get_del ok_del restrict_map_def fun_eq_iff)

lemma del_all_put_all:
  "ok s \<Longrightarrow> get (del_all (map fst es) (put_all es s)) = get s |` (- set (map fst es))"
  by (simp add: get_del_all get_put_all ok_put_all restrict_map_def map_add_def fun_eq_iff
      map_of_eq_None_iff split: option.splits) (force dest: map_of_SomeD)

end

interpretation jmap: key_store jm_get jm_set jm_delete jm_ok
  by unfold_locales auto

end
