(* ===== verification/ActionRegistry.thy ===== *)
theory ActionRegistry
  imports Main
begin

text \<open>
  The contract of a registry of running actions. A client asks to begin an action and is refused
  while a conflicting action runs, and ends an action by its key. The locale proves once that no
  sequence of such calls, in any order, lets two conflicting actions run at the same time.
\<close>

locale action_registry =
  fixes running :: "'s \<Rightarrow> 'a set"
    and conflicts :: "'a \<Rightarrow> 'a \<Rightarrow> bool"
    and begin_action :: "'r \<Rightarrow> 's \<Rightarrow> 'a option \<times> 's"
    and end_action :: "'k \<Rightarrow> 's \<Rightarrow> 's"
    and ok :: "'s \<Rightarrow> bool"
  assumes conflicts_sym: "conflicts a b \<Longrightarrow> conflicts b a"
    and begin_refused: "ok s \<Longrightarrow> begin_action r s = (None, s') \<Longrightarrow> running s' \<subseteq> running s"
    and begin_started: "ok s \<Longrightarrow> begin_action r s = (Some a, s') \<Longrightarrow>
          running s' \<subseteq> insert a (running s) \<and> (\<forall>b \<in> running s. \<not> conflicts a b)"
    and end_shrinks: "ok s \<Longrightarrow> running (end_action k s) \<subseteq> running s"
    and ok_begin: "ok s \<Longrightarrow> ok (snd (begin_action r s))"
    and ok_end: "ok s \<Longrightarrow> ok (end_action k s)"
begin

definition exclusive :: "'s \<Rightarrow> bool" where
  "exclusive s = (\<forall>a \<in> running s. \<forall>b \<in> running s. a \<noteq> b \<longrightarrow> \<not> conflicts a b)"

definition step :: "'r + 'k \<Rightarrow> 's \<Rightarrow> 's" where
  "step c s = (case c of Inl r \<Rightarrow> snd (begin_action r s) | Inr k \<Rightarrow> end_action k s)"

primrec run :: "('r + 'k) list \<Rightarrow> 's \<Rightarrow> 's" where
  "run [] s = s"
| "run (c # cs) s = run cs (step c s)"

lemma ok_step: "ok s \<Longrightarrow> ok (step c s)"
  by (cases c) (auto simp: step_def ok_begin ok_end)

lemma exclusive_begin:
  assumes "ok s" and "exclusive s"
  shows "exclusive (snd (begin_action r s))"
proof (cases "begin_action r s")
  case (Pair result s')
  show ?thesis
  proof (cases result)
    case None
    with begin_refused [OF \<open>ok s\<close>] Pair \<open>exclusive s\<close> show ?thesis
      by (fastforce simp: exclusive_def)
  next
    case (Some a)
    then have "running s' \<subseteq> insert a (running s)" and "\<forall>b \<in> running s. \<not> conflicts a b"
      using begin_started [OF \<open>ok s\<close>] Pair by blast+
    with Pair \<open>exclusive s\<close> show ?thesis
      by (simp add: exclusive_def) (blast dest: conflicts_sym)
  qed
qed

lemma exclusive_step: "ok s \<Longrightarrow> exclusive s \<Longrightarrow> exclusive (step c s)"
  using exclusive_begin end_shrinks
  by (fastforce simp: step_def exclusive_def split: sum.splits)

theorem exclusive_run: "ok s \<Longrightarrow> exclusive s \<Longrightarrow> exclusive (run cs s) \<and> ok (run cs s)"
  by (induction cs arbitrary: s) (auto simp: ok_step exclusive_step)

end

end
