(* ===== verification/ProductOperations.thy ===== *)
theory ProductOperations
  imports JsText JsMaps ActionRegistry
begin

text \<open>
  \<open>features/products/state/productOperationState.js\<close>: the registry of the operations that run on
  a product, by data set. Local operations are begun and ended by this client, external ones are
  replaced as a whole from the backend's job list. The two module-level maps and the change events
  are the record \<open>op_state\<close>; the clock is an argument, and \<open>parse_date\<close> is the date parser of the
  platform (\<open>None\<close> for \<open>NaN\<close>).
\<close>

section \<open>Operations\<close>

datatype operation_type = FREEZE | UNFREEZE | SEND | EXPORT | ROLLBACK

definition all_operation_types :: "operation_type list" where
  "all_operation_types = [FREEZE, UNFREEZE, SEND, EXPORT, ROLLBACK]"

fun type_name :: "operation_type \<Rightarrow> string" where
  "type_name FREEZE = ''freeze''"
| "type_name UNFREEZE = ''unfreeze''"
| "type_name SEND = ''send''"
| "type_name EXPORT = ''export''"
| "type_name ROLLBACK = ''rollback''"

datatype operation_source = LOCAL | BACKEND

fun source_name :: "operation_source \<Rightarrow> string" where
  "source_name LOCAL = ''local''"
| "source_name BACKEND = ''backend''"

fun getProductOperationTypeLabel :: "operation_type \<Rightarrow> string" where
  "getProductOperationTypeLabel FREEZE = ''Freeze''"
| "getProductOperationTypeLabel UNFREEZE = ''Unfreeze''"
| "getProductOperationTypeLabel SEND = ''Send''"
| "getProductOperationTypeLabel EXPORT = ''Export''"
| "getProductOperationTypeLabel ROLLBACK = ''Cancel Export''"

text \<open>The optional text fields of an external operation are \<open>None\<close> in a local one.\<close>

record operation =
  op_key :: string
  operationId :: string
  op_dataset :: js
  normalizedDatasetName :: string
  op_type :: operation_type
  op_label :: js
  op_source :: operation_source
  startedAt :: int
  startedAtText :: "string option"
  startedBy :: "string option"
  op_exportTarget :: "string option"
  op_exportType :: "string option"
  op_status :: "string option"

type_synonym op_map = "(string, operation) jmap"

record op_state =
  locals :: "(string, op_map) jmap"
  externals :: "(string, op_map) jmap"
  emitted :: "js list"

definition initial_op_state :: op_state where
  "initial_op_state = \<lparr>locals = [], externals = [], emitted = []\<rparr>"

record begin_result =
  started :: bool
  res_key :: "string option"
  res_operation :: "operation option"
  res_reason :: "string option"

section \<open>Normalisation\<close>

definition normalizeDatasetName :: "js \<Rightarrow> string option" where
  "normalizeDatasetName v = (let t = upper_text v in if t = [] then None else Some t)"

definition normalizeOperationType :: "js \<Rightarrow> operation_type option" where
  "normalizeOperationType v = List.find (\<lambda>t. type_name t = lower_text v) all_operation_types"

definition normalizeOperationSource :: "js \<Rightarrow> operation_source" where
  "normalizeOperationSource v =
     (if lower_text v = source_name LOCAL then LOCAL else BACKEND)"

definition normalizeOperationId :: "js \<Rightarrow> string option" where
  "normalizeOperationId v =
     (let t = dash_spaces False (lower_text v) in if t = [] then None else Some t)"

definition createOperationKey ::
    "string \<Rightarrow> operation_type \<Rightarrow> string \<Rightarrow> operation_source \<Rightarrow> string" where
  "createOperationKey ds t i src =
     ds @ '':'' @ source_name src @ '':'' @ type_name t @ '':'' @ i"

definition getStartedAtValue :: "(string \<Rightarrow> int option) \<Rightarrow> int \<Rightarrow> string option \<Rightarrow> int" where
  "getStartedAtValue parse_date now t =
     (case t of None \<Rightarrow> 0
      | Some s \<Rightarrow> (case parse_date s of Some ms \<Rightarrow> ms | None \<Rightarrow> now))"

definition normalizeExternalOperation ::
    "(string \<Rightarrow> int option) \<Rightarrow> int \<Rightarrow> js \<Rightarrow> string \<Rightarrow> js \<Rightarrow> operation option" where
  "normalizeExternalOperation parse_date now ds nds input =
     (case normalizeOperationType (field input ''type'') of
        None \<Rightarrow> None
      | Some t \<Rightarrow>
          (let i = (case normalizeOperationId (field input ''id'') of
                      Some i \<Rightarrow> i
                    | None \<Rightarrow> (case normalizeOperationId (field input ''operationId'') of
                                 Some i \<Rightarrow> i | None \<Rightarrow> type_name t));
               src = normalizeOperationSource (field input ''source'');
               started_text = opt_text (field input ''startedAt'')
           in Some \<lparr>op_key = createOperationKey nds t i src,
                operationId = i,
                op_dataset = nullish (field input ''datasetName'') ds,
                normalizedDatasetName = nds,
                op_type = t,
                op_label = (case opt_text (field input ''label'') of
                              Some l \<Rightarrow> Str l | None \<Rightarrow> Str (getProductOperationTypeLabel t)),
                op_source = src,
                startedAt = getStartedAtValue parse_date now started_text,
                startedAtText = started_text,
                startedBy = opt_text (field input ''startedBy''),
                op_exportTarget = opt_text (field input ''exportTarget''),
                op_exportType = opt_text (field input ''exportType''),
                op_status = opt_text (field input ''status'')\<rparr>))"

section \<open>Lookups and messages\<close>

definition ops_of :: "(string, op_map) jmap \<Rightarrow> string \<Rightarrow> op_map" where
  "ops_of m nds = (case jm_get m nds of None \<Rightarrow> [] | Some ops \<Rightarrow> ops)"

abbreviation getLocalOperationsForDataset :: "op_state \<Rightarrow> string \<Rightarrow> op_map" where
  "getLocalOperationsForDataset s \<equiv> ops_of (locals s)"

abbreviation getExternalOperationsForDataset :: "op_state \<Rightarrow> string \<Rightarrow> op_map" where
  "getExternalOperationsForDataset s \<equiv> ops_of (externals s)"

definition getAllOperationsForDataset :: "op_state \<Rightarrow> string \<Rightarrow> operation list" where
  "getAllOperationsForDataset s nds =
     jm_values (getExternalOperationsForDataset s nds) @
     jm_values (getLocalOperationsForDataset s nds)"

fun findBlockingOperation ::
    "operation list \<Rightarrow> operation_type \<Rightarrow> bool \<Rightarrow> operation option" where
  "findBlockingOperation [] t allow = None"
| "findBlockingOperation (p # ps) t allow =
     (if allow \<and> op_type p = t then findBlockingOperation ps t allow else Some p)"

definition formatProductOperation :: "operation \<Rightarrow> string" where
  "formatProductOperation p =
     js_str (nullish (op_label p) (Str (getProductOperationTypeLabel (op_type p))))"

definition running_message :: "operation \<Rightarrow> string" where
  "running_message p =
     formatProductOperation p @ '' is already running for '' @ js_str (op_dataset p) @ ''.''"

definition createDisabledReason :: "operation \<Rightarrow> operation list \<Rightarrow> string" where
  "createDisabledReason p ps =
     (if length ps > 1
      then ''Multiple product operations are already running for '' @ js_str (op_dataset p) @ ''.''
      else running_message p)"

definition emit_change :: "js \<Rightarrow> op_state \<Rightarrow> op_state" where
  "emit_change ds s = s\<lparr>emitted := emitted s @ [ds]\<rparr>"

section \<open>The operations of the registry\<close>

definition refused :: "operation option \<Rightarrow> string \<Rightarrow> begin_result" where
  "refused p reason =
     \<lparr>started = False, res_key = None, res_operation = p, res_reason = Some reason\<rparr>"

definition local_operation ::
    "int \<Rightarrow> js \<Rightarrow> string \<Rightarrow> operation_type \<Rightarrow> js \<Rightarrow> string \<Rightarrow> string \<Rightarrow> operation" where
  "local_operation now ds nds t label i key =
     \<lparr>op_key = key, operationId = i, op_dataset = ds, normalizedDatasetName = nds, op_type = t,
      op_label = nullish label (Str (getProductOperationTypeLabel t)),
      op_source = LOCAL, startedAt = now, startedAtText = None, startedBy = None,
      op_exportTarget = None, op_exportType = None, op_status = None\<rparr>"

lemma local_operation_fields [simp]:
  "op_key (local_operation now ds nds t label i key) = key"
  "operationId (local_operation now ds nds t label i key) = i"
  "op_dataset (local_operation now ds nds t label i key) = ds"
  "normalizedDatasetName (local_operation now ds nds t label i key) = nds"
  "op_type (local_operation now ds nds t label i key) = t"
  "op_source (local_operation now ds nds t label i key) = LOCAL"
  "startedAt (local_operation now ds nds t label i key) = now"
  by (simp_all add: local_operation_def)

definition beginProductOperation ::
    "int \<Rightarrow> js \<Rightarrow> js \<Rightarrow> js \<Rightarrow> js \<Rightarrow> bool \<Rightarrow> op_state \<Rightarrow> begin_result \<times> op_state" where
  "beginProductOperation now ds ty label oid allow s =
     (case (normalizeDatasetName ds, normalizeOperationType ty) of
        (Some nds, Some t) \<Rightarrow>
          (case findBlockingOperation (getAllOperationsForDataset s nds) t allow of
             Some p \<Rightarrow> (refused (Some p) (running_message p), s)
           | None \<Rightarrow>
               (let i = (case normalizeOperationId oid of Some i \<Rightarrow> i | None \<Rightarrow> type_name t);
                    key = createOperationKey nds t i LOCAL;
                    ops = getLocalOperationsForDataset s nds
                in case jm_get ops key of
                     Some p \<Rightarrow> (refused (Some p) (running_message p), s)
                   | None \<Rightarrow>
                       (let p = local_operation now ds nds t label i key
                        in (\<lparr>started = True, res_key = Some key, res_operation = Some p,
                             res_reason = None\<rparr>,
                            emit_change ds
                              (s\<lparr>locals := jm_set nds (jm_set key p ops) (locals s)\<rparr>)))))
      | _ \<Rightarrow> (refused None ''Product operation is missing required data.'', s))"

text \<open>The loop of \<open>endProductOperation\<close>: the first data set that has the key.\<close>

fun find_with_key :: "string \<Rightarrow> (string, op_map) jmap \<Rightarrow> (string \<times> op_map \<times> operation) option" where
  "find_with_key k [] = None"
| "find_with_key k ((nds, ops) # m) =
     (case jm_get ops k of Some p \<Rightarrow> Some (nds, ops, p) | None \<Rightarrow> find_with_key k m)"

definition endProductOperation :: "string option \<Rightarrow> op_state \<Rightarrow> op_state" where
  "endProductOperation key s =
     (case key of
        None \<Rightarrow> s
      | Some k \<Rightarrow>
          if k = [] then s
          else case find_with_key k (locals s) of
                 None \<Rightarrow> s
               | Some (nds, ops, p) \<Rightarrow>
                   (let ops' = jm_delete k ops;
                        m = (if ops' = [] then jm_delete nds (locals s)
                             else jm_set nds ops' (locals s))
                    in emit_change (op_dataset p) (s\<lparr>locals := m\<rparr>)))"

definition areOperationsEqual :: "operation \<Rightarrow> operation \<Rightarrow> bool" where
  "areOperationsEqual l r =
     (op_key l = op_key r \<and> strict_eq (op_dataset l) (op_dataset r) \<and> op_type l = op_type r \<and>
      strict_eq (op_label l) (op_label r) \<and> op_source l = op_source r \<and>
      startedAtText l = startedAtText r \<and> startedBy l = startedBy r \<and>
      op_exportTarget l = op_exportTarget r \<and> op_exportType l = op_exportType r \<and>
      op_status l = op_status r)"

definition areOperationMapsEqual :: "op_map option \<Rightarrow> op_map \<Rightarrow> bool" where
  "areOperationMapsEqual current nxt =
     (let cur = (case current of None \<Rightarrow> [] | Some m \<Rightarrow> m)
      in length cur = length nxt \<and>
         list_all (\<lambda>(k, p). case jm_get cur k of None \<Rightarrow> False | Some q \<Rightarrow> areOperationsEqual q p)
           nxt)"

definition external_map ::
    "(string \<Rightarrow> int option) \<Rightarrow> int \<Rightarrow> js \<Rightarrow> string \<Rightarrow> js list \<Rightarrow> op_map" where
  "external_map parse_date now ds nds inputs =
     jm_of (map (\<lambda>p. (op_key p, p))
       (List.map_filter (normalizeExternalOperation parse_date now ds nds) inputs))"

definition replaceExternalProductOperations ::
    "(string \<Rightarrow> int option) \<Rightarrow> int \<Rightarrow> js \<Rightarrow> js list \<Rightarrow> op_state \<Rightarrow> op_state" where
  "replaceExternalProductOperations parse_date now ds inputs s =
     (case normalizeDatasetName ds of
        None \<Rightarrow> s
      | Some nds \<Rightarrow>
          (let nxt = external_map parse_date now ds nds inputs
           in if areOperationMapsEqual (jm_get (externals s) nds) nxt then s
              else emit_change ds
                (s\<lparr>externals := (if nxt \<noteq> [] then jm_set nds nxt (externals s)
                                  else jm_delete nds (externals s))\<rparr>)))"

definition clearExternalProductOperations :: "js \<Rightarrow> op_state \<Rightarrow> op_state" where
  "clearExternalProductOperations ds s =
     (case normalizeDatasetName ds of
        None \<Rightarrow> s
      | Some nds \<Rightarrow>
          if jm_has (externals s) nds
          then emit_change ds (s\<lparr>externals := jm_delete nds (externals s)\<rparr>)
          else s)"

record op_view =
  op_running :: bool
  primary :: "operation option"
  operations :: "operation list"
  localOperations :: "operation list"
  externalOperations :: "operation list"
  op_disabledReason :: "string option"

definition getSortedOperations :: "operation list \<Rightarrow> operation list" where
  "getSortedOperations ps = sort_key startedAt ps"

definition getProductOperationState :: "js \<Rightarrow> op_state \<Rightarrow> op_view" where
  "getProductOperationState ds s =
     (let ps = (case normalizeDatasetName ds of
                  None \<Rightarrow> [] | Some nds \<Rightarrow> getSortedOperations (getAllOperationsForDataset s nds));
          first = (case ps of [] \<Rightarrow> None | p # _ \<Rightarrow> Some p)
      in \<lparr>op_running = (0 < length ps), primary = first, operations = ps,
          localOperations = filter (\<lambda>p. op_source p = LOCAL) ps,
          externalOperations = filter (\<lambda>p. op_source p \<noteq> LOCAL) ps,
          op_disabledReason = map_option (\<lambda>p. createDisabledReason p ps) first\<rparr>)"

definition isProductOperationRunning :: "js \<Rightarrow> op_state \<Rightarrow> bool" where
  "isProductOperationRunning ds s = op_running (getProductOperationState ds s)"

section \<open>Operation keys\<close>

text \<open>
  A key names its data set unambiguously although data set names and operation ids may hold a
  colon: the normalised name has no lower-case letter, the source name begins with one.
\<close>

lemma normalizeDatasetName_Some:
  "normalizeDatasetName v = Some n \<longleftrightarrow> n = upper_text v \<and> n \<noteq> []"
  by (auto simp: normalizeDatasetName_def Let_def)

lemma normalizeDatasetName_again:
  "normalizeDatasetName v = Some n \<Longrightarrow> normalizeDatasetName (Str n) = Some n"
  by (auto simp: normalizeDatasetName_def Let_def split: if_splits)

lemma normalizeOperationType_name: "normalizeOperationType (Str (type_name t)) = Some t"
  by (cases t) (simp_all add: normalizeOperationType_def all_operation_types_def text_eval)

lemma source_name_first: "\<exists>c r. source_name src = c # r \<and> is_lower c \<and> c \<noteq> CHR '':''"
  by (cases src) (auto simp: is_lower_def)

lemma split_at_lower:
  assumes eq: "xs @ CHR '':'' # c # r = ys @ CHR '':'' # d # q"
    and xs: "\<And>x. x \<in> set xs \<Longrightarrow> \<not> is_lower x" and ys: "\<And>y. y \<in> set ys \<Longrightarrow> \<not> is_lower y"
    and cd: "is_lower c" "is_lower d" "c \<noteq> CHR '':''" "d \<noteq> CHR '':''"
  shows "xs = ys"
  using eq
proof (elim append_eq_append_conv2 [THEN iffD1, elim_format] exE disjE conjE)
  fix us assume *: "xs = ys @ us" "us @ CHR '':'' # c # r = CHR '':'' # d # q"
  with cd xs show "xs = ys"
    by (cases us; cases "tl us") auto
next
  fix us assume *: "xs @ us = ys" "CHR '':'' # c # r = us @ CHR '':'' # d # q"
  with cd ys show "xs = ys"
    by (cases us; cases "tl us") auto
qed

lemma createOperationKey_inj:
  assumes "createOperationKey n t i src = createOperationKey n' t' i' src'"
    and "to_upper n = n" and "to_upper n' = n'"
  shows "n = n' \<and> t = t' \<and> i = i' \<and> src = src'"
proof -
  obtain c r where c: "source_name src = c # r" "is_lower c" "c \<noteq> CHR '':''"
    using source_name_first by blast
  obtain d q where d: "source_name src' = d # q" "is_lower d" "d \<noteq> CHR '':''"
    using source_name_first by blast
  have "n = n'"
  proof (rule split_at_lower)
    show "n @ CHR '':'' # c # r @ '':'' @ type_name t @ '':'' @ i =
          n' @ CHR '':'' # d # q @ '':'' @ type_name t' @ '':'' @ i'"
      using assms(1) c d by (simp add: createOperationKey_def)
  qed (use assms(2,3) c d not_lower_upper in metis)+
  with assms(1) show ?thesis
    by (cases src; cases src'; cases t; cases t') (simp_all add: createOperationKey_def)
qed

section \<open>The invariant of the registry\<close>

definition op_entry_ok :: "string \<Rightarrow> string \<times> operation \<Rightarrow> bool" where
  "op_entry_ok nds e =
     (case e of (k, p) \<Rightarrow>
        k = op_key p \<and> normalizedDatasetName p = nds \<and>
        k = createOperationKey nds (op_type p) (operationId p) (op_source p))"

definition op_map_ok :: "string \<times> op_map \<Rightarrow> bool" where
  "op_map_ok e =
     (case e of (nds, m) \<Rightarrow>
        m \<noteq> [] \<and> jm_ok m \<and> nds \<noteq> [] \<and> to_upper nds = nds \<and> list_all (op_entry_ok nds) m)"

definition op_ok :: "op_state \<Rightarrow> bool" where
  "op_ok s =
     (jm_ok (locals s) \<and> jm_ok (externals s) \<and>
      list_all op_map_ok (locals s) \<and> list_all op_map_ok (externals s) \<and>
      list_all (\<lambda>(nds, m). list_all (\<lambda>(k, p). op_source p = LOCAL) m) (locals s))"

definition running_list :: "op_state \<Rightarrow> operation list" where
  "running_list s = concat (map (jm_values \<circ> snd) (locals s))"

definition running_local :: "op_state \<Rightarrow> operation set" where
  "running_local s = set (running_list s)"

definition op_conflicts :: "operation \<Rightarrow> operation \<Rightarrow> bool" where
  "op_conflicts a b =
     (normalizedDatasetName a = normalizedDatasetName b \<and> op_type a \<noteq> op_type b)"

lemma running_local_iff:
  "p \<in> running_local s \<longleftrightarrow> (\<exists>nds m k. (nds, m) \<in> set (locals s) \<and> (k, p) \<in> set m)"
  by (force simp: running_local_def running_list_def)

lemma running_localI: "(nds, m) \<in> set (locals s) \<Longrightarrow> (k, p) \<in> set m \<Longrightarrow> p \<in> running_local s"
  by (auto simp: running_local_iff)

lemma running_localE:
  assumes "p \<in> running_local s"
  obtains nds m k where "(nds, m) \<in> set (locals s)" "(k, p) \<in> set m"
  using assms by (auto simp: running_local_iff)

lemma op_ok_local:
  assumes "op_ok s" and "(nds, m) \<in> set (locals s)" and "(k, p) \<in> set m"
  shows "k = op_key p" "normalizedDatasetName p = nds" "op_source p = LOCAL" "to_upper nds = nds"
    "op_key p = createOperationKey nds (op_type p) (operationId p) LOCAL"
    "jm_get (locals s) nds = Some m" "jm_get m k = Some p"
  using assms by (fastforce simp: op_ok_def op_map_ok_def op_entry_ok_def list_all_iff jm_get_mem)+

lemma ops_of_ok:
  assumes "jm_ok m" and "list_all op_map_ok m"
  shows "jm_ok (ops_of m nds)" "list_all (op_entry_ok nds) (ops_of m nds)"
  using list_all_jm_get [OF assms(2), of nds]
  by (auto simp: ops_of_def op_map_ok_def split: option.splits)

lemma op_ok_emit [simp]: "op_ok (emit_change ds s) = op_ok s"
  by (simp add: emit_change_def op_ok_def)

lemma running_local_emit [simp]: "running_local (emit_change ds s) = running_local s"
  by (simp add: emit_change_def running_local_def running_list_def)

lemma locals_emit [simp]: "locals (emit_change ds s) = locals s"
  and externals_emit [simp]: "externals (emit_change ds s) = externals s"
  by (simp_all add: emit_change_def)

definition all_local :: "op_map \<Rightarrow> bool" where
  "all_local m = list_all (\<lambda>(k, p). op_source p = LOCAL) m"

lemma op_ok_alt:
  "op_ok s \<longleftrightarrow> jm_ok (locals s) \<and> jm_ok (externals s) \<and> list_all op_map_ok (locals s) \<and>
     list_all op_map_ok (externals s) \<and> list_all (\<lambda>(nds, m). all_local m) (locals s)"
  by (simp add: op_ok_def all_local_def)

lemma all_local_ops_of: "op_ok s \<Longrightarrow> all_local (getLocalOperationsForDataset s nds)"
  using list_all_jm_get [of "\<lambda>(nds, m). all_local m" "locals s" nds]
  by (auto simp: ops_of_def op_ok_alt all_local_def split: option.splits)

lemma op_ok_begin:
  assumes "op_ok s"
  shows "op_ok (snd (beginProductOperation now ds ty label oid allow s))"
proof -
  have ok: "jm_ok (locals s)" "list_all op_map_ok (locals s)"
    using assms by (simp_all add: op_ok_alt)
  note ops = ops_of_ok [OF ok] all_local_ops_of [OF assms]
  show ?thesis
    using assms ops unfolding beginProductOperation_def
    by (auto simp: Let_def op_ok_alt op_map_ok_def op_entry_ok_def all_local_def
        normalizeDatasetName_Some intro!: list_all_jm_set split: option.splits)
qed

lemma find_with_key_Some:
  "find_with_key k m = Some (nds, ops, p) \<Longrightarrow> (nds, ops) \<in> set m \<and> jm_get ops k = Some p"
  by (induction m rule: find_with_key.induct) (auto split: option.splits)

lemma op_ok_end:
  assumes "op_ok s"
  shows "op_ok (endProductOperation key s)"
proof -
  have "op_ok (s\<lparr>locals := jm_delete nds (locals s)\<rparr>) \<and>
        (jm_delete k ops \<noteq> [] \<longrightarrow> op_ok (s\<lparr>locals := jm_set nds (jm_delete k ops) (locals s)\<rparr>))"
    if "(nds, ops) \<in> set (locals s)" for k nds ops
  proof -
    have "op_map_ok (nds, ops)" "all_local ops"
      using assms that by (auto simp: op_ok_alt list_all_iff)
    with assms show ?thesis
      by (auto simp: op_ok_alt op_map_ok_def all_local_def intro!: list_all_jm_set list_all_jm_delete)
  qed
  with assms show ?thesis
    by (auto simp: endProductOperation_def Let_def dest!: find_with_key_Some split: option.splits)
qed

lemma external_map_ok:
  assumes "normalizeDatasetName ds = Some nds" and "external_map pd now ds' nds inputs \<noteq> []"
  shows "op_map_ok (nds, external_map pd now ds' nds inputs)"
proof -
  have "op_entry_ok nds e" if "e \<in> set (external_map pd now ds' nds inputs)" for e
    using jm_of_mem [OF that [unfolded external_map_def]]
    by (auto simp: op_entry_ok_def normalizeExternalOperation_def Let_def map_filter_def
        split: option.splits)
  then show ?thesis
    using assms by (auto simp: op_map_ok_def list_all_iff normalizeDatasetName_Some external_map_def)
qed

lemma op_ok_replace:
  "op_ok s \<Longrightarrow> op_ok (replaceExternalProductOperations pd now ds inputs s)"
  using external_map_ok [of ds _ pd now ds inputs]
  by (auto simp: replaceExternalProductOperations_def Let_def op_ok_alt split: option.splits)

lemma op_ok_clear: "op_ok s \<Longrightarrow> op_ok (clearExternalProductOperations ds s)"
  by (auto simp: clearExternalProductOperations_def op_ok_alt split: option.splits)

section \<open>Beginning and ending an operation\<close>

lemma findBlockingOperation_None:
  "findBlockingOperation ps t allow = None \<longleftrightarrow> (\<forall>p \<in> set ps. allow \<and> op_type p = t)"
  by (induction ps t allow rule: findBlockingOperation.induct) auto

lemma findBlockingOperation_Some:
  "findBlockingOperation ps t allow = Some p \<Longrightarrow> p \<in> set ps \<and> \<not> (allow \<and> op_type p = t)"
  by (induction ps t allow rule: findBlockingOperation.induct) (auto split: if_splits)

lemma begin_refused_state:
  "beginProductOperation now ds ty label oid allow s = (res, s') \<Longrightarrow> \<not> started res \<Longrightarrow> s' = s"
  by (auto simp: beginProductOperation_def Let_def split: option.splits)

lemma begin_startedE:
  assumes "beginProductOperation now ds ty label oid allow s = (res, s')" and "started res"
  obtains nds t p where "normalizeDatasetName ds = Some nds" "normalizeOperationType ty = Some t"
    "\<forall>q \<in> set (getAllOperationsForDataset s nds). allow \<and> op_type q = t"
    "res_operation res = Some p" "res_key res = Some (op_key p)" "op_type p = t"
    "op_dataset p = ds" "normalizedDatasetName p = nds" "op_source p = LOCAL"
    "op_key p = createOperationKey nds t (operationId p) LOCAL"
    "jm_get (getLocalOperationsForDataset s nds) (op_key p) = None"
    "s' = emit_change ds (s\<lparr>locals := jm_set nds
            (jm_set (op_key p) p (getLocalOperationsForDataset s nds)) (locals s)\<rparr>)"
proof -
  from assms obtain nds t where nt: "normalizeDatasetName ds = Some nds"
      "normalizeOperationType ty = Some t"
    by (auto simp: beginProductOperation_def refused_def split: option.splits)
  let ?i = "case normalizeOperationId oid of Some i \<Rightarrow> i | None \<Rightarrow> type_name t"
  let ?p = "local_operation now ds nds t label ?i (createOperationKey nds t ?i LOCAL)"
  from assms nt have free: "findBlockingOperation (getAllOperationsForDataset s nds) t allow = None"
    and new: "jm_get (getLocalOperationsForDataset s nds) (createOperationKey nds t ?i LOCAL) = None"
    by (auto simp: beginProductOperation_def refused_def Let_def split: option.splits)
  from assms(1) nt free new have
    "res = \<lparr>started = True, res_key = Some (op_key ?p), res_operation = Some ?p, res_reason = None\<rparr>"
    "s' = emit_change ds (s\<lparr>locals := jm_set nds
            (jm_set (op_key ?p) ?p (getLocalOperationsForDataset s nds)) (locals s)\<rparr>)"
    by (simp_all add: beginProductOperation_def Let_def)
  with nt free new show ?thesis
    by (intro that [of nds t ?p]) (simp_all add: findBlockingOperation_None)
qed

lemma running_local_set:
  assumes "p \<in> running_local (s\<lparr>locals := jm_set nds m (locals s)\<rparr>)"
  shows "p \<in> set (jm_values m) \<or> p \<in> running_local s"
proof -
  from assms obtain n l k where "(n, l) \<in> set (jm_set nds m (locals s))" and kp: "(k, p) \<in> set l"
    by (auto elim: running_localE)
  from jm_set_mem [OF this(1)] show ?thesis
    using kp by (force intro: running_localI)
qed

lemma ops_of_running: "p \<in> set (jm_values (getLocalOperationsForDataset s nds)) \<Longrightarrow> p \<in> running_local s"
  by (cases "jm_get (locals s) nds")
    (auto simp: ops_of_def dest: map_of_SomeD intro: running_localI)

lemma running_ops_of:
  assumes "op_ok s" and "p \<in> running_local s"
  shows "p \<in> set (jm_values (getLocalOperationsForDataset s (normalizedDatasetName p)))"
proof (rule running_localE [OF assms(2)])
  fix nds m k assume *: "(nds, m) \<in> set (locals s)" "(k, p) \<in> set m"
  note op_ok_local [OF assms(1) *]
  with *(2) show ?thesis by (force simp: ops_of_def)
qed

lemma running_local_end: "running_local (endProductOperation key s) \<subseteq> running_local s"
proof
  fix p assume p: "p \<in> running_local (endProductOperation key s)"
  have "p \<in> running_local s"
    if "p \<in> running_local (s\<lparr>locals := jm_set nds (jm_delete k ops) (locals s)\<rparr>)"
      and "(nds, ops) \<in> set (locals s)" for k nds ops
    using running_local_set [OF that(1)] that(2) by (auto simp: jm_delete_mem intro: running_localI)
  moreover have "p \<in> running_local s"
    if "p \<in> running_local (s\<lparr>locals := jm_delete nds (locals s)\<rparr>)" for nds
    using that by (auto simp: jm_delete_mem elim!: running_localE intro: running_localI)
  ultimately show "p \<in> running_local s"
    using p by (auto simp: endProductOperation_def Let_def dest!: find_with_key_Some
        split: option.splits if_splits)
qed

type_synonym begin_request = "int \<times> js \<times> js \<times> js \<times> js \<times> bool"

definition begin_local :: "begin_request \<Rightarrow> op_state \<Rightarrow> operation option \<times> op_state" where
  "begin_local r s =
     (case r of (now, ds, ty, label, oid, allow) \<Rightarrow>
        (case beginProductOperation now ds ty label oid allow s of
           (res, s') \<Rightarrow> (if started res then res_operation res else None, s')))"

lemma begin_local_started:
  assumes "op_ok s" and "begin_local (now, ds, ty, label, oid, allow) s = (Some a, s')"
  shows "running_local s' \<subseteq> insert a (running_local s)"
    and "b \<in> running_local s \<Longrightarrow> normalizedDatasetName a = normalizedDatasetName b \<Longrightarrow>
           allow \<and> op_type a = op_type b"
proof -
  obtain res where res: "beginProductOperation now ds ty label oid allow s = (res, s')"
      "started res" "res_operation res = Some a"
    using assms(2) by (auto simp: begin_local_def split: prod.splits if_splits)
  show "running_local s' \<subseteq> insert a (running_local s)"
  proof (rule begin_startedE [OF res(1,2)], rule subsetI)
    fix nds t p q
    assume "res_operation res = Some p" "s' = emit_change ds (s\<lparr>locals := jm_set nds
            (jm_set (op_key p) p (getLocalOperationsForDataset s nds)) (locals s)\<rparr>)"
      and "q \<in> running_local s'"
    with res(3) have "q \<in> running_local (s\<lparr>locals := jm_set nds
            (jm_set (op_key a) a (getLocalOperationsForDataset s nds)) (locals s)\<rparr>)"
      by simp
    from running_local_set [OF this] show "q \<in> insert a (running_local s)"
    proof
      assume "q \<in> set (jm_values (jm_set (op_key a) a (getLocalOperationsForDataset s nds)))"
      with jm_values_set [OF this] ops_of_running [of q s nds] show ?thesis by blast
    qed simp
  qed
  show "allow \<and> op_type a = op_type b"
    if "b \<in> running_local s" "normalizedDatasetName a = normalizedDatasetName b"
  proof (rule begin_startedE [OF res(1,2)])
    fix nds t p
    assume "\<forall>q \<in> set (getAllOperationsForDataset s nds). allow \<and> op_type q = t"
      and "res_operation res = Some p" "op_type p = t" "normalizedDatasetName p = nds"
    moreover from this res(3) that running_ops_of [OF assms(1) that(1)]
    have "b \<in> set (getAllOperationsForDataset s nds)"
      by (simp add: getAllOperationsForDataset_def)
    ultimately show ?thesis using res(3) by simp
  qed
qed

lemma begin_local_refused:
  assumes "begin_local r s = (None, s')"
  shows "s' = s"
proof -
  obtain now ds ty label oid allow where r: "r = (now, ds, ty, label, oid, allow)"
    by (cases r)
  obtain res t where res: "beginProductOperation now ds ty label oid allow s = (res, t)"
    by fastforce
  with assms r have "t = s'" and "started res \<Longrightarrow> res_operation res = None"
    by (auto simp: begin_local_def split: if_splits)
  with begin_refused_state [OF res] begin_startedE [OF res] show ?thesis by fastforce
qed

lemma op_ok_begin_local: "op_ok s \<Longrightarrow> op_ok (snd (begin_local r s))"
  using op_ok_begin by (auto simp: begin_local_def split: prod.splits) (metis snd_conv)

interpretation ops: action_registry running_local op_conflicts begin_local endProductOperation op_ok
proof
  fix s s' :: op_state and a :: operation and r :: begin_request
  assume "op_ok s" and "begin_local r s = (Some a, s')"
  then show "running_local s' \<subseteq> insert a (running_local s) \<and>
      (\<forall>b \<in> running_local s. \<not> op_conflicts a b)"
    by (cases r) (auto simp: op_conflicts_def dest: begin_local_started(2) begin_local_started(1))
qed (use op_ok_begin_local op_ok_end running_local_end in
    \<open>auto simp: op_conflicts_def dest: begin_local_refused\<close>)

text \<open>The same registry when no caller asks for concurrent operations: one operation per data set.\<close>

definition same_dataset :: "operation \<Rightarrow> operation \<Rightarrow> bool" where
  "same_dataset a b = (normalizedDatasetName a = normalizedDatasetName b)"

definition begin_single :: "int \<times> js \<times> js \<times> js \<times> js \<Rightarrow> op_state \<Rightarrow> operation option \<times> op_state" where
  "begin_single r s = (case r of (now, ds, ty, label, oid) \<Rightarrow> begin_local (now, ds, ty, label, oid, False) s)"

interpretation single: action_registry running_local same_dataset begin_single endProductOperation op_ok
proof
  fix s s' :: op_state and a :: operation and r :: "int \<times> js \<times> js \<times> js \<times> js"
  assume "op_ok s" and "begin_single r s = (Some a, s')"
  then show "running_local s' \<subseteq> insert a (running_local s) \<and>
      (\<forall>b \<in> running_local s. \<not> same_dataset a b)"
    by (cases r) (auto simp: same_dataset_def begin_single_def
        dest: begin_local_started(2) begin_local_started(1))
next
  fix s s' r assume "begin_single r s = (None, s')"
  then show "running_local s' \<subseteq> running_local s"
    by (auto simp: begin_single_def dest: begin_local_refused split: prod.splits)
qed (use op_ok_begin_local op_ok_end running_local_end in
    \<open>auto simp: same_dataset_def begin_single_def split: prod.splits\<close>)

section \<open>Every history of the registry\<close>

inductive op_step :: "op_state \<Rightarrow> op_state \<Rightarrow> bool" where
  begin_op: "op_step s (snd (beginProductOperation now ds ty label oid allow s))"
| end_op: "op_step s (endProductOperation key s)"
| replace_external: "op_step s (replaceExternalProductOperations pd now ds inputs s)"
| clear_external: "op_step s (clearExternalProductOperations ds s)"

inductive op_reachable :: "op_state \<Rightarrow> bool" where
  initial: "op_reachable initial_op_state"
| step: "op_reachable s \<Longrightarrow> op_step s t \<Longrightarrow> op_reachable t"

inductive_simps op_step_iff: "op_step s t"

lemma running_local_externals [simp]:
  "running_local (replaceExternalProductOperations pd now ds inputs s) = running_local s"
  "running_local (clearExternalProductOperations ds s) = running_local s"
  by (auto simp: running_local_def running_list_def replaceExternalProductOperations_def
      clearExternalProductOperations_def Let_def split: option.splits)

lemma begin_local_state:
  "snd (begin_local (now, ds, ty, label, oid, allow) s) =
     snd (beginProductOperation now ds ty label oid allow s)"
  by (simp add: begin_local_def split: prod.splits)

lemma op_step_inv:
  assumes "op_step s t" and "op_ok s" and "ops.exclusive s"
  shows "op_ok t \<and> ops.exclusive t"
  using assms
proof (cases rule: op_step.cases)
  case (begin_op now ds ty label oid allow)
  with assms op_ok_begin ops.exclusive_begin [of s "(now, ds, ty, label, oid, allow)"] show ?thesis
    by (simp add: begin_local_state)
next
  case (end_op key)
  with assms op_ok_end ops.exclusive_step [of s "Inr key"] show ?thesis
    by (simp add: ops.step_def)
next
  case replace_external
  with assms op_ok_replace show ?thesis by (simp add: ops.exclusive_def)
next
  case clear_external
  with assms op_ok_clear show ?thesis by (simp add: ops.exclusive_def)
qed

lemma running_local_initial [simp]: "running_local initial_op_state = {}"
  by (simp add: running_local_def running_list_def initial_op_state_def)

lemma op_reachable_inv: "op_reachable s \<Longrightarrow> op_ok s \<and> ops.exclusive s"
proof (induction rule: op_reachable.induct)
  case initial
  show ?case
    using running_local_initial by (simp add: op_ok_def initial_op_state_def ops.exclusive_def)
next
  case (step s t)
  then show ?case using op_step_inv by blast
qed

text \<open>
  C1. In every reachable state of the registry, two local operations that run on the same data set
  have the same type: whatever the order of the begin, end, replace and clear calls, no freeze,
  send, export or rollback of a product ever runs beside another kind of local operation on it.
\<close>

theorem local_operations_exclusive:
  assumes "op_reachable s" and "a \<in> running_local s" and "b \<in> running_local s"
    and "normalizedDatasetName a = normalizedDatasetName b"
  shows "op_type a = op_type b"
  using op_reachable_inv [OF assms(1)] assms(2-4)
  by (auto simp: ops.exclusive_def op_conflicts_def)

definition two_exports :: op_state where
  "two_exports =
     snd (beginProductOperation 2 (Str ''dk1 '') (Str ''export'') Undef (Str ''S57'') True
       (snd (beginProductOperation 1 (Str ''DK1'') (Str ''Export'') Undef (Str ''S101'') True
         initial_op_state)))"

lemma two_exports_reachable: "op_reachable two_exports"
  unfolding two_exports_def
  by (intro op_reachable.step [OF _ begin_op] op_reachable.initial)

lemma two_exports_keys:
  "map op_key (running_list two_exports) = [''DK1:local:export:s101'', ''DK1:local:export:s57'']"
  "map normalizedDatasetName (running_list two_exports) = [''DK1'', ''DK1'']"
  by code_simp+

lemma two_exports_running:
  "running_list two_exports ! 0 \<in> running_local two_exports"
  "running_list two_exports ! 1 \<in> running_local two_exports"
  "normalizedDatasetName (running_list two_exports ! 0) =
   normalizedDatasetName (running_list two_exports ! 1)"
proof -
  have "length (running_list two_exports) = 2"
    using arg_cong [OF two_exports_keys(1), of length] by simp
  then show "running_list two_exports ! 0 \<in> running_local two_exports"
    "running_list two_exports ! 1 \<in> running_local two_exports"
    by (simp_all add: running_local_def)
  show "normalizedDatasetName (running_list two_exports ! 0) =
   normalizedDatasetName (running_list two_exports ! 1)"
    by code_simp
qed

theorem local_operations_exclusive_witness:
  "op_reachable two_exports \<and>
   op_key (running_list two_exports ! 0) \<noteq> op_key (running_list two_exports ! 1) \<and>
   op_type (running_list two_exports ! 0) = op_type (running_list two_exports ! 1)"
  using two_exports_keys(1) two_exports_reachable
    local_operations_exclusive [OF two_exports_reachable two_exports_running]
  by (auto simp: nth_Cons' dest: arg_cong [of _ _ "\<lambda>l. l ! 0"])

text \<open>
  When no caller of a sequence of begin and end calls asks for concurrent operations, at most
  one local operation runs on each data set after the calls, starting from the empty registry.
\<close>

theorem single_operation_per_dataset:
  assumes "a \<in> running_local (single.run cs initial_op_state)"
    and "b \<in> running_local (single.run cs initial_op_state)"
    and "normalizedDatasetName a = normalizedDatasetName b"
  shows "a = b"
  using single.exclusive_run [of initial_op_state cs] op_reachable_inv [OF op_reachable.initial]
    assms
  by (auto simp: single.exclusive_def same_dataset_def running_local_initial)

definition one_freeze :: "(int \<times> js \<times> js \<times> js \<times> js + string option) list" where
  "one_freeze = [Inl (1, Str ''DK1'', Str ''freeze'', Undef, Undef),
                 Inl (2, Str '' dk1'', Str ''send'', Undef, Undef)]"

lemma one_freeze_run:
  "single.run one_freeze initial_op_state =
     snd (beginProductOperation 2 (Str '' dk1'') (Str ''send'') Undef Undef False
       (snd (beginProductOperation 1 (Str ''DK1'') (Str ''freeze'') Undef Undef False
          initial_op_state)))"
  by (simp add: one_freeze_def single.step_def begin_single_def begin_local_state)

lemma one_freeze_running:
  "running_list (single.run one_freeze initial_op_state) \<noteq> []"
  unfolding one_freeze_run by code_simp

theorem single_operation_per_dataset_witness:
  "hd (running_list (single.run one_freeze initial_op_state)) =
   last (running_list (single.run one_freeze initial_op_state)) \<and>
   running_list (single.run one_freeze initial_op_state) \<noteq> []"
proof -
  have "normalizedDatasetName (hd (running_list (single.run one_freeze initial_op_state))) =
      normalizedDatasetName (last (running_list (single.run one_freeze initial_op_state)))"
    unfolding one_freeze_run by code_simp
  with one_freeze_running show ?thesis
    using single_operation_per_dataset
      [of "hd (running_list (single.run one_freeze initial_op_state))" one_freeze
        "last (running_list (single.run one_freeze initial_op_state))"]
    by (simp add: running_local_def)
qed

section \<open>Beginning, then ending\<close>

lemma find_with_key_unique:
  assumes "\<And>n l. (n, l) \<in> set m \<Longrightarrow> jm_get l k \<noteq> None \<Longrightarrow> n = nds"
    and "jm_get m nds = Some ops" and "jm_get ops k = Some p"
  shows "find_with_key k m = Some (nds, ops, p)"
  using assms
proof (induction m)
  case (Cons e m)
  obtain n l where e: "e = (n, l)" by (cases e)
  show ?case
  proof (cases "jm_get l k")
    case None
    with Cons.prems e have "n \<noteq> nds" by auto
    moreover have "find_with_key k m = Some (nds, ops, p)"
      using Cons.prems e \<open>n \<noteq> nds\<close> by (intro Cons.IH) auto
    ultimately show ?thesis using None e by simp
  next
    case (Some q)
    with Cons.prems(1) [of n l] e have "n = nds" by simp
    with Some Cons.prems(2,3) e show ?thesis by simp
  qed
qed simp

text \<open>
  C6. An operation that was begun is ended by the key the registry returned for it: ending it right
  away restores exactly the local operations there were before, those of other data sets and other
  operations of the same data set included.
\<close>

theorem begin_then_end:
  assumes "op_ok s" and "beginProductOperation now ds ty label oid allow s = (res, s')"
    and "started res"
  shows "locals (endProductOperation (res_key res) s') = locals s"
proof (rule begin_startedE [OF assms(2,3)])
  fix nds t and p :: operation
  let ?ops = "getLocalOperationsForDataset s nds" and ?k = "op_key p"
  assume n: "normalizeDatasetName ds = Some nds" and k: "res_key res = Some ?k"
    and key: "?k = createOperationKey nds t (operationId p) LOCAL"
    and new: "jm_get ?ops ?k = None"
    and s': "s' = emit_change ds (s\<lparr>locals := jm_set nds (jm_set ?k p ?ops) (locals s)\<rparr>)"
  have owner: "m = nds" if ml: "(m, l) \<in> set (locals s')" and lk: "jm_get l ?k \<noteq> None" for m l
  proof (rule ccontr)
    assume "m \<noteq> nds"
    with ml s' have "(m, l) \<in> set (locals s)" by (auto dest: jm_set_mem)
    moreover obtain q where "(?k, q) \<in> set l" using lk by (auto dest: map_of_SomeD)
    ultimately have "to_upper m = m" and
      "?k = createOperationKey m (op_type q) (operationId q) LOCAL"
      using op_ok_local [OF assms(1)] by metis+
    with key n \<open>m \<noteq> nds\<close> show False
      by (auto simp: normalizeDatasetName_Some dest: createOperationKey_inj)
  qed
  have "find_with_key ?k (locals s') = Some (nds, jm_set ?k p ?ops, p)"
    by (rule find_with_key_unique [OF owner]) (auto simp: s')
  moreover have "?k \<noteq> []" by (simp add: key createOperationKey_def)
  ultimately have "locals (endProductOperation (res_key res) s') =
      (if ?ops = [] then jm_delete nds (locals s') else jm_set nds ?ops (locals s'))"
    using k new by (simp add: endProductOperation_def Let_def)
  also have "\<dots> = locals s"
  proof (cases "jm_get (locals s) nds")
    case None
    then show ?thesis by (simp add: s' ops_of_def)
  next
    case (Some m)
    then have "m \<noteq> []"
      using assms(1) list_all_jm_get by (fastforce simp: op_ok_def op_map_ok_def)
    with Some show ?thesis by (simp add: s' ops_of_def)
  qed
  finally show ?thesis .
qed

theorem begin_then_end_witness:
  "locals (endProductOperation (Some ''DK2:local:send:job-1'')
     (snd (beginProductOperation 3 (Str ''DK2'') (Str ''send'') Undef (Str ''Job 1'') False
        two_exports))) = locals two_exports"
proof -
  have "started (fst (beginProductOperation 3 (Str ''DK2'') (Str ''send'') Undef (Str ''Job 1'')
          False two_exports))"
    and "res_key (fst (beginProductOperation 3 (Str ''DK2'') (Str ''send'') Undef (Str ''Job 1'')
          False two_exports)) = Some ''DK2:local:send:job-1''"
    by code_simp+
  with begin_then_end [OF op_reachable_inv [OF two_exports_reachable, THEN conjunct1]
      surjective_pairing this(1)]
  show ?thesis by simp
qed

section \<open>The snapshot of the external operations\<close>

lemma strict_eqD: "strict_eq a b \<Longrightarrow> a = b"
  by (cases "(a, b)" rule: strict_eq.cases) auto

text \<open>The comparison of two snapshots does not look at the time read off the clock.\<close>

definition undated :: "operation \<Rightarrow> operation" where
  "undated p = p\<lparr>startedAt := 0\<rparr>"

lemma areOperationsEqual_undated: "areOperationsEqual q (undated p) = areOperationsEqual q p"
  by (simp add: areOperationsEqual_def undated_def)

lemma normalizeExternalOperation_undated:
  "map_option undated (normalizeExternalOperation pd now ds nds x) =
   map_option undated (normalizeExternalOperation pd now' ds nds x)"
  by (simp add: normalizeExternalOperation_def undated_def Let_def split: option.split)

lemma map_filter_undated:
  "map undated (List.map_filter (normalizeExternalOperation pd now ds nds) xs) =
   map undated (List.map_filter (normalizeExternalOperation pd now' ds nds) xs)"
proof (induction xs)
  case (Cons x xs)
  with normalizeExternalOperation_undated [of pd now ds nds x now'] show ?case
    by (cases "normalizeExternalOperation pd now ds nds x";
        cases "normalizeExternalOperation pd now' ds nds x") (auto simp: map_filter_simps)
qed (simp add: map_filter_simps)

lemma external_map_undated:
  "jm_map undated (external_map pd now ds nds xs) = jm_map undated (external_map pd now' ds nds xs)"
proof -
  have "map (\<lambda>(k, p). (k, undated p)) (map (\<lambda>p. (op_key p, p)) ps) =
      map (\<lambda>p. (op_key p, p)) (map undated ps)" for ps
    by (simp add: undated_def)
  then show ?thesis
    by (simp only: external_map_def jm_map_of map_filter_undated [of pd now ds nds xs now'])
qed

lemma areOperationMapsEqual_undated:
  "areOperationMapsEqual cur (jm_map undated nxt) = areOperationMapsEqual cur nxt"
proof -
  have "list_all (\<lambda>(k, p). case jm_get c k of None \<Rightarrow> False | Some q \<Rightarrow> areOperationsEqual q p)
          (jm_map undated nxt) =
        list_all (\<lambda>(k, p). case jm_get c k of None \<Rightarrow> False | Some q \<Rightarrow> areOperationsEqual q p) nxt"
    for c :: op_map
    by (induction nxt) (auto simp: jm_map_def areOperationsEqual_undated split: option.split)
  then show ?thesis
    by (simp add: areOperationMapsEqual_def Let_def) (simp add: jm_map_def)
qed

definition comparable :: "operation \<Rightarrow> bool" where
  "comparable p = (strict_eq (op_dataset p) (op_dataset p) \<and> strict_eq (op_label p) (op_label p))"

lemma areOperationMapsEqual_refl:
  assumes "jm_ok m" and "list_all (\<lambda>(k, p). comparable p) m"
  shows "areOperationMapsEqual (Some m) m"
  using assms
  by (auto simp: areOperationMapsEqual_def areOperationsEqual_def comparable_def list_all_iff
      jm_get_mem [THEN iffD2])

lemma external_map_comparable:
  assumes "list_all (\<lambda>x. strict_eq (nullish (field x ''datasetName'') ds)
                            (nullish (field x ''datasetName'') ds)) inputs"
  shows "list_all (\<lambda>(k, p). comparable p) (external_map pd now ds nds inputs)"
proof -
  have "comparable p" if "(k, p) \<in> set (external_map pd now ds nds inputs)" for k p
    using jm_of_mem [OF that [unfolded external_map_def]] assms
    by (auto simp: normalizeExternalOperation_def comparable_def Let_def map_filter_def list_all_iff
        split: option.splits)
  then show ?thesis by (auto simp: list_all_iff)
qed

lemma jm_ok_external_map [simp]: "jm_ok (external_map pd now ds nds inputs)"
  by (simp add: external_map_def)

text \<open>
  Replacing the external operations of a data set is idempotent whenever the data set names in
  the snapshot are comparable (any text is): repeating the same snapshot, at any later time, changes
  nothing and emits no second change event. The local operations and the external operations of the
  other data sets are never touched.
\<close>

theorem replace_external_idempotent:
  assumes "list_all (\<lambda>x. strict_eq (nullish (field x ''datasetName'') ds)
                            (nullish (field x ''datasetName'') ds)) inputs"
    and "normalizeDatasetName ds \<noteq> Some other"
  shows "replaceExternalProductOperations pd now' ds inputs
           (replaceExternalProductOperations pd now ds inputs s) =
         replaceExternalProductOperations pd now ds inputs s \<and>
         locals (replaceExternalProductOperations pd now ds inputs s) = locals s \<and>
         jm_get (externals (replaceExternalProductOperations pd now ds inputs s)) other =
         jm_get (externals s) other"
proof (intro conjI)
  let ?s' = "replaceExternalProductOperations pd now ds inputs s"
  show "replaceExternalProductOperations pd now' ds inputs ?s' = ?s'"
  proof (cases "normalizeDatasetName ds")
    case None
    then show ?thesis by (simp add: replaceExternalProductOperations_def)
  next
    case (Some nds)
    let ?now = "external_map pd now ds nds inputs" and ?later = "external_map pd now' ds nds inputs"
    have "areOperationMapsEqual (jm_get (externals ?s') nds) ?now"
    proof (cases "areOperationMapsEqual (jm_get (externals s) nds) ?now")
      case True
      then show ?thesis by (simp add: replaceExternalProductOperations_def Some)
    next
      case False
      moreover have "areOperationMapsEqual None []" by (simp add: areOperationMapsEqual_def)
      ultimately show ?thesis
        using areOperationMapsEqual_refl [OF _ external_map_comparable [OF assms(1)]]
        by (auto simp: replaceExternalProductOperations_def Some Let_def)
    qed
    then have "areOperationMapsEqual (jm_get (externals ?s') nds) ?later"
      using external_map_undated areOperationMapsEqual_undated by metis
    then show ?thesis
      by (subst replaceExternalProductOperations_def) (simp add: Some)
  qed
qed (use assms(2) in \<open>auto simp: replaceExternalProductOperations_def Let_def split: option.splits\<close>)

definition backend_snapshot :: "js list" where
  "backend_snapshot =
     [Obj [(''id'', Str ''J7''), (''type'', Str ''export''), (''startedAt'', Str ''not a date''),
           (''datasetName'', Str ''DK1'')],
      Obj [(''id'', Str ''J8''), (''type'', Str ''sail'')]]"

theorem replace_external_idempotent_witness:
  "replaceExternalProductOperations (\<lambda>_. None) 9 (Str ''dk1'') backend_snapshot
     (replaceExternalProductOperations (\<lambda>_. None) 5 (Str ''dk1'') backend_snapshot two_exports) =
   replaceExternalProductOperations (\<lambda>_. None) 5 (Str ''dk1'') backend_snapshot two_exports"
proof -
  have "list_all (\<lambda>x. strict_eq (nullish (field x ''datasetName'') (Str ''dk1''))
                            (nullish (field x ''datasetName'') (Str ''dk1''))) backend_snapshot"
    and "normalizeDatasetName (Str ''dk1'') \<noteq> Some ''DK2''"
    by code_simp+
  from replace_external_idempotent [OF this, of "\<lambda>_. None" 9 5 two_exports] show ?thesis
    by simp
qed

section \<open>What a data set shows\<close>

lemma operation_view_fields:
  assumes "normalizeDatasetName ds = Some nds"
  shows "operations (getProductOperationState ds s) = sort_key startedAt (getAllOperationsForDataset s nds)"
    and "isProductOperationRunning ds s \<longleftrightarrow> getAllOperationsForDataset s nds \<noteq> []"
  using assms
  by (simp_all add: isProductOperationRunning_def getProductOperationState_def getSortedOperations_def
      Let_def)

lemma getAll_after_begin:
  assumes "jm_get (getLocalOperationsForDataset s nds) k = None"
  shows "getAllOperationsForDataset
           (emit_change ds (s\<lparr>locals := jm_set nds (jm_set k p (getLocalOperationsForDataset s nds))
              (locals s)\<rparr>)) nds = getAllOperationsForDataset s nds @ [p]"
  using assms by (simp add: getAllOperationsForDataset_def ops_of_def jm_set_fresh)

text \<open>
  C7. The view of a data set lists its external and local operations once each, oldest first, and
  says that an operation runs exactly when one does. While it says so, a begin call that does not
  ask for concurrency is refused and changes nothing; when nothing runs, a call with a data set and
  a known type starts, and the view then shows exactly the new operation.
\<close>

theorem operation_view_gates_begin:
  assumes "normalizeDatasetName ds = Some nds" and "normalizeOperationType ty = Some t"
    and "beginProductOperation now ds ty label oid False s = (res, s')"
  shows "mset (operations (getProductOperationState ds s)) = mset (getAllOperationsForDataset s nds) \<and>
         sorted (map startedAt (operations (getProductOperationState ds s))) \<and>
         (if isProductOperationRunning ds s then \<not> started res \<and> s' = s
          else started res \<and> (\<exists>p. res_operation res = Some p \<and> op_type p = t \<and>
                 operations (getProductOperationState ds s') = [p]))"
proof (intro conjI)
  let ?all = "getAllOperationsForDataset s nds"
  show "mset (operations (getProductOperationState ds s)) = mset ?all"
    and "sorted (map startedAt (operations (getProductOperationState ds s)))"
    by (simp_all add: operation_view_fields [OF assms(1)])
  show "if isProductOperationRunning ds s then \<not> started res \<and> s' = s
          else started res \<and> (\<exists>p. res_operation res = Some p \<and> op_type p = t \<and>
                 operations (getProductOperationState ds s') = [p])"
  proof (cases "?all = []")
    case False
    then obtain q where "findBlockingOperation ?all t False = Some q" by (cases ?all) auto
    with assms have "\<not> started res \<and> s' = s"
      by (auto simp: beginProductOperation_def refused_def)
    with False show ?thesis by (simp add: operation_view_fields [OF assms(1)])
  next
    case True
    then have "getLocalOperationsForDataset s nds = []"
      by (simp add: getAllOperationsForDataset_def)
    with True assms have st: "started res"
      by (auto simp: beginProductOperation_def Let_def)
    show ?thesis
    proof (rule begin_startedE [OF assms(3) st])
      fix n u p
      assume "normalizeDatasetName ds = Some n" "normalizeOperationType ty = Some u"
        "res_operation res = Some p" "op_type p = u"
        "jm_get (getLocalOperationsForDataset s n) (op_key p) = None"
        "s' = emit_change ds (s\<lparr>locals := jm_set n
            (jm_set (op_key p) p (getLocalOperationsForDataset s n)) (locals s)\<rparr>)"
      with assms(1,2) True st show ?thesis
        using getAll_after_begin [of s nds "op_key p" ds p]
        by (auto simp: operation_view_fields [OF assms(1)])
    qed
  qed
qed

theorem operation_view_gates_begin_witness:
  "\<not> started (fst (beginProductOperation 7 (Str ''dk1'') (Str ''freeze'') Undef Undef False two_exports)) \<and>
   isProductOperationRunning (Str ''dk1'') two_exports"
proof -
  have run: "isProductOperationRunning (Str ''dk1'') two_exports"
    and "normalizeDatasetName (Str ''dk1'') = Some ''DK1''"
    and "normalizeOperationType (Str ''freeze'') = Some FREEZE"
    by code_simp+
  from operation_view_gates_begin [OF this(2,3) surjective_pairing] run show ?thesis
    by metis
qed

end
