(* ===== verification/PopupExports.thy ===== *)
theory PopupExports
  imports JsText JsMaps ActionRegistry
begin

text \<open>
  \<open>features/map/popups/popupExportState.js\<close>: the export actions that run from a product popup. The
  module's map of running actions and the change events are the record \<open>popup_state\<close>. The argument
  object of each function is a \<open>js\<close> value whose fields are read as the source destructures them.
\<close>

section \<open>Actions\<close>

record product_ident =
  productIdentityKey :: string
  sourceId :: "string option"
  normalizedSourceId :: string
  productKey :: "string option"
  datasetName :: "string option"
  normalizedDatasetName :: string

record export_action = product_ident +
  ea_key :: string
  scope :: js
  normalizedScope :: string
  exportType :: js
  presentationLabel :: "string option"
  normalizedExportType :: string
  startedAt :: "int option"

record popup_event =
  ev_identity :: string
  ev_source :: "string option"
  ev_dataset :: "string option"

record popup_state =
  activeExportActions :: "(string, export_action) jmap"
  popup_events :: "popup_event list"

definition initial_popup_state :: popup_state where
  "initial_popup_state = \<lparr>activeExportActions = [], popup_events = []\<rparr>"

record popup_begin =
  pb_started :: bool
  pb_key :: "string option"
  pb_conflict :: "export_action option"
  pb_reason :: "string option"

record popup_view =
  pv_running :: bool
  pv_blocked :: bool
  pv_loading :: bool
  pv_disabledReason :: "string option"

definition ALL_EXPORT_SCOPE :: string where
  "ALL_EXPORT_SCOPE = ''all''"

section \<open>Normalisation and identity\<close>

definition normalizeText :: "js \<Rightarrow> string option" where
  "normalizeText v = opt_text v"

definition normalizeDatasetName_popup :: "js \<Rightarrow> string" where
  "normalizeDatasetName_popup v = upper_text v"

definition normalizeSourceId :: "js \<Rightarrow> string" where
  "normalizeSourceId v = lower_text v"

definition normalizeProductKey :: "js \<Rightarrow> string" where
  "normalizeProductKey v = upper_text v"

definition normalizeScope :: "js \<Rightarrow> string" where
  "normalizeScope v = lower_text v"

definition normalizeExportType :: "js \<Rightarrow> string" where
  "normalizeExportType v = lower_text v"

definition resolveProductIdentity :: "js \<Rightarrow> product_ident option" where
  "resolveProductIdentity input =
     (let ctx = field input ''productContext'';
          ident = field input ''productIdentity'';
          ds = normalizeText (nullish (field input ''datasetName'') (field ctx ''datasetName''));
          src = normalizeText (nullish (field input ''sourceId'')
                  (nullish (field ctx ''sourceId'') (field ident ''sourceId'')));
          pk = normalizeText (nullish (field input ''productKey'')
                  (nullish (field ctx ''productKey'') (field ident ''productKey'')));
          key = (case ds of
                   Some d \<Rightarrow> Some (''dataset:'' @ normalizeDatasetName_popup (Str d))
                 | None \<Rightarrow> (case (src, pk) of
                     (Some s, Some p) \<Rightarrow>
                       Some (''source:'' @ normalizeSourceId (Str s) @ '':'' @
                             normalizeProductKey (Str p))
                   | _ \<Rightarrow> None))
      in case key of
           None \<Rightarrow> None
         | Some k \<Rightarrow>
             Some \<lparr>productIdentityKey = k, sourceId = src,
                   normalizedSourceId = normalizeSourceId (of_opt src), productKey = pk,
                   datasetName = ds, normalizedDatasetName = normalizeDatasetName_popup (of_opt ds)\<rparr>)"

definition createExportAction :: "js \<Rightarrow> export_action option" where
  "createExportAction input =
     (let sc = field input ''scope''; ty = field input ''exportType'' in
      case resolveProductIdentity input of
        None \<Rightarrow> None
      | Some i \<Rightarrow>
          if \<not> truthy sc \<or> \<not> truthy ty then None
          else Some \<lparr>productIdentityKey = productIdentityKey i, sourceId = sourceId i,
                 normalizedSourceId = normalizedSourceId i, productKey = productKey i,
                 datasetName = datasetName i, normalizedDatasetName = normalizedDatasetName i,
                 ea_key = productIdentityKey i @ '':'' @ normalizeScope sc @ '':'' @
                          normalizeExportType ty,
                 scope = sc, normalizedScope = normalizeScope sc, exportType = ty,
                 presentationLabel = normalizeText (field input ''presentationLabel''),
                 normalizedExportType = normalizeExportType ty, startedAt = None\<rparr>)"

section \<open>Conflicts and messages\<close>

definition exportActionsOverlap :: "export_action \<Rightarrow> export_action \<Rightarrow> bool" where
  "exportActionsOverlap c r =
     (normalizedScope c = ALL_EXPORT_SCOPE \<or> normalizedScope r = ALL_EXPORT_SCOPE \<or>
      normalizedScope c = normalizedScope r)"

fun find_conflict :: "export_action list \<Rightarrow> export_action \<Rightarrow> export_action option" where
  "find_conflict [] a = None"
| "find_conflict (r # rs) a =
     (if productIdentityKey r \<noteq> productIdentityKey a then find_conflict rs a
      else if exportActionsOverlap a r then Some r
      else find_conflict rs a)"

definition getPopupExportConflict :: "popup_state \<Rightarrow> export_action \<Rightarrow> export_action option" where
  "getPopupExportConflict s a = find_conflict (jm_values (activeExportActions s)) a"

definition formatExportAction :: "export_action \<Rightarrow> string" where
  "formatExportAction a =
     js_str (nullish (of_opt (presentationLabel a)) (nullish (exportType a) (Str ''Export'')))"

definition formatProduct :: "export_action \<Rightarrow> string" where
  "formatProduct a =
     js_str (nullish (of_opt (datasetName a))
       (nullish (of_opt (productKey a)) (Str ''the selected Product'')))"

definition export_running_text :: "export_action \<Rightarrow> string" where
  "export_running_text a =
     formatExportAction a @ '' is already running for '' @ formatProduct a @ ''.''"

definition getExportConflictReason :: "export_action \<Rightarrow> export_action \<Rightarrow> string" where
  "getExportConflictReason a c =
     (if normalizedScope c = ALL_EXPORT_SCOPE then export_running_text c
      else if normalizedScope a = ALL_EXPORT_SCOPE
      then export_running_text c @ '' Wait until it finishes before exporting All.''
      else export_running_text c)"

definition emitPopupExportStateChanged :: "export_action \<Rightarrow> popup_state \<Rightarrow> popup_state" where
  "emitPopupExportStateChanged a s =
     s\<lparr>popup_events := popup_events s @
        [\<lparr>ev_identity = productIdentityKey a, ev_source = sourceId a,
          ev_dataset = datasetName a\<rparr>]\<rparr>"

section \<open>Operations\<close>

definition beginPopupExportAction :: "int \<Rightarrow> js \<Rightarrow> popup_state \<Rightarrow> popup_begin \<times> popup_state" where
  "beginPopupExportAction now input s =
     (case createExportAction input of
        None \<Rightarrow>
          (\<lparr>pb_started = False, pb_key = None, pb_conflict = None,
            pb_reason = Some ''Export action is missing required data.''\<rparr>, s)
      | Some a \<Rightarrow>
          (case getPopupExportConflict s a of
             Some c \<Rightarrow>
               (\<lparr>pb_started = False, pb_key = None, pb_conflict = Some c,
                 pb_reason = Some (getExportConflictReason a c)\<rparr>, s)
           | None \<Rightarrow>
               (\<lparr>pb_started = True, pb_key = Some (ea_key a), pb_conflict = None,
                 pb_reason = None\<rparr>,
                emitPopupExportStateChanged a
                  (s\<lparr>activeExportActions :=
                       jm_set (ea_key a) (a\<lparr>startedAt := Some now\<rparr>) (activeExportActions s)\<rparr>))))"

definition endPopupExportAction :: "string \<Rightarrow> popup_state \<Rightarrow> popup_state" where
  "endPopupExportAction key s =
     (case jm_get (activeExportActions s) key of
        None \<Rightarrow> s
      | Some a \<Rightarrow>
          emitPopupExportStateChanged a
            (s\<lparr>activeExportActions := jm_delete key (activeExportActions s)\<rparr>))"

definition createIdleExportState :: popup_view where
  "createIdleExportState =
     \<lparr>pv_running = False, pv_blocked = False, pv_loading = False, pv_disabledReason = None\<rparr>"

definition getPopupExportActionState :: "js \<Rightarrow> popup_state \<Rightarrow> popup_view" where
  "getPopupExportActionState input s =
     (case createExportAction input of
        None \<Rightarrow> createIdleExportState
      | Some a \<Rightarrow>
          (case jm_get (activeExportActions s) (ea_key a) of
             Some r \<Rightarrow>
               \<lparr>pv_running = True, pv_blocked = True, pv_loading = True,
                pv_disabledReason = Some (export_running_text r)\<rparr>
           | None \<Rightarrow>
               (case getPopupExportConflict s a of
                  Some c \<Rightarrow>
                    \<lparr>pv_running = False, pv_blocked = True, pv_loading = False,
                     pv_disabledReason = Some (getExportConflictReason a c)\<rparr>
                | None \<Rightarrow> createIdleExportState)))"

definition isAnyPopupExportActionRunning :: "js \<Rightarrow> popup_state \<Rightarrow> bool" where
  "isAnyPopupExportActionRunning v s =
     (case resolveProductIdentity
             (if is_string v then Obj [(''datasetName'', v)] else Obj [(''productContext'', v)]) of
        None \<Rightarrow> False
      | Some i \<Rightarrow>
          list_ex (\<lambda>a. productIdentityKey a = productIdentityKey i)
            (jm_values (activeExportActions s)))"

definition clear_matches :: "product_ident option \<Rightarrow> string \<Rightarrow> export_action \<Rightarrow> bool" where
  "clear_matches ident src a =
     (case ident of
        Some i \<Rightarrow> productIdentityKey a = productIdentityKey i
      | None \<Rightarrow> src \<noteq> [] \<and> normalizedSourceId a = src)"

fun clear_loop ::
    "(export_action \<Rightarrow> bool) \<Rightarrow> (string \<times> export_action) list \<Rightarrow> nat \<Rightarrow> popup_state \<Rightarrow>
       nat \<times> popup_state" where
  "clear_loop p [] removed s = (removed, s)"
| "clear_loop p ((k, a) # es) removed s =
     (if \<not> p a then clear_loop p es removed s
      else clear_loop p es (removed + 1)
             (emitPopupExportStateChanged a
                (s\<lparr>activeExportActions := jm_delete k (activeExportActions s)\<rparr>)))"

definition clearPopupExportUiState :: "js \<Rightarrow> popup_state \<Rightarrow> nat \<times> popup_state" where
  "clearPopupExportUiState input s =
     (let ident = resolveProductIdentity input;
          src = normalizeSourceId (nullish (field input ''sourceId'')
                  (field (field input ''productContext'') ''sourceId''))
      in clear_loop (clear_matches ident src) (activeExportActions s) 0 s)"

section \<open>The registry contract\<close>

definition running_actions :: "popup_state \<Rightarrow> export_action set" where
  "running_actions s = set (jm_values (activeExportActions s))"

definition action_conflicts :: "export_action \<Rightarrow> export_action \<Rightarrow> bool" where
  "action_conflicts a b =
     (productIdentityKey a = productIdentityKey b \<and> exportActionsOverlap a b)"

definition key_form :: "export_action \<Rightarrow> bool" where
  "key_form a =
     (ea_key a = productIdentityKey a @ '':'' @ normalizedScope a @ '':'' @ normalizedExportType a)"

definition popup_ok :: "popup_state \<Rightarrow> bool" where
  "popup_ok s =
     (jm_ok (activeExportActions s) \<and>
      list_all (\<lambda>(k, a). k = ea_key a \<and> key_form a) (activeExportActions s))"

lemma popup_emit [simp]:
  "activeExportActions (emitPopupExportStateChanged a s) = activeExportActions s"
  "running_actions (emitPopupExportStateChanged a s) = running_actions s"
  "popup_ok (emitPopupExportStateChanged a s) = popup_ok s"
  by (simp_all add: emitPopupExportStateChanged_def running_actions_def popup_ok_def)

lemma find_conflict_None:
  "find_conflict rs a = None \<longleftrightarrow> (\<forall>r \<in> set rs. \<not> action_conflicts a r)"
  by (induction rs a rule: find_conflict.induct) (auto simp: action_conflicts_def)

lemma find_conflict_Some:
  "find_conflict rs a = Some r \<Longrightarrow> r \<in> set rs \<and> action_conflicts a r"
  by (induction rs a rule: find_conflict.induct) (auto simp: action_conflicts_def split: if_splits)

lemma action_conflicts_sym: "action_conflicts a b \<Longrightarrow> action_conflicts b a"
  by (auto simp: action_conflicts_def exportActionsOverlap_def)

lemma action_conflicts_startedAt [simp]:
  "action_conflicts (a\<lparr>startedAt := t\<rparr>) b = action_conflicts a b"
  "action_conflicts b (a\<lparr>startedAt := t\<rparr>) = action_conflicts b a"
  by (simp_all add: action_conflicts_def exportActionsOverlap_def)

definition begin_popup :: "int \<times> js \<Rightarrow> popup_state \<Rightarrow> export_action option \<times> popup_state" where
  "begin_popup r s =
     (case beginPopupExportAction (fst r) (snd r) s of (res, s') \<Rightarrow>
        (if pb_started res
         then map_option (\<lambda>a. a\<lparr>startedAt := Some (fst r)\<rparr>) (createExportAction (snd r))
         else None, s'))"

lemma begin_popup_cases:
  assumes "begin_popup r s = (res, s')"
  shows "res = None \<and> s' = s \<or>
    (\<exists>a. createExportAction (snd r) = Some a \<and> res = Some (a\<lparr>startedAt := Some (fst r)\<rparr>) \<and>
         getPopupExportConflict s a = None \<and>
         s' = emitPopupExportStateChanged a (s\<lparr>activeExportActions :=
                jm_set (ea_key a) (a\<lparr>startedAt := Some (fst r)\<rparr>) (activeExportActions s)\<rparr>))"
  using assms by (auto simp: begin_popup_def beginPopupExportAction_def split: option.splits)

lemma key_form_created: "createExportAction input = Some a \<Longrightarrow> key_form a"
  by (auto simp: createExportAction_def key_form_def Let_def split: option.splits if_splits)

lemma key_form_startedAt [simp]: "key_form (a\<lparr>startedAt := t\<rparr>) = key_form a"
  by (simp add: key_form_def)

interpretation popups: action_registry running_actions action_conflicts begin_popup
    endPopupExportAction popup_ok
proof
  fix r s s' a
  assume ok: "popup_ok s"
  show "running_actions (endPopupExportAction k s) \<subseteq> running_actions s" for k
    by (auto simp: endPopupExportAction_def running_actions_def jm_delete_mem split: option.split)
  show "popup_ok (snd (begin_popup r s))"
    using ok begin_popup_cases [of r s] by (cases "begin_popup r s") (force simp: popup_ok_def dest: key_form_created)
  show "popup_ok (endPopupExportAction k s)" for k
    using ok by (auto simp: endPopupExportAction_def popup_ok_def split: option.split)
  show "begin_popup r s = (None, s') \<Longrightarrow> running_actions s' \<subseteq> running_actions s"
    using begin_popup_cases [of r s None s'] by auto
  assume "begin_popup r s = (Some a, s')"
  from begin_popup_cases [OF this]
  show "running_actions s' \<subseteq> insert a (running_actions s) \<and>
        (\<forall>b \<in> running_actions s. \<not> action_conflicts a b)"
    by (auto simp: getPopupExportConflict_def find_conflict_None running_actions_def
        dest!: jm_set_mem intro: rev_image_eqI)
qed (fact action_conflicts_sym)

text \<open>Every way the registry changes, in any order.\<close>

inductive popup_step :: "popup_state \<Rightarrow> popup_state \<Rightarrow> bool" where
  step_begin: "popup_step s (snd (beginPopupExportAction now input s))"
| step_end: "popup_step s (endPopupExportAction key s)"
| step_clear: "popup_step s (snd (clearPopupExportUiState input s))"

inductive popup_reachable :: "popup_state \<Rightarrow> bool" where
  reach_init: "popup_reachable initial_popup_state"
| reach_step: "popup_reachable s \<Longrightarrow> popup_step s s' \<Longrightarrow> popup_reachable s'"

section \<open>Clearing\<close>

lemma clear_loop_spec:
  assumes "jm_ok (pre @ es)" and "activeExportActions s = pre @ es"
  shows "fst (clear_loop p es n s) = n + length (filter (\<lambda>(k, a). p a) es) \<and>
         activeExportActions (snd (clear_loop p es n s)) = pre @ filter (\<lambda>(k, a). \<not> p a) es"
  using assms
proof (induction p es n s arbitrary: pre rule: clear_loop.induct)
  case (2 p k a es n s)
  show ?case
  proof (cases "p a")
    case False
    with 2(1) [of "pre @ [(k, a)]"] 2(3,4) show ?thesis by simp
  next
    case True
    have fresh: "jm_get pre k = None" "jm_get es k = None"
      using 2(3) by (auto simp: jm_ok_def map_of_eq_None_iff)
    then have "jm_delete k (pre @ (k, a) # es) = pre @ es"
      by (simp add: jm_delete_append jm_delete_fresh)
    moreover have "jm_ok (pre @ es)" using 2(3) by (auto simp: jm_ok_def)
    ultimately show ?thesis using 2(2) [of pre] 2(4) True by simp
  qed
qed simp

lemma clear_spec:
  assumes "popup_ok s"
  shows "\<exists>p. p = clear_matches (resolveProductIdentity input)
               (normalizeSourceId (nullish (field input ''sourceId'')
                  (field (field input ''productContext'') ''sourceId''))) \<and>
             fst (clearPopupExportUiState input s) =
               length (filter (\<lambda>(k, a). p a) (activeExportActions s)) \<and>
             activeExportActions (snd (clearPopupExportUiState input s)) =
               filter (\<lambda>(k, a). \<not> p a) (activeExportActions s)"
  using clear_loop_spec [of "[]" "activeExportActions s" s _ 0] assms
  by (simp add: clearPopupExportUiState_def popup_ok_def Let_def)

lemma clear_ok:
  assumes "popup_ok s"
  shows "popup_ok (snd (clearPopupExportUiState input s)) \<and>
         running_actions (snd (clearPopupExportUiState input s)) \<subseteq> running_actions s"
  using clear_spec [OF assms, of input] assms jm_ok_filter
  by (auto simp: popup_ok_def running_actions_def list_all_iff)

lemma popup_step_begin_eq:
  "popups.step (Inl (now, input)) s = snd (beginPopupExportAction now input s)"
  by (simp add: popups.step_def begin_popup_def split: prod.split)

lemma popup_step_inv:
  assumes "popup_step s s'" and "popup_ok s" and "popups.exclusive s"
  shows "popup_ok s' \<and> popups.exclusive s'"
  using assms
proof (cases rule: popup_step.cases)
  case (step_begin now input)
  with popups.ok_step [of s "Inl (now, input)"] popups.exclusive_step [of s "Inl (now, input)"]
  show ?thesis using assms by (simp add: popup_step_begin_eq)
next
  case (step_end key)
  with popups.ok_step [of s "Inr key"] popups.exclusive_step [of s "Inr key"]
  show ?thesis using assms by (simp add: popups.step_def)
next
  case (step_clear input)
  with clear_ok [OF assms(2), of input] assms(3) show ?thesis
    by (auto simp: popups.exclusive_def)
qed

lemma popup_reachable_inv: "popup_reachable s \<Longrightarrow> popup_ok s \<and> popups.exclusive s"
proof (induction rule: popup_reachable.induct)
  case reach_init
  have "running_actions initial_popup_state = {}"
    by (simp add: running_actions_def initial_popup_state_def)
  then show ?case by (simp add: popup_ok_def popups.exclusive_def initial_popup_state_def)
next
  case (reach_step s s')
  then show ?case by (simp add: popup_step_inv)
qed

section \<open>Properties\<close>

text \<open>Two running exports, begun from the initial state, for the examples below.\<close>

definition export_input :: "string \<Rightarrow> string \<Rightarrow> js" where
  "export_input sc ty =
     Obj [(''datasetName'', Str ''101DK00''), (''scope'', Str sc), (''exportType'', Str ty)]"

definition two_scopes :: popup_state where
  "two_scopes =
     snd (beginPopupExportAction 2 (export_input ''Report'' ''pdf'')
       (snd (beginPopupExportAction 1 (export_input ''Package'' ''zip'') initial_popup_state)))"

lemma two_scopes_reachable: "popup_reachable two_scopes"
  unfolding two_scopes_def by (intro reach_step [OF _ step_begin] reach_init)

text \<open>
  C8. Whatever exports are begun, ended and cleared, in any order: two running exports of one product
  have different scopes, and neither exports all; every action runs under its own key.
\<close>

theorem popup_exports_exclusive:
  assumes "popup_reachable s"
    and "(k, a) \<in> set (activeExportActions s)" and "(l, b) \<in> set (activeExportActions s)"
    and "k \<noteq> l" and "productIdentityKey a = productIdentityKey b"
  shows "k = ea_key a \<and> normalizedScope a \<noteq> ALL_EXPORT_SCOPE \<and>
         normalizedScope b \<noteq> ALL_EXPORT_SCOPE \<and> normalizedScope a \<noteq> normalizedScope b"
proof -
  from popup_reachable_inv [OF assms(1)] have ok: "popup_ok s" and ex: "popups.exclusive s"
    by simp_all
  from ok assms(2,3) have "k = ea_key a" "l = ea_key b"
    by (auto simp: popup_ok_def list_all_iff)
  moreover from this assms(4) have "a \<noteq> b" by auto
  moreover from assms(2,3) have "a \<in> running_actions s" "b \<in> running_actions s"
    by (force simp: running_actions_def)+
  ultimately show ?thesis
    using ex assms(5) by (auto simp: popups.exclusive_def action_conflicts_def exportActionsOverlap_def)
qed

theorem popup_exports_exclusive_witness:
  "normalizedScope (snd (activeExportActions two_scopes ! 0)) \<noteq>
   normalizedScope (snd (activeExportActions two_scopes ! 1))"
proof -
  let ?m = "activeExportActions two_scopes"
  have *: "(fst (?m ! 0), snd (?m ! 0)) \<in> set ?m" "(fst (?m ! 1), snd (?m ! 1)) \<in> set ?m"
      "fst (?m ! 0) \<noteq> fst (?m ! 1)"
      "productIdentityKey (snd (?m ! 0)) = productIdentityKey (snd (?m ! 1))"
    by code_simp+
  from popup_exports_exclusive [OF two_scopes_reachable *] show ?thesis by simp
qed

text \<open>A scope and a type without a colon can be read off the key.\<close>

definition plain_action :: "export_action \<Rightarrow> bool" where
  "plain_action a =
     (CHR '':'' \<notin> set (normalizedScope a) \<and> CHR '':'' \<notin> set (normalizedExportType a))"

lemma first_colon:
  "xs @ CHR '':'' # ys = us @ CHR '':'' # vs \<Longrightarrow> CHR '':'' \<notin> set xs \<Longrightarrow> CHR '':'' \<notin> set us \<Longrightarrow>
   xs = us \<and> ys = vs"
  by (induction xs arbitrary: us) (case_tac us; auto)+

lemma split_last_colon:
  assumes "xs @ CHR '':'' # ys = us @ CHR '':'' # vs"
    and "CHR '':'' \<notin> set ys" and "CHR '':'' \<notin> set vs"
  shows "xs = us \<and> ys = vs"
proof -
  have "rev ys @ CHR '':'' # rev xs = rev (xs @ CHR '':'' # ys)" by simp
  also have "\<dots> = rev (us @ CHR '':'' # vs)" by (simp only: assms(1))
  also have "\<dots> = rev vs @ CHR '':'' # rev us" by simp
  finally have "rev ys @ CHR '':'' # rev xs = rev vs @ CHR '':'' # rev us" .
  moreover have "CHR '':'' \<notin> set (rev ys)" "CHR '':'' \<notin> set (rev vs)"
    using assms(2,3) by simp_all
  ultimately have "rev ys = rev vs \<and> rev xs = rev us"
    by (blast dest: first_colon)
  then show ?thesis by simp
qed

lemma key_form_inj:
  assumes "key_form a" "key_form b" "plain_action a" "plain_action b" "ea_key a = ea_key b"
  shows "productIdentityKey a = productIdentityKey b \<and> normalizedScope a = normalizedScope b"
proof -
  have "(productIdentityKey a @ CHR '':'' # normalizedScope a) @ CHR '':'' # normalizedExportType a =
      (productIdentityKey b @ CHR '':'' # normalizedScope b) @ CHR '':'' # normalizedExportType b"
    using assms by (simp add: key_form_def)
  with assms(3,4) have "productIdentityKey a @ CHR '':'' # normalizedScope a =
      productIdentityKey b @ CHR '':'' # normalizedScope b"
    by (metis split_last_colon plain_action_def)
  with assms(3,4) show ?thesis
    by (metis split_last_colon plain_action_def)
qed

lemma running_key_conflicts:
  assumes "popup_ok s" and "list_all plain_action (jm_values (activeExportActions s))"
    and "createExportAction input = Some a" and "plain_action a"
    and "getPopupExportConflict s a = None"
  shows "jm_get (activeExportActions s) (ea_key a) = None"
proof (rule ccontr)
  assume "jm_get (activeExportActions s) (ea_key a) \<noteq> None"
  then obtain r where r: "(ea_key a, r) \<in> set (activeExportActions s)"
    by (auto dest: map_of_SomeD)
  with assms(1,2) have "ea_key a = ea_key r" "key_form r" "plain_action r"
    by (auto simp: popup_ok_def list_all_iff)
  with key_form_inj [OF key_form_created [OF assms(3)]] assms(4) have "action_conflicts a r"
    by (simp add: action_conflicts_def exportActionsOverlap_def)
  with r assms(5) show False
    by (force simp: getPopupExportConflict_def find_conflict_None)
qed



text \<open>
  C10. Clearing removes the exports of the product it names, or, without a product, those of the data
  source it names, and no other; it returns how many it removed. After clearing a data set none of
  its exports is reported as running.
\<close>

theorem popup_clear_exact:
  assumes "popup_reachable s" and "clearPopupExportUiState input s = (n, s')"
  shows "n + length (activeExportActions s') = length (activeExportActions s) \<and>
         activeExportActions s' =
           filter (\<lambda>(k, a). case resolveProductIdentity input of
               Some i \<Rightarrow> productIdentityKey a \<noteq> productIdentityKey i
             | None \<Rightarrow> \<not> (lower_text (nullish (field input ''sourceId'')
                   (field (field input ''productContext'') ''sourceId'')) \<noteq> [] \<and>
                 normalizedSourceId a = lower_text (nullish (field input ''sourceId'')
                   (field (field input ''productContext'') ''sourceId''))))
             (activeExportActions s) \<and>
         \<not> isAnyPopupExportActionRunning (Str ds)
             (snd (clearPopupExportUiState (Obj [(''datasetName'', Str ds)]) s))"
proof (intro conjI)
  have ok: "popup_ok s" using popup_reachable_inv [OF assms(1)] by simp
  note spec = clear_spec [OF ok]
  have "length (filter (\<lambda>(k, a). p a) m) + length (filter (\<lambda>(k, a). \<not> p a) m) = length m"
    for p and m :: "(string, export_action) jmap"
    by (induction m) auto
  with spec [of input] assms(2)
  show "n + length (activeExportActions s') = length (activeExportActions s)"
    by (metis fst_conv snd_conv)
  show "activeExportActions s' =
           filter (\<lambda>(k, a). case resolveProductIdentity input of
               Some i \<Rightarrow> productIdentityKey a \<noteq> productIdentityKey i
             | None \<Rightarrow> \<not> (lower_text (nullish (field input ''sourceId'')
                   (field (field input ''productContext'') ''sourceId'')) \<noteq> [] \<and>
                 normalizedSourceId a = lower_text (nullish (field input ''sourceId'')
                   (field (field input ''productContext'') ''sourceId''))))
             (activeExportActions s)"
    using spec [of input] assms(2)
    by (auto simp: clear_matches_def normalizeSourceId_def split: option.splits
        intro!: filter_cong)
  show "\<not> isAnyPopupExportActionRunning (Str ds)
             (snd (clearPopupExportUiState (Obj [(''datasetName'', Str ds)]) s))"
    using spec [of "Obj [(''datasetName'', Str ds)]"]
    by (auto simp: isAnyPopupExportActionRunning_def clear_matches_def list_ex_iff
        split: option.split)
qed

theorem popup_clear_exact_witness:
  "fst (clearPopupExportUiState (Obj [(''datasetName'', Str '' 101dk00 '')]) two_scopes) = 2 \<and>
   activeExportActions (snd (clearPopupExportUiState (Obj [(''datasetName'', Str '' 101dk00 '')])
     two_scopes)) = []"
proof -
  have "length (activeExportActions two_scopes) = 2"
    and "fst (clearPopupExportUiState (Obj [(''datasetName'', Str '' 101dk00 '')]) two_scopes) = 2"
    by code_simp+
  with popup_clear_exact [OF two_scopes_reachable surjective_pairing,
      of "Obj [(''datasetName'', Str '' 101dk00 '')]"]
  show ?thesis by simp
qed

end
