(* ===== verification/LayerDefinitions.thy ===== *)
theory LayerDefinitions
  imports JsText JsMaps
begin

text \<open>
  \<open>features/map/config/layerDefinitions.js\<close>: the map layers of the application, how a graphic or a
  layer names the one it belongs to, and the capabilities that follow. Development warnings on the
  console have no counterpart in the model.
\<close>

definition PRODUCT_CORRECTIONS_LAYER_ID :: string where
  "PRODUCT_CORRECTIONS_LAYER_ID = ''aoi''"

definition PRODUCT_CORRECTIONS :: string where
  "PRODUCT_CORRECTIONS = ''product-corrections''"

definition DEFAULT_LAYER_CAPABILITIES :: js where
  "DEFAULT_LAYER_CAPABILITIES =
     Obj [(''supportsPopup'', JBool False), (''supportsPopupActions'', JBool False),
          (''supportsProductActions'', JBool False), (''supportsDisplayScale'', JBool False),
          (''supportsAttributeFilters'', JBool False), (''supportsProductHistory'', JBool False),
          (''supportsOverlapPicker'', JBool False), (''supportsProductSearch'', JBool False)]"

definition KNOWN_LAYER_CAPABILITIES :: "string list" where
  "KNOWN_LAYER_CAPABILITIES = map fst (own_entries DEFAULT_LAYER_CAPABILITIES)"

definition all_true :: "string list \<Rightarrow> js" where
  "all_true names = Obj (map (\<lambda>n. (n, JBool True)) names)"

record layer_definition =
  ld_id :: string
  ld_kind :: string
  ld_displayName :: string
  ld_capabilities :: js

definition layerDefinitions :: "layer_definition list" where
  "layerDefinitions =
     [\<lparr>ld_id = PRODUCT_CORRECTIONS_LAYER_ID, ld_kind = PRODUCT_CORRECTIONS,
       ld_displayName = ''Product corrections'',
       ld_capabilities = spread DEFAULT_LAYER_CAPABILITIES (all_true
         [''supportsPopup'', ''supportsPopupActions'', ''supportsProductActions'',
          ''supportsDisplayScale'', ''supportsAttributeFilters'', ''supportsProductHistory'',
          ''supportsOverlapPicker'', ''supportsProductSearch''])\<rparr>,
      \<lparr>ld_id = ''paper-charts-products'', ld_kind = ''paper-chart-products'',
       ld_displayName = ''Paper Charts'',
       ld_capabilities = spread DEFAULT_LAYER_CAPABILITIES (all_true
         [''supportsPopup'', ''supportsPopupActions'', ''supportsAttributeFilters'',
          ''supportsOverlapPicker'', ''supportsProductSearch''])\<rparr>,
      \<lparr>ld_id = ''s102-products'', ld_kind = ''s102-products'', ld_displayName = ''S-102'',
       ld_capabilities = spread DEFAULT_LAYER_CAPABILITIES (all_true
         [''supportsPopup'', ''supportsPopupActions'', ''supportsAttributeFilters'',
          ''supportsOverlapPicker'', ''supportsProductSearch''])\<rparr>]"

definition normalizeLayerId :: "js \<Rightarrow> string option" where
  "normalizeLayerId v = opt_text v"

definition getLayerDefinition :: "js \<Rightarrow> layer_definition option" where
  "getLayerDefinition layerId =
     (case normalizeLayerId layerId of
        None \<Rightarrow> None
      | Some i \<Rightarrow> List.find (\<lambda>d. ld_id d = i) layerDefinitions)"

text \<open>\<open>a ?? b ?? c\<close> over the values of several reads.\<close>

fun first_defined :: "js list \<Rightarrow> js" where
  "first_defined [] = Undef"
| "first_defined (v # vs) = (if is_nullish v then first_defined vs else v)"

definition resolveLayerId :: "js \<Rightarrow> string option" where
  "resolveLayerId source =
     (if is_string source then normalizeLayerId source
      else normalizeLayerId (first_defined
        [field source ''appLayerId'', field source ''customId'', field source ''layerId'',
         field source ''id'', field (field source ''attributes'') ''layerId'',
         field (field source ''layer'') ''appLayerId'',
         field (field source ''layer'') ''customId'']))"

definition kind_of :: "layer_definition option \<Rightarrow> js" where
  "kind_of d = (case d of None \<Rightarrow> Null | Some d \<Rightarrow> Str (ld_kind d))"

definition resolveLayerKind :: "js \<Rightarrow> js" where
  "resolveLayerKind source =
     (if is_string source then kind_of (getLayerDefinition source)
      else nullish (field source ''appLayerKind'') (nullish (field source ''layerKind'')
        (nullish (field (field source ''attributes'') ''layerKind'')
          (kind_of (getLayerDefinition (of_opt (resolveLayerId source)))))))"

definition looksLikeProductCorrectionAttributes :: "js \<Rightarrow> bool" where
  "looksLikeProductCorrectionAttributes source =
     (is_object source \<and> \<not> truthy (field source ''sourceId'') \<and>
      truthy (first_defined
        [field source ''datasetName'', field source ''DatasetName'', field source ''datasetname'',
         field source ''edition'', field source ''Edition'', field source ''update'',
         field source ''Update'']))"

definition getFallbackDefinitionForAttributes :: "js \<Rightarrow> layer_definition option" where
  "getFallbackDefinitionForAttributes source =
     (if \<not> looksLikeProductCorrectionAttributes source then None
      else getLayerDefinition (Str PRODUCT_CORRECTIONS_LAYER_ID))"

definition resolveLayerCapabilities :: "js \<Rightarrow> js" where
  "resolveLayerCapabilities source =
     (let definition_of = (case getLayerDefinition (of_opt (resolveLayerId source)) of
                             Some d \<Rightarrow> Some d
                           | None \<Rightarrow> getFallbackDefinitionForAttributes source);
          base = (case definition_of of None \<Rightarrow> Obj [] | Some d \<Rightarrow> ld_capabilities d);
          layer = field source ''layer''
      in spread (spread (spread DEFAULT_LAYER_CAPABILITIES base)
           (nullish (field layer ''appLayerCapabilities'')
             (nullish (field layer ''capabilities'') (Obj []))))
           (nullish (field source ''appLayerCapabilities'')
             (nullish (field source ''capabilities'') (Obj []))))"

definition layerSupportsCapability :: "js \<Rightarrow> string \<Rightarrow> bool" where
  "layerSupportsCapability source name =
     (name \<in> set KNOWN_LAYER_CAPABILITIES \<and> truthy (field (resolveLayerCapabilities source) name))"

definition attributesSupportLayerCapability :: "js \<Rightarrow> string \<Rightarrow> bool" where
  "attributesSupportLayerCapability attributes name = layerSupportsCapability attributes name"

section \<open>Laws\<close>

lemma getLayerDefinition_id:
  "getLayerDefinition v = Some d \<Longrightarrow> normalizeLayerId v = Some (ld_id d) \<and> d \<in> set layerDefinitions"
  by (auto simp: getLayerDefinition_def find_Some_iff split: option.splits)

end
