(* ===== verification/JsJson.thy ===== *)
theory JsJson
  imports JsText
begin

text \<open>
  \<open>JSON.stringify\<close> of the values of \<open>JsValues\<close>: a string with its escapes, whose text determines it, and
  records of texts and nulls, whose text determines them too.
\<close>

section \<open>\<open>JSON.stringify\<close> of strings\<close>

definition hex_digit :: "nat \<Rightarrow> char" where
  "hex_digit n = char_of (if n < 10 then 48 + n else 87 + n)"

definition json_char :: "char \<Rightarrow> string" where
  "json_char c =
     (let n = (of_char c :: nat) in
      if c = CHR 0x22 then [CHR 0x5C, CHR 0x22]
      else if c = CHR 0x5C then [CHR 0x5C, CHR 0x5C]
      else if n = 8 then [CHR 0x5C, CHR ''b'']
      else if n = 9 then [CHR 0x5C, CHR ''t'']
      else if n = 10 then [CHR 0x5C, CHR ''n'']
      else if n = 12 then [CHR 0x5C, CHR ''f'']
      else if n = 13 then [CHR 0x5C, CHR ''r'']
      else if n < 32
      then [CHR 0x5C, CHR ''u'', CHR ''0'', CHR ''0'', hex_digit (n div 16), hex_digit (n mod 16)]
      else [c])"

definition json_string :: "string \<Rightarrow> string" where
  "json_string s = CHR 0x22 # concat (map json_char s) @ [CHR 0x22]"

text \<open>A reader of one escaped character, for the proofs.\<close>

definition unhex :: "char \<Rightarrow> nat" where
  "unhex c = (let n = (of_char c :: nat) in if n < 58 then n - 48 else n - 87)"

fun read_char :: "string \<Rightarrow> char \<times> string" where
  "read_char [] = (CHR 0x22, [])"
| "read_char (c # r) =
     (if c \<noteq> CHR 0x5C then (c, r)
      else (case r of
              [] \<Rightarrow> (c, [])
            | d # r' \<Rightarrow>
                (if d = CHR ''b'' then (char_of (8 :: nat), r')
                 else if d = CHR ''t'' then (char_of (9 :: nat), r')
                 else if d = CHR ''n'' then (char_of (10 :: nat), r')
                 else if d = CHR ''f'' then (char_of (12 :: nat), r')
                 else if d = CHR ''r'' then (char_of (13 :: nat), r')
                 else if d = CHR ''u''
                 then (char_of (16 * unhex (r' ! 2) + unhex (r' ! 3)), drop 4 r')
                 else (d, r'))))"

lemma unhex_hex: "n < 16 \<Longrightarrow> unhex (hex_digit n) = n"
  by (simp add: unhex_def hex_digit_def)

lemma read_json_char: "read_char (json_char c @ r) = (c, r)"
proof -
  let ?n = "of_char c :: nat"
  have code: "c = char_of k" if "?n = k" for k
    using that [symmetric] by simp
  consider (quote) "c = CHR 0x22" | (slash) "c = CHR 0x5C" | (b) "?n = 8" | (t) "?n = 9"
    | (n) "?n = 10" | (f) "?n = 12" | (r) "?n = 13"
    | (hex) "c \<noteq> CHR 0x22" "c \<noteq> CHR 0x5C" "?n \<notin> {8, 9, 10, 12, 13}" "?n < 32"
    | (plain) "c \<noteq> CHR 0x22" "c \<noteq> CHR 0x5C" "?n \<notin> {8, 9, 10, 12, 13}" "\<not> ?n < 32"
    by blast
  then show ?thesis
  proof cases
    case hex
    then have "16 * unhex (hex_digit (?n div 16)) + unhex (hex_digit (?n mod 16)) = ?n"
      by (simp add: unhex_hex)
    with hex show ?thesis
      by (simp add: json_char_def Let_def numeral_2_eq_2 numeral_3_eq_3)
  qed (auto simp: json_char_def dest!: code)
qed

lemma json_char_not_quote: "hd (json_char c) \<noteq> CHR 0x22 \<and> json_char c \<noteq> []"
  by (simp add: json_char_def Let_def)

lemma json_chars_inj:
  "concat (map json_char s) @ CHR 0x22 # x = concat (map json_char t) @ CHR 0x22 # y \<Longrightarrow>
   s = t \<and> x = y"
proof (induction s arbitrary: t)
  case Nil
  show ?case
  proof (cases t)
    case (Cons d t')
    with Nil json_char_not_quote [of d] show ?thesis by (cases "json_char d") auto
  qed (use Nil in simp)
next
  case (Cons c s)
  show ?case
  proof (cases t)
    case Nil
    with Cons.prems json_char_not_quote [of c] show ?thesis
      by (cases "json_char c") auto
  next
    case (Cons d t')
    with Cons.prems have eq: "json_char c @ (concat (map json_char s) @ CHR 0x22 # x) =
        json_char d @ (concat (map json_char t') @ CHR 0x22 # y)"
      by simp
    from arg_cong [OF eq, of read_char]
    have "c = d" "concat (map json_char s) @ CHR 0x22 # x = concat (map json_char t') @ CHR 0x22 # y"
      by (simp_all only: read_json_char prod.inject)
    with Cons.IH Cons show ?thesis by blast
  qed
qed

lemma json_string_inj: "json_string s @ x = json_string t @ y \<Longrightarrow> s = t \<and> x = y"
  using json_chars_inj [of s x t y] by (simp add: json_string_def)

section \<open>\<open>JSON.stringify\<close> of values\<close>

fun json_text :: "js \<Rightarrow> string" where
  "json_text Undef = ''null''"
| "json_text Null = ''null''"
| "json_text (JBool b) = (if b then ''true'' else ''false'')"
| "json_text (JNum n) = (if is_finite_num n then num_text n else ''null'')"
| "json_text (Str s) = json_string s"
| "json_text (Arr xs) = ''['' @ join '','' (map json_text xs) @ '']''"
| "json_text (Obj ps) =
     ''{'' @ join '',''
       (map (\<lambda>(k, v). json_string k @ '':'' @ json_text v) (filter (\<lambda>(k, v). v \<noteq> Undef) ps)) @ ''}''"

text \<open>The text of a record of texts and nulls determines its values.\<close>

fun plain_value :: "js \<Rightarrow> bool" where
  "plain_value Null = True"
| "plain_value (Str s) = True"
| "plain_value _ = False"

lemma plain_of_opt [simp]: "plain_value (of_opt t)"
  by (cases t) (simp_all add: of_opt_def)

lemma json_plain_inj:
  assumes "plain_value v" and "plain_value w" and "json_text v @ x = json_text w @ y"
  shows "v = w \<and> x = y"
proof (cases "v = Null \<or> w = Null")
  case True
  with assms show ?thesis
    by (cases v; cases w) (auto simp: json_string_def)
next
  case False
  with assms obtain s t where "v = Str s" "w = Str t" by (cases v; cases w) auto
  with assms(3) json_string_inj [of s x t y] show ?thesis by simp
qed

definition json_entry :: "string \<times> js \<Rightarrow> string" where
  "json_entry e = json_string (fst e) @ '':'' @ json_text (snd e)"

lemma json_entries_inj:
  assumes "map fst ps = map fst qs" and "list_all (plain_value \<circ> snd) ps"
    and "list_all (plain_value \<circ> snd) qs"
    and "join '','' (map json_entry ps) @ ''}'' = join '','' (map json_entry qs) @ ''}''"
  shows "ps = qs"
  using assms
proof (induction ps arbitrary: qs)
  case (Cons e ps)
  from Cons.prems(1) obtain f qs' where qs: "qs = f # qs'" "fst e = fst f" "map fst ps = map fst qs'"
    by (cases qs) auto
  have len: "length ps = length qs'" using qs(3) by (metis length_map)
  have step: "join '','' (map json_entry (g # gs)) =
      json_entry g @ (if gs = [] then [] else '','' @ join '','' (map json_entry gs))" for g gs
    by (cases gs) simp_all
  from Cons.prems(4) have "json_text (snd e) @ ((if ps = [] then [] else '','' @ join '','' (map json_entry ps)) @ ''}'')
      = json_text (snd f) @ ((if qs' = [] then [] else '','' @ join '','' (map json_entry qs')) @ ''}'')"
    unfolding qs(1) step by (simp add: json_entry_def qs(2))
  from json_plain_inj [OF _ _ this] Cons.prems(2,3) qs(1) have
    1: "snd e = snd f"
    and 2: "(if ps = [] then [] else '','' @ join '','' (map json_entry ps)) @ ''}'' =
        (if qs' = [] then [] else '','' @ join '','' (map json_entry qs')) @ ''}''" by auto
  have "ps = qs'"
  proof (cases "ps = []")
    case True
    with len show ?thesis by simp
  next
    case False
    with len have "qs' \<noteq> []" by auto
    with 2 False Cons.IH [OF qs(3)] Cons.prems(2,3) qs(1) show ?thesis by simp
  qed
  with 1 qs(1,2) show ?case by (simp add: prod_eq_iff)
qed simp

lemma json_record_inj:
  assumes "map fst ps = map fst qs" and "list_all (plain_value \<circ> snd) ps"
    and "list_all (plain_value \<circ> snd) qs" and "json_text (Obj ps) = json_text (Obj qs)"
  shows "ps = qs"
proof (rule json_entries_inj [OF assms(1-3)])
  have defined: "filter (\<lambda>(k, v). v \<noteq> Undef) rs = rs" if "list_all (plain_value \<circ> snd) rs" for rs :: "(string \<times> js) list"
    using that by (intro filter_True) (auto simp: list_all_iff)
  have entry: "(\<lambda>(k, v). json_string k @ CHR '':'' # json_text v) = json_entry"
    by (simp add: fun_eq_iff json_entry_def)
  show "join '','' (map json_entry ps) @ ''}'' = join '','' (map json_entry qs) @ ''}''"
    using assms(4) by (simp add: defined [OF assms(2)] defined [OF assms(3)] entry)
qed

end
