(* ===== verification/ProductIdentity.thy ===== *)
theory ProductIdentity
  imports JsJson JsMaps
begin

text \<open>
  \<open>features/dataSources/domain/productIdentity.js\<close>: the identity of a product across data sources.
  A thrown error is the left side of a sum, with its message. The key of an identity is the JSON text
  of the pair of its parts.
\<close>

section \<open>Identities\<close>

record source_identity =
  si_sourceId :: string
  si_productKey :: string

definition DEFAULT_IDENTITY_FIELDS :: "string list" where
  "DEFAULT_IDENTITY_FIELDS = [''productKey'', ''datasetName'', ''productName'', ''OBJECTID'', ''id'']"

definition normalizeIdentityPart :: "js \<Rightarrow> string option" where
  "normalizeIdentityPart v =
     (if is_nullish v then None
      else let t = trim (js_str v) in if t = [] then None else Some t)"

definition normalizePropertyName :: "js \<Rightarrow> string" where
  "normalizePropertyName v = to_lower (strip_separators (text_of v))"

definition readProperty :: "js \<Rightarrow> string \<Rightarrow> js" where
  "readProperty properties name =
     (if has_own properties name then field properties name
      else (case List.find (\<lambda>(n, v). normalizePropertyName (Str n) = normalizePropertyName (Str name))
              (own_entries properties) of
              None \<Rightarrow> Undef
            | Some (n, v) \<Rightarrow> v))"

definition getFeatureProperties :: "js \<Rightarrow> js" where
  "getFeatureProperties feature =
     nullish (field feature ''properties'') (nullish (field feature ''attributes'')
       (nullish (field feature ''Properties'') (nullish (field feature ''Attributes'') (Obj []))))"

definition createMissingIdentityMessage :: "js \<Rightarrow> string list \<Rightarrow> string" where
  "createMissingIdentityMessage context names =
     (let label = (case normalizeIdentityPart (field context ''sourceLabel'') of
                     Some t \<Rightarrow> t | None \<Rightarrow> ''Unknown source'');
          source = (case normalizeIdentityPart (field context ''sourceId'') of
                      Some t \<Rightarrow> t | None \<Rightarrow> ''unknown'');
          feature = (case field context ''featureIndex'' of
                       JNum (JInt i) \<Rightarrow> ''feature at index '' @ int_text i
                     | _ \<Rightarrow> ''feature'')
      in ''Data source '' @ [CHR 0x22] @ label @ [CHR 0x22] @ '' ('' @ source @ '') '' @ feature @
         '' is missing a stable product identity. Expected one of: '' @ join '', '' names @
         '', feature.id.'')"

fun first_identity :: "js \<Rightarrow> string list \<Rightarrow> string option" where
  "first_identity properties [] = None"
| "first_identity properties (name # names) =
     (case normalizeIdentityPart (readProperty properties name) of
        Some t \<Rightarrow> Some t
      | None \<Rightarrow> first_identity properties names)"

definition resolveStableProductKey :: "js \<Rightarrow> js \<Rightarrow> js \<Rightarrow> string + string" where
  "resolveStableProductKey feature strategy context =
     (let properties = getFeatureProperties feature;
          names = (if is_nullish (field strategy ''fields'') then DEFAULT_IDENTITY_FIELDS
                    else map js_str (elements (field strategy ''fields'')))
      in case first_identity properties names of
           Some t \<Rightarrow> Inr t
         | None \<Rightarrow>
             (case (if field strategy ''allowFeatureId'' \<noteq> JBool False
                    then normalizeIdentityPart (field feature ''id'') else None) of
                Some t \<Rightarrow> Inr t
              | None \<Rightarrow> Inl (createMissingIdentityMessage context names)))"

definition createSourceAwareProductIdentity :: "js \<Rightarrow> js \<Rightarrow> string + source_identity" where
  "createSourceAwareProductIdentity sid key =
     (case (normalizeIdentityPart sid, normalizeIdentityPart key) of
        (Some s, Some k) \<Rightarrow> Inr \<lparr>si_sourceId = s, si_productKey = k\<rparr>
      | _ \<Rightarrow> Inl ''A source-aware product identity requires both sourceId and productKey.'')"

definition json_pair :: "string \<Rightarrow> string \<Rightarrow> string" where
  "json_pair a b = ''['' @ json_string a @ '','' @ json_string b @ '']''"

definition serializeProductIdentity :: "js \<Rightarrow> string + string" where
  "serializeProductIdentity identity =
     (case createSourceAwareProductIdentity (field identity ''sourceId'')
             (field identity ''productKey'') of
        Inl e \<Rightarrow> Inl e
      | Inr i \<Rightarrow> Inr (json_pair (si_sourceId i) (si_productKey i)))"

definition duplicate_message :: "js \<Rightarrow> string \<Rightarrow> string" where
  "duplicate_message options key =
     (let label = (case normalizeIdentityPart (field options ''sourceLabel'') of
                     Some t \<Rightarrow> t
                   | None \<Rightarrow> (case normalizeIdentityPart (field options ''sourceId'') of
                                Some t \<Rightarrow> t | None \<Rightarrow> ''unknown''))
      in ''Data source '' @ [CHR 0x22] @ label @ [CHR 0x22] @
         '' contains duplicate product identity '' @ key @ ''.'')"

fun assert_unique_from :: "js \<Rightarrow> string list \<Rightarrow> js list \<Rightarrow> string + unit" where
  "assert_unique_from options seen [] = Inr ()"
| "assert_unique_from options seen (i # is) =
     (case serializeProductIdentity i of
        Inl e \<Rightarrow> Inl e
      | Inr key \<Rightarrow>
          if key \<in> set seen then Inl (duplicate_message options key)
          else assert_unique_from options (seen @ [key]) is)"

definition assertUniqueProductIdentities :: "js list \<Rightarrow> js \<Rightarrow> string + unit" where
  "assertUniqueProductIdentities identities options = assert_unique_from options [] identities"

section \<open>Properties\<close>

lemma normalizeIdentityPart_opt_text: "normalizeIdentityPart v = opt_text v"
  by (simp add: normalizeIdentityPart_def opt_text_def text_of_def nullish_def Let_def)

lemma json_pair_inj: "json_pair a b = json_pair c d \<Longrightarrow> a = c \<and> b = d"
proof -
  assume "json_pair a b = json_pair c d"
  then have "json_string a @ '','' @ json_string b @ '']'' = json_string c @ '','' @ json_string d @ '']''"
    by (simp add: json_pair_def)
  from json_string_inj [OF this] have "a = c" and "json_string b @ '']'' = json_string d @ '']''"
    by simp_all
  with json_string_inj [OF this(2)] show ?thesis by simp
qed

lemma serialize_Inr:
  "serializeProductIdentity i = Inr k \<longleftrightarrow>
   text_of (field i ''sourceId'') \<noteq> [] \<and> text_of (field i ''productKey'') \<noteq> [] \<and>
   k = json_pair (text_of (field i ''sourceId'')) (text_of (field i ''productKey''))"
  by (auto simp: serializeProductIdentity_def createSourceAwareProductIdentity_def
      normalizeIdentityPart_opt_text opt_text_def Let_def)

text \<open>The identity of a product as the pair of its normalised parts.\<close>

definition identity_parts :: "js \<Rightarrow> string \<times> string" where
  "identity_parts i = (text_of (field i ''sourceId''), text_of (field i ''productKey''))"

definition complete_identity :: "js \<Rightarrow> bool" where
  "complete_identity i =
     (text_of (field i ''sourceId'') \<noteq> [] \<and> text_of (field i ''productKey'') \<noteq> [])"

text \<open>
  C11. The serialised key separates products: two complete identities have the same key exactly when
  their source ids and their product keys are the same text, whatever quotes, backslashes, commas or
  control characters they hold.
\<close>

theorem serialize_identity_injective:
  assumes "complete_identity a" and "complete_identity b"
  shows "serializeProductIdentity a = serializeProductIdentity b \<longleftrightarrow>
         identity_parts a = identity_parts b"
proof -
  let ?key = "\<lambda>i. json_pair (text_of (field i ''sourceId'')) (text_of (field i ''productKey''))"
  have "serializeProductIdentity a = Inr (?key a)" "serializeProductIdentity b = Inr (?key b)"
    using assms by (simp_all add: serialize_Inr complete_identity_def)
  then show ?thesis by (auto simp: identity_parts_def dest: json_pair_inj)
qed

theorem serialize_identity_injective_witness:
  "serializeProductIdentity (Obj [(''sourceId'', Str [CHR ''a'', CHR 0x22]), (''productKey'', Str ''b'')]) \<noteq>
   serializeProductIdentity (Obj [(''sourceId'', Str ''a''), (''productKey'', Str [CHR 0x22, CHR ''b''])])"
proof -
  let ?a = "Obj [(''sourceId'', Str [CHR ''a'', CHR 0x22]), (''productKey'', Str ''b'')]"
  let ?b = "Obj [(''sourceId'', Str ''a''), (''productKey'', Str [CHR 0x22, CHR ''b''])]"
  have "complete_identity ?a" "complete_identity ?b" "identity_parts ?a \<noteq> identity_parts ?b"
    by code_simp+
  with serialize_identity_injective [of ?a ?b] show ?thesis by simp
qed

definition identity_key :: "js \<Rightarrow> string" where
  "identity_key i = (case identity_parts i of (s, k) \<Rightarrow> json_pair s k)"

lemma identity_key_eq: "identity_key i = identity_key j \<longleftrightarrow> identity_parts i = identity_parts j"
  by (auto simp: identity_key_def identity_parts_def dest: json_pair_inj)

lemma serialize_key: "serializeProductIdentity i = Inr k \<longleftrightarrow> complete_identity i \<and> k = identity_key i"
  by (simp add: serialize_Inr complete_identity_def identity_key_def identity_parts_def)

lemma assert_unique_from_ok:
  "assert_unique_from options seen is = Inr () \<longleftrightarrow>
   list_all complete_identity is \<and> distinct (map identity_parts is) \<and>
   identity_key ` set is \<inter> set seen = {}"
proof (induction "is" arbitrary: seen)
  case (Cons i "is")
  show ?case
  proof (cases "serializeProductIdentity i")
    case (Inl e)
    then have "\<not> complete_identity i"
      using serialize_key [of i "identity_key i"] by auto
    with Inl show ?thesis by simp
  next
    case (Inr key)
    then have key: "complete_identity i" "key = identity_key i"
      by (simp_all add: serialize_key)
    have "identity_key i \<in> identity_key ` set is \<longleftrightarrow> identity_parts i \<in> identity_parts ` set is"
      by (auto simp: image_iff identity_key_eq)
    with Cons.IH [of "seen @ [key]"] Inr key show ?thesis by auto
  qed
qed simp

text \<open>
  C12. The duplicate check of a data source accepts its products exactly when each has a source id
  and a product key and no two of them are the same product; otherwise it raises an error.
\<close>

theorem assert_unique_iff_distinct:
  "assertUniqueProductIdentities identities options = Inr () \<longleftrightarrow>
   list_all complete_identity identities \<and> distinct (map identity_parts identities)"
  by (simp add: assertUniqueProductIdentities_def assert_unique_from_ok)

end
