(* ===== verification/ProductContexts.thy ===== *)
theory ProductContexts
  imports LayerDefinitions ProductIdentity
begin

text \<open>
  \<open>features/products/domain/productContext.js\<close> and \<open>electronicProductContract.js\<close>: which data source
  a selected map graphic belongs to and what that source allows. A context is an object of the
  program, a \<open>js\<close> value, \<open>Null\<close> when none could be resolved. A graphic is a reference with a value,
  since the registry of graphics is keyed by reference; the two module maps are \<open>context_state\<close>.
  Freezing and the development warnings have no counterpart in the model.
\<close>

section \<open>Contracts\<close>

definition electronic_leaf :: "js \<Rightarrow> js \<Rightarrow> string \<Rightarrow> js" where
  "electronic_leaf specification label kind =
     (let kd = to_lower kind; text = js_str label in
      Obj [(''id'', Str (''export-'' @ kd)), (''label'', Str kind), (''operationKind'', Str kind),
           (''capability'', Str (''export'' @ kind)), (''visible'', JBool True),
           (''implemented'', JBool True), (''backendTarget'', specification),
           (''handlerId'', Str (''export-new-'' @ kd)),
           (''helpText'', Str (''Create '' @ text @ '' '' @ kind @ '' export candidate.'')),
           (''confirmation'', Obj
             [(''title'', Str (''Export '' @ kd @ '' for {datasetName}'')),
              (''message'', Str (''Create '' @ text @ '' '' @ kind @
                '' export candidate for {datasetName}? This operation does not publish the Product.'')),
              (''confirmText'', Str (''Export '' @ kd))])])"

definition createElectronicExportConfiguration :: "js \<Rightarrow> js \<Rightarrow> js" where
  "createElectronicExportConfiguration specification label =
     Obj [(''visible'', JBool True), (''displayLabel'', label),
          (''helpText'', Str (''Create '' @ js_str label @ '' export candidate.'')),
          (''leaves'', Arr (map (electronic_leaf specification label) [''Edition'', ''Update'']))]"

definition COMPATIBILITY_PRODUCT_SOURCE_ID :: string where
  "COMPATIBILITY_PRODUCT_SOURCE_ID = ''compatibility-aoi''"

definition KNOWN_PRODUCT_CAPABILITIES :: "string list" where
  "KNOWN_PRODUCT_CAPABILITIES =
     [''freeze'', ''unfreeze'', ''sendToIcEnc'', ''cancelExport'', ''history'', ''icEncReports'',
      ''internalValidation'', ''exportEdition'', ''exportUpdate'', ''popupExport'',
      ''productCollection'', ''productSearch'', ''analyze'', ''review'', ''backendProductRefresh'']"

definition KNOWN_PRODUCT_CONTENT_TYPES :: "string list" where
  "KNOWN_PRODUCT_CONTENT_TYPES = [''history'', ''icEncReports'', ''internalValidation'']"

definition COMPATIBILITY_CAPABILITIES :: js where
  "COMPATIBILITY_CAPABILITIES = all_true KNOWN_PRODUCT_CAPABILITIES"

definition COMPATIBILITY_EXPORT_CONFIGURATION :: js where
  "COMPATIBILITY_EXPORT_CONFIGURATION =
     createElectronicExportConfiguration (Str ''S101'') (Str ''S-101'')"

definition content_entry :: "string \<Rightarrow> js" where
  "content_entry loader =
     Obj [(''visible'', JBool True), (''implemented'', JBool True), (''loaderId'', Str loader),
          (''availabilityReason'', Null)]"

definition COMPATIBILITY_CONTENT_CONFIGURATION :: js where
  "COMPATIBILITY_CONTENT_CONFIGURATION =
     Obj [(''history'', content_entry ''compatibility-history''),
          (''icEncReports'', content_entry ''compatibility-analyze''),
          (''internalValidation'', content_entry ''compatibility-analyze'')]"

definition HIDDEN_CONTENT_CONFIGURATION :: js where
  "HIDDEN_CONTENT_CONFIGURATION =
     Obj [(''visible'', JBool False), (''implemented'', JBool False), (''loaderId'', Null),
          (''availabilityReason'',
           Str ''This Product content surface is not available for the selected source.'')]"

section \<open>Capabilities of a context\<close>

definition is_known_capability :: "js \<Rightarrow> bool" where
  "is_known_capability name = (name \<in> set (map Str KNOWN_PRODUCT_CAPABILITIES))"

definition productContextSupportsCapability :: "js \<Rightarrow> js \<Rightarrow> bool" where
  "productContextSupportsCapability ctx name =
     (if \<not> truthy ctx \<or> \<not> is_known_capability name then False
      else field (field ctx ''capabilities'') (js_str name) = JBool True)"

definition getProductContextCapabilityReason :: "js \<Rightarrow> js \<Rightarrow> js" where
  "getProductContextCapabilityReason ctx name =
     (if \<not> truthy ctx then Str ''The selected Product source could not be resolved.''
      else if \<not> is_known_capability name
      then Str ''The selected Product source does not declare this capability.''
      else if productContextSupportsCapability ctx name then Null
      else Str (''The '' @ js_str (nullish (field ctx ''sourceLabel'') (Str ''selected'')) @
                '' source does not support this action.''))"

definition getProductContentConfiguration :: "js \<Rightarrow> js \<Rightarrow> js" where
  "getProductContentConfiguration ctx ty =
     (if \<not> truthy ctx \<or> ty \<notin> set (map Str KNOWN_PRODUCT_CONTENT_TYPES)
      then HIDDEN_CONTENT_CONFIGURATION
      else let configuration = field (field ctx ''contentConfiguration'') (js_str ty)
           in if \<not> is_object configuration then HIDDEN_CONTENT_CONFIGURATION else configuration)"

definition isCompatibilityProductContext :: "js \<Rightarrow> bool" where
  "isCompatibilityProductContext ctx =
     (field ctx ''sourceId'' = Str COMPATIBILITY_PRODUCT_SOURCE_ID)"

definition getProductContextIdentityKey :: "js \<Rightarrow> string option" where
  "getProductContextIdentityKey ctx = opt_text (field ctx ''identityKey'')"

section \<open>Reading attributes\<close>

definition getDatasetName :: "js \<Rightarrow> string option" where
  "getDatasetName attributes =
     opt_text (first_defined
       [field attributes ''datasetName'', field attributes ''DatasetName'',
        field attributes ''datasetname'', field attributes ''name'', field attributes ''Name''])"

definition resolveProductKey :: "js \<Rightarrow> js \<Rightarrow> string option" where
  "resolveProductKey attributes dataset =
     opt_text (first_defined
       [field attributes ''productKey'',
        field (field attributes ''productIdentity'') ''productKey'',
        field attributes ''productIdentityKey'', dataset])"

definition isCompatibilityLayer :: "js \<Rightarrow> js \<Rightarrow> bool" where
  "isCompatibilityLayer layerId layerKind =
     (opt_text layerId = Some PRODUCT_CORRECTIONS_LAYER_ID \<or>
      opt_text layerKind = Some PRODUCT_CORRECTIONS)"

definition isResolvedProductContext :: "js \<Rightarrow> bool" where
  "isResolvedProductContext ctx =
     (truthy ctx \<and>
      opt_text (field ctx ''sourceId'') \<noteq> None \<and> opt_text (field ctx ''productKey'') \<noteq> None \<and>
      opt_text (field ctx ''identityKey'') \<noteq> None \<and> opt_text (field ctx ''datasetName'') \<noteq> None \<and>
      opt_text (field ctx ''productType'') \<noteq> None \<and> is_object (field ctx ''capabilities''))"

definition createProductContextIdentityAttributes :: "js \<Rightarrow> js" where
  "createProductContextIdentityAttributes ctx =
     (if \<not> isResolvedProductContext ctx then Null
      else Obj [(''sourceId'', field ctx ''sourceId''), (''sourceLabel'', field ctx ''sourceLabel''),
                (''productKey'', field ctx ''productKey''),
                (''productIdentityKey'', field ctx ''identityKey''),
                (''productType'', field ctx ''productType''),
                (''datasetName'', field ctx ''datasetName'')])"

definition attributesMatchProductContext :: "js \<Rightarrow> js \<Rightarrow> bool" where
  "attributesMatchProductContext attributes ctx =
     (let identity = createProductContextIdentityAttributes ctx in
      if \<not> truthy identity \<or> \<not> is_object attributes then False
      else
        (\<forall>k \<in> set [''sourceId'', ''productKey'', ''productIdentityKey'', ''productType''].
           strict_eq (of_opt (opt_text (field attributes k))) (field identity k)) \<and>
        strict_eq (of_opt (getDatasetName attributes)) (field identity ''datasetName''))"

definition hasCompleteProductIdentityMetadata :: "js \<Rightarrow> bool" where
  "hasCompleteProductIdentityMetadata attributes =
     (opt_text (field attributes ''sourceId'') \<noteq> None \<and>
      opt_text (field attributes ''productKey'') \<noteq> None \<and>
      opt_text (field attributes ''productIdentityKey'') \<noteq> None \<and>
      opt_text (field attributes ''productType'') \<noteq> None \<and>
      getDatasetName attributes \<noteq> None)"

section \<open>Creating contexts\<close>

definition createResolvedProductContext ::
    "js \<Rightarrow> js \<Rightarrow> js \<Rightarrow> js \<Rightarrow> js \<Rightarrow> js \<Rightarrow> js \<Rightarrow> js \<Rightarrow> js \<Rightarrow> js \<Rightarrow> js \<Rightarrow> js \<Rightarrow> js" where
  "createResolvedProductContext sourceId sourceLabel productKey datasetName productType layerId
       workUnit capabilities exportConfiguration contentConfiguration graphic data =
     (case serializeProductIdentity (Obj [(''sourceId'', sourceId), (''productKey'', productKey)]) of
        Inl e \<Rightarrow> Null
      | Inr key \<Rightarrow>
          Obj [(''sourceId'', sourceId), (''sourceLabel'', sourceLabel), (''productKey'', productKey),
               (''identityKey'', Str key), (''datasetName'', datasetName),
               (''productType'', productType), (''layerId'', layerId),
               (''workUnit'', if truthy workUnit then workUnit else Null),
               (''capabilities'', spread capabilities Undef),
               (''exportConfiguration'', exportConfiguration),
               (''contentConfiguration'',
                if truthy contentConfiguration then spread contentConfiguration Undef else Null),
               (''graphic'', nullish graphic Null), (''data'', nullish data Null)])"

definition compatibility_context :: "js \<Rightarrow> js \<Rightarrow> js \<Rightarrow> js \<Rightarrow> js \<Rightarrow> js" where
  "compatibility_context productKey datasetName layerId graphic data =
     createResolvedProductContext (Str COMPATIBILITY_PRODUCT_SOURCE_ID) (Str ''Compatibility AOI'')
       productKey datasetName (Str ''compatibility-product'') layerId Null
       COMPATIBILITY_CAPABILITIES COMPATIBILITY_EXPORT_CONFIGURATION
       COMPATIBILITY_CONTENT_CONFIGURATION graphic data"

definition createCompatibilityProductContext :: "js \<Rightarrow> js \<Rightarrow> js \<Rightarrow> js" where
  "createCompatibilityProductContext graphic attributes layerId =
     (let attrs = nullish attributes (nullish (field graphic ''attributes'') (Obj []));
          dataset = getDatasetName attrs;
          key = resolveProductKey attrs (of_opt dataset);
          layer = (case opt_text layerId of
                     Some l \<Rightarrow> Some l | None \<Rightarrow> resolveLayerId (nullish graphic attrs))
      in if dataset = None \<or> key = None \<or> \<not> isCompatibilityLayer (of_opt layer) Undef then Null
         else compatibility_context (of_opt key) (of_opt dataset) (of_opt layer) graphic Null)"

definition createCompatibilityWorkspaceProductContext :: "js \<Rightarrow> js \<Rightarrow> js" where
  "createCompatibilityWorkspaceProductContext datasetName data =
     (case opt_text datasetName of
        None \<Rightarrow> Null
      | Some d \<Rightarrow> compatibility_context (Str d) (Str d) Null Null data)"

definition createWorkspaceProductContext :: "js \<Rightarrow> js" where
  "createWorkspaceProductContext input =
     (let source = opt_text (field input ''sourceId'');
          key = opt_text (field input ''productKey'');
          dataset = opt_text (field input ''datasetName'');
          ty = opt_text (field input ''productType'');
          opt = (\<lambda>k. if field input k = Undef then Null else field input k)
      in if source = None \<or> key = None \<or> dataset = None \<or> ty = None \<or>
            \<not> is_object (field input ''capabilities'') then Null
         else createResolvedProductContext (of_opt source)
           (case opt_text (field input ''sourceLabel'') of Some l \<Rightarrow> Str l | None \<Rightarrow> of_opt source)
           (of_opt key) (of_opt dataset) (of_opt ty) Null (opt ''workUnit'')
           (field input ''capabilities'') (opt ''exportConfiguration'') (opt ''contentConfiguration'')
           Null (opt ''data''))"

definition resolveRegisteredLayerSourceId :: "js \<Rightarrow> string option" where
  "resolveRegisteredLayerSourceId layer =
     opt_text (first_defined
       [field layer ''appSourceId'', field layer ''dataSourceId'', field layer ''sourceId''])"

definition hasRegisteredSourceLayerMetadata :: "js \<Rightarrow> string option \<Rightarrow> bool" where
  "hasRegisteredSourceLayerMetadata layer layerSourceId =
     (layerSourceId \<noteq> None \<or> truthy (field layer ''appSourceDefinition''))"

definition createRegisteredSourceProductContext ::
    "string option \<Rightarrow> string option \<Rightarrow> string option \<Rightarrow> js \<Rightarrow> js \<Rightarrow> js \<Rightarrow> js" where
  "createRegisteredSourceProductContext attributeSourceId layerSourceId layerId graphic attributes layer =
     (let source = field layer ''appSourceDefinition'';
          registrySourceId = opt_text (field source ''id'');
          attributeType = opt_text (field attributes ''productType'');
          layerType = opt_text (field layer ''appProductType'');
          registryType = opt_text (field source ''productType'');
          dataset = getDatasetName attributes;
          key = resolveProductKey attributes (of_opt dataset)
      in if attributeSourceId = None \<or> layerSourceId = None \<or> registrySourceId = None \<or>
            attributeSourceId \<noteq> layerSourceId \<or> layerSourceId \<noteq> registrySourceId \<or>
            \<not> is_object (field source ''capabilities'') \<or>
            attributeType = None \<or> layerType = None \<or> registryType = None \<or>
            attributeType \<noteq> layerType \<or> layerType \<noteq> registryType \<or> key = None
         then Null
         else createResolvedProductContext (of_opt registrySourceId)
           (case opt_text (field source ''label'') of Some l \<Rightarrow> Str l | None \<Rightarrow> of_opt registrySourceId)
           (of_opt key) (of_opt dataset) (of_opt registryType) (of_opt layerId)
           (nullish (field source ''workUnit'') Null)
           (spread (field source ''capabilities'')
             (field (field source ''workUnit'') ''navigationCapabilities''))
           (nullish (field source ''exportConfiguration'') Null)
           (nullish (field source ''contentConfiguration'') Null) graphic Null)"

section \<open>The registry of contexts\<close>

record graphic =
  g_ref :: nat
  g_value :: js

record context_state =
  GRAPHIC_PRODUCT_CONTEXTS :: "(nat, js) jmap"
  PRODUCT_CONTEXTS_BY_IDENTITY :: "(string, js) jmap"

definition initial_context_state :: context_state where
  "initial_context_state = \<lparr>GRAPHIC_PRODUCT_CONTEXTS = [], PRODUCT_CONTEXTS_BY_IDENTITY = []\<rparr>"

datatype resolution = Absent | Invalid | Resolved js

definition registerGraphicProductContext ::
    "graphic option \<Rightarrow> js \<Rightarrow> context_state \<Rightarrow> bool \<times> context_state" where
  "registerGraphicProductContext g ctx s =
     (case g of
        None \<Rightarrow> (False, s)
      | Some g \<Rightarrow>
          if \<not> is_object (g_value g) \<or> \<not> isResolvedProductContext ctx then (False, s)
          else if \<not> attributesMatchProductContext (field (g_value g) ''attributes'') ctx
          then (False, s)
          else (True,
                s\<lparr>GRAPHIC_PRODUCT_CONTEXTS :=
                     jm_set (g_ref g) ctx (GRAPHIC_PRODUCT_CONTEXTS s),
                   PRODUCT_CONTEXTS_BY_IDENTITY :=
                     jm_set (js_str (field ctx ''identityKey'')) ctx
                       (PRODUCT_CONTEXTS_BY_IDENTITY s)\<rparr>))"

definition resolveExactRegisteredGraphicProductContext ::
    "context_state \<Rightarrow> graphic option \<Rightarrow> js \<Rightarrow> resolution" where
  "resolveExactRegisteredGraphicProductContext s g attributes =
     (case g of
        None \<Rightarrow> Absent
      | Some g \<Rightarrow>
          (if \<not> is_object (g_value g) then Absent
           else case jm_get (GRAPHIC_PRODUCT_CONTEXTS s) (g_ref g) of
                  None \<Rightarrow> Absent
                | Some ctx \<Rightarrow>
                    if \<not> attributesMatchProductContext attributes ctx then Invalid
                    else Resolved ctx))"

definition resolveRegisteredProductIdentityContext :: "context_state \<Rightarrow> js \<Rightarrow> resolution" where
  "resolveRegisteredProductIdentityContext s attributes =
     (case opt_text (field attributes ''productIdentityKey'') of
        None \<Rightarrow> Absent
      | Some key \<Rightarrow>
          (if \<not> hasCompleteProductIdentityMetadata attributes then Invalid
           else case jm_get (PRODUCT_CONTEXTS_BY_IDENTITY s) key of
                  None \<Rightarrow> Absent
                | Some ctx \<Rightarrow>
                    if \<not> attributesMatchProductContext attributes ctx then Invalid
                    else Resolved ctx))"

definition graphic_value :: "graphic option \<Rightarrow> js" where
  "graphic_value g = (case g of None \<Rightarrow> Null | Some g \<Rightarrow> g_value g)"

definition resolveProductContext :: "context_state \<Rightarrow> graphic option \<Rightarrow> js \<Rightarrow> js \<Rightarrow> js" where
  "resolveProductContext s g attributes layer =
     (let gv = graphic_value g;
          attrs = nullish attributes (nullish (field gv ''attributes'') (Obj []))
      in case resolveExactRegisteredGraphicProductContext s g attrs of
           Resolved ctx \<Rightarrow> ctx
         | Invalid \<Rightarrow> Null
         | Absent \<Rightarrow>
             (let resolvedLayer = nullish layer (nullish (field gv ''layer'') Null);
                  layerSource = nullish gv (Obj [(''attributes'', attrs), (''layer'', resolvedLayer)]);
                  layerId = resolveLayerId layerSource;
                  layerKind = resolveLayerKind layerSource;
                  attributeSourceId = opt_text (field attrs ''sourceId'');
                  layerSourceId = resolveRegisteredLayerSourceId resolvedLayer
              in if isCompatibilityLayer (of_opt layerId) layerKind
                 then createCompatibilityProductContext gv attrs (of_opt layerId)
                 else if hasRegisteredSourceLayerMetadata resolvedLayer layerSourceId
                 then createRegisteredSourceProductContext attributeSourceId layerSourceId layerId gv
                        attrs resolvedLayer
                 else case resolveRegisteredProductIdentityContext s attrs of
                        Resolved ctx \<Rightarrow> ctx
                      | Invalid \<Rightarrow> Null
                      | Absent \<Rightarrow> Null))"

section \<open>Matching attributes\<close>

lemma strict_eq_Str: "strict_eq (of_opt t) v \<Longrightarrow> \<not> is_nullish v \<Longrightarrow> \<exists>s. t = Some s \<and> v = Str s"
  by (cases t; cases v) (auto simp: of_opt_def)

lemma opt_text_not_nullish: "opt_text v \<noteq> None \<Longrightarrow> \<not> is_nullish v"
  by (cases v) (auto simp: opt_text_def)

lemma attributes_match_fields:
  assumes "attributesMatchProductContext a ctx"
  shows "is_object a" "isResolvedProductContext ctx"
    "\<exists>t. opt_text (field a ''sourceId'') = Some t \<and> field ctx ''sourceId'' = Str t"
    "\<exists>t. opt_text (field a ''productKey'') = Some t \<and> field ctx ''productKey'' = Str t"
    "\<exists>t. opt_text (field a ''productIdentityKey'') = Some t \<and> field ctx ''identityKey'' = Str t"
    "\<exists>t. opt_text (field a ''productType'') = Some t \<and> field ctx ''productType'' = Str t"
    "\<exists>t. getDatasetName a = Some t \<and> field ctx ''datasetName'' = Str t"
proof -
  show obj: "is_object a" and res: "isResolvedProductContext ctx"
    using assms
    by (auto simp: attributesMatchProductContext_def createProductContextIdentityAttributes_def Let_def
        split: if_splits)
  have nn: "\<not> is_nullish (field ctx k)"
    if "k \<in> {''sourceId'', ''productKey'', ''identityKey'', ''datasetName'', ''productType''}" for k
    using res that by (auto simp: isResolvedProductContext_def intro!: opt_text_not_nullish)
  from assms obj res have
    "strict_eq (of_opt (opt_text (field a ''sourceId''))) (field ctx ''sourceId'')"
    "strict_eq (of_opt (opt_text (field a ''productKey''))) (field ctx ''productKey'')"
    "strict_eq (of_opt (opt_text (field a ''productIdentityKey''))) (field ctx ''identityKey'')"
    "strict_eq (of_opt (opt_text (field a ''productType''))) (field ctx ''productType'')"
    "strict_eq (of_opt (getDatasetName a)) (field ctx ''datasetName'')"
    by (auto simp: attributesMatchProductContext_def createProductContextIdentityAttributes_def Let_def)
  then show
    "\<exists>t. opt_text (field a ''sourceId'') = Some t \<and> field ctx ''sourceId'' = Str t"
    "\<exists>t. opt_text (field a ''productKey'') = Some t \<and> field ctx ''productKey'' = Str t"
    "\<exists>t. opt_text (field a ''productIdentityKey'') = Some t \<and> field ctx ''identityKey'' = Str t"
    "\<exists>t. opt_text (field a ''productType'') = Some t \<and> field ctx ''productType'' = Str t"
    "\<exists>t. getDatasetName a = Some t \<and> field ctx ''datasetName'' = Str t"
    by (auto dest!: strict_eq_Str simp: nn)
qed

lemma matching_attributes_complete:
  "attributesMatchProductContext a ctx \<Longrightarrow> hasCompleteProductIdentityMetadata a"
  using attributes_match_fields [of a ctx] by (auto simp: hasCompleteProductIdentityMetadata_def)

lemma register_True:
  assumes "registerGraphicProductContext (Some g) ctx s = (True, s')"
  shows "is_object (g_value g)" "attributesMatchProductContext (field (g_value g) ''attributes'') ctx"
    "GRAPHIC_PRODUCT_CONTEXTS s' = jm_set (g_ref g) ctx (GRAPHIC_PRODUCT_CONTEXTS s)"
    "PRODUCT_CONTEXTS_BY_IDENTITY s' =
       jm_set (js_str (field ctx ''identityKey'')) ctx (PRODUCT_CONTEXTS_BY_IDENTITY s)"
  using assms by (auto simp: registerGraphicProductContext_def split: if_splits)


definition workspace_context :: js where
  "workspace_context =
     createWorkspaceProductContext (Obj
       [(''sourceId'', Str '' s101 ''), (''productKey'', Str ''101DK00''), (''datasetName'', Str ''101DK00''),
        (''productType'', Str ''s101-product''), (''capabilities'', all_true [''freeze'', ''popupExport''])])"

definition workspace_graphic :: graphic where
  "workspace_graphic = \<lparr>g_ref = 1, g_value = Obj
     [(''attributes'', createProductContextIdentityAttributes workspace_context)]\<rparr>"


section \<open>Resolution fails closed\<close>

lemma createResolved_fields:
  assumes "truthy (createResolvedProductContext src label key ds ty lay wu caps ec cc g d)"
  shows "field (createResolvedProductContext src label key ds ty lay wu caps ec cc g d) ''sourceId'' = src"
    "field (createResolvedProductContext src label key ds ty lay wu caps ec cc g d) ''productType'' = ty"
    "field (createResolvedProductContext src label key ds ty lay wu caps ec cc g d) ''productKey'' = key"
    "field (createResolvedProductContext src label key ds ty lay wu caps ec cc g d) ''datasetName'' = ds"
    "field (createResolvedProductContext src label key ds ty lay wu caps ec cc g d) ''capabilities'' =
       spread caps Undef"
  using assms by (auto simp: createResolvedProductContext_def split: sum.splits)

lemma compatibility_truthy:
  assumes "truthy (createCompatibilityProductContext g a l)"
  shows "field (createCompatibilityProductContext g a l) ''sourceId'' = Str COMPATIBILITY_PRODUCT_SOURCE_ID"
  using assms createResolved_fields(1)
  by (auto simp: createCompatibilityProductContext_def compatibility_context_def Let_def split: if_splits)

lemma registered_source_truthy:
  assumes "truthy (createRegisteredSourceProductContext asid lsid lid g a lay)"
  shows "\<exists>src ty. asid = Some src \<and> lsid = Some src \<and>
           opt_text (field (field lay ''appSourceDefinition'') ''id'') = Some src \<and>
           opt_text (field a ''productType'') = Some ty \<and> opt_text (field lay ''appProductType'') = Some ty \<and>
           opt_text (field (field lay ''appSourceDefinition'') ''productType'') = Some ty \<and>
           field (createRegisteredSourceProductContext asid lsid lid g a lay) ''sourceId'' = Str src \<and>
           field (createRegisteredSourceProductContext asid lsid lid g a lay) ''productType'' = Str ty"
  using assms createResolved_fields(1,2)
  by (auto simp: createRegisteredSourceProductContext_def Let_def of_opt_def split: if_splits)



end
