(* ===== verification/ProductExports.thy ===== *)
theory ProductExports
  imports JsText JsMaps "HOL-Library.Char_ord" "HOL-Library.List_Lexorder" "HOL-Library.Option_ord"
begin

text \<open>
  The exports of a product as the backend reports them: the export standards
  (\<open>products/domain/productExportTrack.js\<close>), the export metadata of a product and its validation
  artifacts (\<open>data/normalizers/productExportMetadata.js\<close>, \<open>productArtifact.js\<close>), the URLs of the
  API client (\<open>shared/api/apiClient.js\<close>), and what the exports that run on the backend mean for the
  export actions (\<open>products/domain/productExternalExportState.js\<close>). \<open>parse_date\<close> is the platform's
  date parser, \<open>base\<close> the configured base URL.
\<close>

section \<open>Export standards\<close>

definition KNOWN_PRODUCT_EXPORT_STANDARDS :: "string list" where
  "KNOWN_PRODUCT_EXPORT_STANDARDS = [''S100'', ''S57'']"

definition normalizeProductExportStandard :: "js \<Rightarrow> string option" where
  "normalizeProductExportStandard v =
     (let t = to_upper (strip_separators (text_of v)) in
      if t = ''S100'' \<or> t = ''S101'' then Some ''S100''
      else if t = ''S57'' then Some ''S57''
      else if t = [] then None else Some t)"

definition createProductExportStandardLabel :: "string \<Rightarrow> string" where
  "createProductExportStandardLabel s =
     (if s = ''S100'' then ''S-101'' else if s = ''S57'' then ''S-57'' else s)"

fun find_metadata :: "js \<Rightarrow> js list \<Rightarrow> js" where
  "find_metadata metadata [] = Null"
| "find_metadata metadata (c # cs) =
     (case normalizeProductExportStandard c of
        None \<Rightarrow> find_metadata metadata cs
      | Some s \<Rightarrow>
          if s \<notin> set KNOWN_PRODUCT_EXPORT_STANDARDS then find_metadata metadata cs
          else (let item = field (field metadata ''byStandard'') s
                in if truthy item then item else find_metadata metadata cs))"

definition findProductExportMetadataItem :: "js \<Rightarrow> js \<Rightarrow> js" where
  "findProductExportMetadataItem metadata candidates =
     find_metadata metadata (if is_array candidates then elements candidates else [candidates])"

section \<open>URLs and artifacts\<close>

definition strip_slashes :: "string \<Rightarrow> string" where
  "strip_slashes s = dropWhile (\<lambda>c. c = CHR ''/'') s"

definition normalizeBaseUrl :: "js \<Rightarrow> string" where
  "normalizeBaseUrl v = rev (strip_slashes (rev (text_of v)))"

definition isAbsoluteUrl :: "string \<Rightarrow> bool" where
  "isAbsoluteUrl s =
     (to_lower (take 7 s) = ''http://'' \<or> to_lower (take 8 s) = ''https://'')"

definition buildUrl :: "js \<Rightarrow> js \<Rightarrow> string" where
  "buildUrl base path =
     (let p = strip_slashes (js_str (nullish path (Str [])));
          b = normalizeBaseUrl base
      in if p = [] then (if b = [] then ''/'' else b)
         else if isAbsoluteUrl p then p
         else if b = [] then CHR ''/'' # p
         else b @ CHR ''/'' # p)"

fun split_slash :: "string \<Rightarrow> string list" where
  "split_slash [] = [[]]"
| "split_slash (c # cs) =
     (if c = CHR ''/'' then [] # split_slash cs
      else (case split_slash cs of [] \<Rightarrow> [[c]] | p # ps \<Rightarrow> (c # p) # ps))"

definition is_uuid_char :: "char \<Rightarrow> bool" where
  "is_uuid_char c =
     (let n = (of_char (lower_char c) :: nat)
      in 48 \<le> n \<and> n \<le> 57 \<or> 97 \<le> n \<and> n \<le> 102 \<or> c = CHR ''-'')"

text \<open>The text \<open>electronicproducts/<dataset>/artifacts/<id>\<close>, up to the case of its letters.\<close>

definition artifact_route :: "string \<Rightarrow> bool" where
  "artifact_route s =
     (case split_slash s of
        [a, ds, b, i] \<Rightarrow>
          to_lower a = ''electronicproducts'' \<and> ds \<noteq> [] \<and> CHR ''?'' \<notin> set ds \<and> CHR ''#'' \<notin> set ds \<and>
          to_lower b = ''artifacts'' \<and> length i = 36 \<and> list_all is_uuid_char i
      | _ \<Rightarrow> False)"

text \<open>The match of the route at the end of a URL, without the slash before it.\<close>

fun find_route :: "bool \<Rightarrow> string \<Rightarrow> string option" where
  "find_route at_start s =
     (if at_start \<and> artifact_route s then Some s
      else (case s of
              [] \<Rightarrow> None
            | c # cs \<Rightarrow>
                if c = CHR ''/'' \<and> artifact_route cs then Some cs else find_route False cs))"

declare find_route.simps [simp del]

definition is_letter :: "char \<Rightarrow> bool" where
  "is_letter c = (let n = (of_char (lower_char c) :: nat) in 97 \<le> n \<and> n \<le> 122)"

definition is_scheme_char :: "char \<Rightarrow> bool" where
  "is_scheme_char c =
     (is_letter c \<or> (let n = (of_char c :: nat) in 48 \<le> n \<and> n \<le> 57) \<or> c \<in> set ''+.-'')"

definition has_scheme :: "string \<Rightarrow> bool" where
  "has_scheme s =
     (take 2 s = ''//'' \<or>
      (case s of [] \<Rightarrow> False
       | c # cs \<Rightarrow> is_letter c \<and> take 1 (dropWhile is_scheme_char cs) = '':''))"

fun capitalize :: "string \<Rightarrow> string" where
  "capitalize [] = []"
| "capitalize (c # cs) = upper_char c # cs"

definition read_alias :: "js \<Rightarrow> string \<Rightarrow> js" where
  "read_alias v name = nullish (field v name) (field v (capitalize name))"

definition artifact_fields :: "js \<Rightarrow> js \<Rightarrow> string \<Rightarrow> (string \<times> js) list" where
  "artifact_fields base v path =
     [(''id'', read_alias v ''id''), (''fileName'', read_alias v ''fileName''),
      (''mediaType'', read_alias v ''mediaType''), (''createdAtUtc'', read_alias v ''createdAtUtc''),
      (''url'', Str (buildUrl base (Str path)))]"

definition normalizeProductArtifact :: "js \<Rightarrow> js \<Rightarrow> (string \<times> js) list option" where
  "normalizeProductArtifact base v =
     (if \<not> is_object v then None
      else
        let raw = text_of (read_alias v ''url'')
        in case find_route True raw of
             None \<Rightarrow> None
           | Some path \<Rightarrow> if has_scheme raw then None else Some (artifact_fields base v path))"

definition normalizeArtifactHistory :: "js \<Rightarrow> js \<Rightarrow> string + js list" where
  "normalizeArtifactHistory base payload =
     (let values = nullish (field payload ''Data'') (nullish (field payload ''data'') payload)
      in if \<not> is_array values then Inl ''Invalid validation artifact history response.''
         else Inr (List.map_filter (\<lambda>v.
           (case normalizeProductArtifact base v of
              None \<Rightarrow> None
            | Some artifact \<Rightarrow>
                (let pick = (\<lambda>a b. nullish (field v a) (field v b));
                     spec = pick ''ProductSpecification'' ''productSpecification''
                 in Some (Obj (artifact @
                      [(''trackId'', pick ''TrackId'' ''trackId''),
                       (''revisionId'', pick ''RevisionId'' ''revisionId''),
                       (''datasetName'', pick ''DatasetName'' ''datasetName''),
                       (''productSpecification'', spec),
                       (''productSpecificationLabel'',
                        nullish (field (Obj [(''S57'', Str ''S-57''), (''S101'', Str ''S-101'')])
                          (js_str spec)) spec),
                       (''kind'', pick ''Kind'' ''kind'')]))))) (elements values)))"

section \<open>Export metadata\<close>

fun readFirstDefined :: "js \<Rightarrow> string list \<Rightarrow> js" where
  "readFirstDefined source [] = Undef"
| "readFirstDefined source (k # ks) =
     (if has_own source k \<and> \<not> is_nullish (field source k) then field source k
      else readFirstDefined source ks)"

definition normalizeValidationArtifacts :: "js \<Rightarrow> js \<Rightarrow> js" where
  "normalizeValidationArtifacts base v =
     Arr (List.map_filter (\<lambda>a. map_option Obj (normalizeProductArtifact base a)) (elements v))"

definition getExportRecords :: "js \<Rightarrow> js list" where
  "getExportRecords v =
     (if is_array v then filter is_object (elements v)
      else if is_object v then [v] else [])"

definition normalizeProductExportRecord :: "js \<Rightarrow> js \<Rightarrow> js option" where
  "normalizeProductExportRecord base r =
     (let raw = readFirstDefined r [''type'', ''Type'', ''standard'', ''Standard'']
      in case normalizeProductExportStandard raw of
           None \<Rightarrow> None
         | Some s \<Rightarrow>
             Some (Obj
               [(''standard'', Str s), (''type'', raw),
                (''label'', Str (createProductExportStandardLabel s)),
                (''datasetName'', readFirstDefined r [''datasetName'', ''DatasetName'', ''name'', ''Name'']),
                (''edition'', readFirstDefined r [''edition'', ''Edition'']),
                (''update'', readFirstDefined r [''update'', ''Update'']),
                (''status'', readFirstDefined r [''status'', ''Status'']),
                (''date'', readFirstDefined r [''date'', ''Date'']),
                (''errorMessage'', readFirstDefined r [''errorMessage'', ''ErrorMessage'']),
                (''validationArtifacts'', normalizeValidationArtifacts base
                   (readFirstDefined r [''validationArtifacts'', ''ValidationArtifacts''])),
                (''raw'', r)]))"

definition getDateTimeValue :: "(js \<Rightarrow> int option) \<Rightarrow> js \<Rightarrow> int option" where
  "getDateTimeValue parse_date v = (if \<not> truthy v then None else parse_date v)"

definition shouldPreferExport :: "(js \<Rightarrow> int option) \<Rightarrow> js \<Rightarrow> js \<Rightarrow> bool" where
  "shouldPreferExport parse_date candidate existing =
     (case (getDateTimeValue parse_date (field candidate ''date''),
            getDateTimeValue parse_date (field existing ''date'')) of
        (None, _) \<Rightarrow> False
      | (Some c, None) \<Rightarrow> True
      | (Some c, Some e) \<Rightarrow> e \<le> c)"

definition item_standard :: "js \<Rightarrow> string" where
  "item_standard item = js_str (field item ''standard'')"

definition add_export :: "(js \<Rightarrow> int option) \<Rightarrow> js \<Rightarrow> (string, js) jmap \<Rightarrow> (string, js) jmap" where
  "add_export parse_date item result =
     (case jm_get result (item_standard item) of
        None \<Rightarrow> jm_set (item_standard item) item result
      | Some existing \<Rightarrow>
          if shouldPreferExport parse_date item existing
          then jm_set (item_standard item) item result else result)"

definition groupExportsByStandard :: "(js \<Rightarrow> int option) \<Rightarrow> js list \<Rightarrow> (string, js) jmap" where
  "groupExportsByStandard parse_date items = fold (add_export parse_date) items []"

definition getOrderedStandards :: "(string, js) jmap \<Rightarrow> string list" where
  "getOrderedStandards grp =
     filter (\<lambda>s. jm_has grp s) [''S100'', ''S57''] @
     sort (filter (\<lambda>s. s \<notin> set [''S100'', ''S57'']) (jm_keys grp))"

definition normalizeProductExportMetadata :: "(js \<Rightarrow> int option) \<Rightarrow> js \<Rightarrow> js \<Rightarrow> js" where
  "normalizeProductExportMetadata parse_date base v =
     (let items = List.map_filter (normalizeProductExportRecord base) (getExportRecords v);
          grp = groupExportsByStandard parse_date items
      in Obj [(''items'', Arr items), (''byStandard'', Obj grp),
              (''standards'', Arr (map Str (getOrderedStandards grp)))])"

definition hasProductExportMetadata :: "js \<Rightarrow> bool" where
  "hasProductExportMetadata metadata = (elements (field metadata ''standards'') \<noteq> [])"

section \<open>Exports that run on the backend\<close>

record export_view =
  xv_running :: bool
  xv_blocked :: bool
  xv_loading :: bool
  xv_disabledReason :: "string option"

definition createAvailableState :: export_view where
  "createAvailableState =
     \<lparr>xv_running = False, xv_blocked = False, xv_loading = False, xv_disabledReason = None\<rparr>"

definition getExportOperations :: "js \<Rightarrow> js list" where
  "getExportOperations state =
     filter (\<lambda>p. field p ''type'' = Str ''export'')
       (if is_array (field state ''operations'') then elements (field state ''operations'')
        else if truthy (field state ''operation'') then [field state ''operation''] else [])"

definition hasRunningProductExportOperation :: "js \<Rightarrow> bool" where
  "hasRunningProductExportOperation state = (0 < length (getExportOperations state))"

definition exportScopesOverlap :: "string \<Rightarrow> string \<Rightarrow> bool" where
  "exportScopesOverlap candidate running =
     (running = [] \<or> candidate = ''all'' \<or> running = ''all'' \<or> candidate = running)"

definition createOperationReason :: "js \<Rightarrow> string" where
  "createOperationReason p =
     (let l = trim (js_str (nullish (field p ''label'') (Str ''Export'')));
          label = (if l = [] then ''Export'' else l);
          name = trim (js_str (nullish (field p ''datasetName'') (Str ''the product'')))
      in label @ '' is already running for '' @ name @ ''.'')"

definition getExternalProductExportState :: "js \<Rightarrow> js \<Rightarrow> js \<Rightarrow> export_view" where
  "getExternalProductExportState state target ty =
     (let t = lower_text target; x = lower_text ty; ops = getExportOperations state in
      if t = [] \<or> x = [] then createAvailableState
      else
        case List.find (\<lambda>p. lower_text (field p ''exportTarget'') = t \<and>
                            lower_text (field p ''exportType'') = x) ops of
          Some p \<Rightarrow>
            \<lparr>xv_running = True, xv_blocked = True, xv_loading = True,
             xv_disabledReason = Some (createOperationReason p)\<rparr>
        | None \<Rightarrow>
            (case List.find (\<lambda>p. exportScopesOverlap t (lower_text (field p ''exportTarget''))) ops of
               Some p \<Rightarrow>
                 \<lparr>xv_running = False, xv_blocked = True, xv_loading = False,
                  xv_disabledReason = Some (createOperationReason p)\<rparr>
             | None \<Rightarrow> createAvailableState))"

definition mergeProductExportStates ::
    "export_view option \<Rightarrow> export_view option \<Rightarrow> export_view" where
  "mergeProductExportStates lv ev =
     (case lv of
        Some l \<Rightarrow>
          if xv_running l \<or> xv_blocked l then l
          else (case ev of None \<Rightarrow> createAvailableState | Some e \<Rightarrow> e)
      | None \<Rightarrow> (case ev of None \<Rightarrow> createAvailableState | Some e \<Rightarrow> e))"

section \<open>Artifact URLs\<close>

lemma find_route_Some:
  "find_route b s = Some p \<Longrightarrow> artifact_route p \<and> (\<exists>pre. s = pre @ p)"
proof (induction b s rule: find_route.induct)
  case (1 b s)
  show ?case
  proof (cases "b \<and> artifact_route s")
    case True
    with 1(2) have "p = s" by (subst (asm) find_route.simps) simp
    with True show ?thesis by simp
  next
    case False
    with 1(2) obtain c cs where s: "s = c # cs"
      by (cases s) (auto simp: find_route.simps [of _ "[]"] split: if_splits)
    show ?thesis
    proof (cases "c = CHR ''/'' \<and> artifact_route cs")
      case True
      with False s 1(2) have "p = cs" by (subst (asm) find_route.simps) auto
    with True s show ?thesis by auto
    next
      case no: False
      with False s 1(2) have "find_route False cs = Some p"
        by (subst (asm) find_route.simps) (auto split: if_splits)
      from 1(1) [OF False s no this] show ?thesis by (auto simp: s)
    qed
  qed
qed

lemma artifact_route_first:
  assumes "artifact_route p"
  shows "\<exists>c r. p = c # r \<and> lower_char c = CHR ''e''"
proof (cases p)
  case (Cons c r)
  have "lower_char c = CHR ''e''"
    using assms Cons
    by (auto simp: artifact_route_def to_lower_def split: list.splits if_splits)
  with Cons show ?thesis by simp
qed (use assms in \<open>simp add: artifact_route_def\<close>)

lemma buildUrl_route:
  assumes "artifact_route p"
  shows "buildUrl base (Str p) = normalizeBaseUrl base @ CHR ''/'' # p"
proof -
  obtain c r where p: "p = c # r" and c: "lower_char c = CHR ''e''"
    using artifact_route_first [OF assms] by blast
  then have "c \<noteq> CHR ''/''" by (auto simp: lower_char_def)
  moreover from p c have "\<not> isAbsoluteUrl p"
    by (simp add: isAbsoluteUrl_def to_lower_def)
  ultimately show ?thesis
    using p by (simp add: buildUrl_def strip_slashes_def nullish_def Let_def)
qed

text \<open>
  C13. Only artifacts behind the public artifact route are offered for download: the URL of every
  normalised artifact is the configured base URL followed by such a route, taken from the end of the
  URL the backend sent, and a URL with a scheme or a host of its own is never accepted.
\<close>

theorem artifact_url_is_public_route:
  assumes "normalizeProductArtifact base v = Some a"
  shows "\<exists>pre path. text_of (read_alias v ''url'') = pre @ path \<and> artifact_route path \<and>
           \<not> has_scheme (pre @ path) \<and>
           map_of a ''url'' = Some (Str (normalizeBaseUrl base @ ''/'' @ path))"
proof -
  from assms obtain path where "find_route True (text_of (read_alias v ''url'')) = Some path"
    "\<not> has_scheme (text_of (read_alias v ''url''))" "a = artifact_fields base v path"
    by (auto simp: normalizeProductArtifact_def Let_def split: if_splits option.splits)
  with find_route_Some [OF this(1)] show ?thesis
    by (auto simp: artifact_fields_def buildUrl_route)
qed

definition artifact_example :: js where
  "artifact_example =
     Obj [(''Url'', Str ''/api/ElectronicProducts/101DK/artifacts/0123456789abcdef-0123456789ABCDEF-01''),
          (''Id'', Str ''A1'')]"

theorem artifact_url_is_public_route_witness:
  "\<exists>pre path. text_of (read_alias artifact_example ''url'') = pre @ path \<and> artifact_route path \<and>
     map_of (the (normalizeProductArtifact (Str ''https://host/root/'') artifact_example)) ''url'' =
     Some (Str (''https://host/root'' @ ''/'' @ path))"
proof -
  have "normalizeProductArtifact (Str ''https://host/root/'') artifact_example =
      Some (the (normalizeProductArtifact (Str ''https://host/root/'') artifact_example))"
    and "normalizeBaseUrl (Str ''https://host/root/'') = ''https://host/root''"
    by code_simp+
  with artifact_url_is_public_route [OF this(1)] show ?thesis by auto
qed

section \<open>The export metadata of a product\<close>

definition item_time :: "(js \<Rightarrow> int option) \<Rightarrow> js \<Rightarrow> int option" where
  "item_time parse_date item = getDateTimeValue parse_date (field item ''date'')"

lemma shouldPrefer_le:
  "shouldPreferExport pd c e \<Longrightarrow> item_time pd e \<le> item_time pd c"
  "\<not> shouldPreferExport pd c e \<Longrightarrow> item_time pd c \<le> item_time pd e"
  by (auto simp: shouldPreferExport_def item_time_def split: option.splits)

text \<open>What grouping the items so far has established.\<close>

definition grouped :: "(js \<Rightarrow> int option) \<Rightarrow> js set \<Rightarrow> (string, js) jmap \<Rightarrow> bool" where
  "grouped pd S grp =
     (jm_ok grp \<and>
      (\<forall>s it. jm_get grp s = Some it \<longrightarrow> it \<in> S \<and> item_standard it = s) \<and>
      (\<forall>c \<in> S. \<exists>it. jm_get grp (item_standard c) = Some it \<and> item_time pd c \<le> item_time pd it))"

lemma grouped_add: "grouped pd S grp \<Longrightarrow> grouped pd (insert x S) (add_export pd x grp)"
proof (cases "jm_get grp (item_standard x)")
  case None
  assume "grouped pd S grp"
  with None show ?thesis by (auto simp: grouped_def add_export_def)
next
  case (Some e)
  assume g: "grouped pd S grp"
  show ?thesis
  proof (cases "shouldPreferExport pd x e")
    case True
    have "item_time pd c \<le> item_time pd x" if "c \<in> S" "item_standard c = item_standard x" for c
      using g that Some shouldPrefer_le(1) [OF True] by (force simp: grouped_def)
    with g Some True show ?thesis by (auto simp: grouped_def add_export_def)
  next
    case False
    with g Some shouldPrefer_le(2) [OF False] show ?thesis
      by (auto simp: grouped_def add_export_def)
  qed
qed

lemma grouped_fold: "grouped pd S grp \<Longrightarrow> grouped pd (set xs \<union> S) (fold (add_export pd) xs grp)"
proof (induction xs arbitrary: S grp)
  case (Cons x xs)
  from Cons.IH [OF grouped_add [OF Cons.prems, of x]] show ?case by simp
qed simp

lemma grouped_items: "grouped pd (set items) (groupExportsByStandard pd items)"
  using grouped_fold [of pd "{}" "[]" items] by (simp add: groupExportsByStandard_def grouped_def)

lemma set_ordered_standards: "jm_ok grp \<Longrightarrow> set (getOrderedStandards grp) = set (jm_keys grp)"
  by (auto simp only: getOrderedStandards_def jm_has_keys set_append set_filter set_sort)

lemma distinct_ordered_standards: "jm_ok grp \<Longrightarrow> distinct (getOrderedStandards grp)"
  by (auto simp: getOrderedStandards_def jm_ok_def distinct_map_filter)

text \<open>
  C14. The metadata of a product lists one export per standard, the latest: for each normalised record
  the entry of its standard is a record of that standard with a date no earlier, undated records
  giving way to dated ones. The listed standards are distinct and are those of the records.
\<close>

theorem export_metadata_latest:
  assumes "m = normalizeProductExportMetadata pd base v"
    and "item \<in> set (elements (field m ''items''))"
  shows "field (field m ''byStandard'') (item_standard item) \<in> set (elements (field m ''items'')) \<and>
         item_standard (field (field m ''byStandard'') (item_standard item)) = item_standard item \<and>
         item_time pd item \<le> item_time pd (field (field m ''byStandard'') (item_standard item)) \<and>
         distinct (elements (field m ''standards'')) \<and>
         set (elements (field m ''standards'')) =
           (\<lambda>i. Str (item_standard i)) ` set (elements (field m ''items''))"
proof -
  define items where "items = List.map_filter (normalizeProductExportRecord base) (getExportRecords v)"
  define grp_s where "grp_s = groupExportsByStandard pd items"
  have m: "field m ''items'' = Arr items" "field m ''byStandard'' = Obj grp_s"
    "field m ''standards'' = Arr (map Str (getOrderedStandards grp_s))"
    by (simp_all add: assms(1) normalizeProductExportMetadata_def items_def grp_s_def Let_def)
  have g: "grouped pd (set items) grp_s"
    by (simp add: grp_s_def grouped_items)
  then have ok: "jm_ok grp_s" by (simp add: grouped_def)
  from g assms(2) obtain it where "jm_get grp_s (item_standard item) = Some it"
    "item_time pd item \<le> item_time pd it" "it \<in> set items" "item_standard it = item_standard item"
    by (auto simp: grouped_def m)
  moreover have "set (jm_keys grp_s) = item_standard ` set items"
    (is "?L = ?R")
  proof
    show "?L \<subseteq> ?R"
    proof
      fix s assume "s \<in> ?L"
      then obtain i where "jm_get grp_s s = Some i" using jm_has_keys [of grp_s s] by auto
      with g show "s \<in> ?R" by (auto simp: grouped_def)
    qed
    show "?R \<subseteq> ?L"
      using g jm_has_keys [of grp_s] by (fastforce simp: grouped_def)
  qed
  moreover have "set (map Str (getOrderedStandards grp_s)) = Str ` set (jm_keys grp_s)"
    using set_ordered_standards [OF ok] by simp
  ultimately show ?thesis
    using distinct_ordered_standards [OF ok] by (simp add: m distinct_map image_image inj_on_def)
qed

definition exports_example :: js where
  "exports_example =
     Arr [Obj [(''Type'', Str '' s-57 ''), (''date'', Str ''2'')],
          Obj [(''type'', Str ''S_101'')],
          Obj [(''standard'', Str ''s57''), (''date'', Str ''9'')],
          Null, Obj [(''type'', Str ''x'')]]"

definition number_date :: "js \<Rightarrow> int option" where
  "number_date v = (case to_number v of JInt i \<Rightarrow> Some i | _ \<Rightarrow> None)"

theorem export_metadata_latest_witness:
  "item_time number_date
     (elements (field (normalizeProductExportMetadata number_date Null exports_example) ''items'') ! 0)
   \<le> Some 9 \<and>
   elements (field (normalizeProductExportMetadata number_date Null exports_example) ''standards'') =
   [Str ''S100'', Str ''S57'', Str ''X'']"
proof -
  let ?m = "normalizeProductExportMetadata number_date Null exports_example"
  have "elements (field ?m ''items'') ! 0 \<in> set (elements (field ?m ''items''))"
    and "item_time number_date (field (field ?m ''byStandard'')
           (item_standard (elements (field ?m ''items'') ! 0))) = Some 9"
    and "elements (field ?m ''standards'') = [Str ''S100'', Str ''S57'', Str ''X'']"
    by code_simp+
  with export_metadata_latest [OF refl this(1)] show ?thesis by metis
qed

section \<open>Exports that run on the backend\<close>

definition blocks_export :: "js \<Rightarrow> js \<Rightarrow> bool" where
  "blocks_export target p = exportScopesOverlap (lower_text target) (lower_text (field p ''exportTarget''))"


end
