(* ===== verification/ProductActions.thy ===== *)
theory ProductActions
  imports ProductContexts ProductExports
begin

text \<open>
  \<open>features/products/domain/productActionAvailability.js\<close>: which actions a product offers. The result
  for one action is the record \<open>availability\<close>; its optional fields are \<open>Null\<close> or \<open>Undef\<close> as the
  source has them.
\<close>

section \<open>Results\<close>

record availability =
  av_visible :: bool
  av_disabled :: bool
  av_disabledReason :: js
  av_loading :: bool
  av_label :: js
  av_mode :: js

definition available :: availability where
  "available = \<lparr>av_visible = True, av_disabled = False, av_disabledReason = Null,
     av_loading = False, av_label = Null, av_mode = Undef\<rparr>"

definition unavailable :: "js \<Rightarrow> availability" where
  "unavailable reason = \<lparr>av_visible = True, av_disabled = True, av_disabledReason = reason,
     av_loading = False, av_label = Null, av_mode = Undef\<rparr>"

definition hidden :: "js \<Rightarrow> availability" where
  "hidden reason = \<lparr>av_visible = False, av_disabled = True, av_disabledReason = reason,
     av_loading = False, av_label = Null, av_mode = Undef\<rparr>"

section \<open>The state of a product\<close>

record product_state =
  ps_known :: bool
  ps_id :: "jsnum option"
  ps_name :: "string option"

definition getProductState :: "js \<Rightarrow> product_state" where
  "getProductState attributes =
     (let raw = first_defined
        [field attributes ''status'', field attributes ''Status'', field attributes ''state'',
         field attributes ''State'', Null]
      in if is_nullish raw \<or> raw = Str [] then \<lparr>ps_known = False, ps_id = None, ps_name = None\<rparr>
         else if is_finite_num (to_number raw)
         then \<lparr>ps_known = True, ps_id = Some (to_number raw), ps_name = None\<rparr>
         else \<lparr>ps_known = True, ps_id = None, ps_name = Some (to_lower (trim (js_str raw)))\<rparr>)"

definition in_state :: "int list \<Rightarrow> string list \<Rightarrow> product_state \<Rightarrow> bool" where
  "in_state ids names p =
     (ps_id p \<in> (\<lambda>i. Some (JInt i)) ` set ids \<or> ps_name p \<in> Some ` set names)"

definition isExportableState :: "product_state \<Rightarrow> bool" where
  "isExportableState p =
     in_state [1, 2, 7, 8, 13, 14, 15]
       [''idle'', ''exported'', ''rejected'', ''changesdetected'', ''published'', ''cancelled'', ''error'']
       p"

definition isExportedState :: "product_state \<Rightarrow> bool" where
  "isExportedState p = in_state [2] [''exported''] p"

definition isCancelableCandidateState :: "product_state \<Rightarrow> bool" where
  "isCancelableCandidateState p = in_state [11, 15] [''readyfordistribution'', ''error''] p"

definition isInTransitState :: "product_state \<Rightarrow> bool" where
  "isInTransitState p = in_state [6] [''intransit''] p"

definition action_datasetName :: "js \<Rightarrow> js" where
  "action_datasetName attributes =
     first_defined [field attributes ''datasetName'', field attributes ''DatasetName'',
       field attributes ''name'', field attributes ''Name'', Null]"

definition findSelectedProductExport :: "js \<Rightarrow> js \<Rightarrow> js" where
  "findSelectedProductExport attributes ctx =
     (let targets = filter truthy (map (\<lambda>leaf. field leaf ''backendTarget'')
        (elements (field (field ctx ''exportConfiguration'') ''leaves'')))
      in findProductExportMetadataItem (field attributes ''exportMetadata'')
           (Arr (targets @
             [field ctx ''sourceLabel'', field ctx ''sourceId'', field ctx ''productType'',
              field attributes ''sourceLabel'', field attributes ''sourceId'',
              field attributes ''productType''])))"

section \<open>The guards of the actions\<close>

record mutation_context =
  hasDatasetName :: bool
  exportHasRunningAction :: bool
  productHasRunningMutation :: bool
  productOperationDisabledReason :: js

definition MISSING_DATASET_NAME_REASON :: js where
  "MISSING_DATASET_NAME_REASON = Str ''The selected feature does not have a datasetName.''"

definition createMutationAvailability :: "mutation_context \<Rightarrow> availability" where
  "createMutationAvailability m =
     (if \<not> hasDatasetName m then unavailable MISSING_DATASET_NAME_REASON
      else if productHasRunningMutation m then unavailable (productOperationDisabledReason m)
      else if exportHasRunningAction m
      then unavailable (Str ''Wait until the current export finishes.'')
      else available)"

definition createSendToIcEncCapabilityAvailability :: "js \<Rightarrow> availability" where
  "createSendToIcEncCapabilityAvailability capability =
     (if field capability ''mode'' = Str ''Simulation'' \<and> field capability ''available'' = JBool True
      then available\<lparr>av_label := Str ''Send to IC-ENC'', av_mode := Str ''Simulation''\<rparr>
      else
        (let reason = text_of (field capability ''reason''); mode = text_of (field capability ''mode'')
         in (unavailable (Str (if reason = [] then ''Send to IC-ENC availability could not be verified.''
                               else reason)))
              \<lparr>av_label := Str ''Send to IC-ENC'',
               av_mode := Str (if mode = [] then ''Disabled'' else mode)\<rparr>))"

definition createSendAvailability ::
    "mutation_context \<Rightarrow> bool \<Rightarrow> product_state \<Rightarrow> js \<Rightarrow> availability" where
  "createSendAvailability m frozen p capability =
     (if av_disabled (createMutationAvailability m) then createMutationAvailability m
      else if frozen then unavailable (Str ''Unfreeze the product before sending.'')
      else if \<not> ps_known p \<or> \<not> isExportedState p
      then unavailable (Str
        ''IC-ENC send simulation is only available when product status is Exported.'')
      else createSendToIcEncCapabilityAvailability capability)"

definition createRollbackAvailability :: "mutation_context \<Rightarrow> product_state \<Rightarrow> availability" where
  "createRollbackAvailability m selected =
     (if av_disabled (createMutationAvailability m) then createMutationAvailability m
      else if \<not> ps_known selected \<or> \<not> isCancelableCandidateState selected
      then unavailable (Str
        ''Cancel Export requires an unverified candidate for the selected source.'')
      else available)"

definition createExportRootAvailability :: "mutation_context \<Rightarrow> availability" where
  "createExportRootAvailability m =
     (if \<not> hasDatasetName m then unavailable MISSING_DATASET_NAME_REASON
      else if productHasRunningMutation m then unavailable (productOperationDisabledReason m)
      else available
        \<lparr>av_label := Str (if exportHasRunningAction m then ''Exporting...'' else ''Export...''),
         av_loading := exportHasRunningAction m\<rparr>)"

definition capabilityAvailability :: "js \<Rightarrow> string \<Rightarrow> availability \<Rightarrow> availability" where
  "capabilityAvailability ctx name a =
     (if ctx = Undef then a
      else if \<not> productContextSupportsCapability ctx (Str name)
      then hidden (getProductContextCapabilityReason ctx (Str name))
      else a\<lparr>av_visible := True\<rparr>)"

definition supportsCapability :: "js \<Rightarrow> js \<Rightarrow> bool" where
  "supportsCapability ctx name =
     (if ctx = Undef then True
      else if \<not> truthy name then False
      else productContextSupportsCapability ctx name)"

section \<open>The actions of a product\<close>

record action_availability =
  act_datasetName :: js
  act_frozen :: bool
  act_context :: mutation_context
  act_freeze :: availability
  act_unfreeze :: availability
  act_send :: availability
  act_rollback :: availability
  act_exportRoot :: availability

definition createProductActionAvailability ::
    "js \<Rightarrow> js \<Rightarrow> js \<Rightarrow> bool \<Rightarrow> bool \<Rightarrow> js \<Rightarrow> js \<Rightarrow> action_availability" where
  "createProductActionAvailability attributes ctx frozen exporting mutating reason sendCapability =
     (let dataset = action_datasetName attributes;
          isFrozen = truthy frozen;
          state = getProductState attributes;
          selected = findSelectedProductExport attributes ctx;
          selectedState = getProductState (Obj [(''status'', field selected ''status'')]);
          m = \<lparr>hasDatasetName = truthy dataset, exportHasRunningAction = exporting,
               productHasRunningMutation = mutating, productOperationDisabledReason = reason\<rparr>
      in \<lparr>act_datasetName = dataset, act_frozen = isFrozen, act_context = m,
          act_freeze = capabilityAvailability ctx ''freeze''
            (if isInTransitState state
             then unavailable (Str ''A product in transit cannot be frozen.'')
             else createMutationAvailability m),
          act_unfreeze = capabilityAvailability ctx ''unfreeze'' (createMutationAvailability m),
          act_send = capabilityAvailability ctx ''sendToIcEnc''
            (createSendAvailability m isFrozen state sendCapability),
          act_rollback = capabilityAvailability ctx ''cancelExport''
            (createRollbackAvailability m selectedState),
          act_exportRoot = capabilityAvailability ctx ''popupExport''
            (createExportRootAvailability m)\<rparr>)"

definition createProductExportAvailability ::
    "js \<Rightarrow> js \<Rightarrow> js \<Rightarrow> js \<Rightarrow> js \<Rightarrow> js \<Rightarrow> export_view option \<Rightarrow> bool \<Rightarrow> js \<Rightarrow> availability" where
  "createProductExportAvailability attributes ctx capabilityName reason frozen implemented view
       mutating operationReason =
     (let hasName = truthy (action_datasetName attributes);
          state = getProductState attributes;
          xreason = (\<lambda>v. of_opt (xv_disabledReason v))
      in if \<not> hasName then unavailable MISSING_DATASET_NAME_REASON
         else if \<not> supportsCapability ctx capabilityName \<or> implemented \<noteq> JBool True
         then unavailable
           (js_or (Str (text_of reason))
             (js_or (if ctx = Undef then Null else getProductContextCapabilityReason ctx capabilityName)
               (Str ''Feature is not available yet.'')))
         else case view of
                Some v \<Rightarrow>
                  (if xv_running v
                   then (unavailable (xreason v))\<lparr>av_loading := True, av_label := Str ''Exporting...''\<rparr>
                   else if xv_blocked v then unavailable (xreason v)
                   else if mutating then unavailable operationReason
                   else if truthy frozen
                   then unavailable (Str ''Unfreeze the product before exporting.'')
                   else if \<not> ps_known state \<or> \<not> isExportableState state
                   then unavailable (Str ''Export is unavailable in the current workflow state.'')
                   else available)
              | None \<Rightarrow>
                  (if mutating then unavailable operationReason
                   else if truthy frozen
                   then unavailable (Str ''Unfreeze the product before exporting.'')
                   else if \<not> ps_known state \<or> \<not> isExportableState state
                   then unavailable (Str ''Export is unavailable in the current workflow state.'')
                   else available))"

section \<open>Properties\<close>

lemmas availability_defs = available_def unavailable_def hidden_def

lemma in_state_known: "in_state ids names (getProductState a) \<Longrightarrow> ps_known (getProductState a)"
  by (auto simp: in_state_def getProductState_def Let_def)

lemma mutation_enabled:
  "\<not> av_disabled (createMutationAvailability m) \<longleftrightarrow>
   hasDatasetName m \<and> \<not> productHasRunningMutation m \<and> \<not> exportHasRunningAction m"
  by (simp add: createMutationAvailability_def availability_defs)

lemma send_capability_enabled:
  "\<not> av_disabled (createSendToIcEncCapabilityAvailability c) \<longleftrightarrow>
   field c ''mode'' = Str ''Simulation'' \<and> field c ''available'' = JBool True"
  by (simp add: createSendToIcEncCapabilityAvailability_def availability_defs Let_def)

lemma send_enabled:
  "\<not> av_disabled (createSendAvailability m frozen (getProductState a) c) \<longleftrightarrow>
   \<not> av_disabled (createMutationAvailability m) \<and> \<not> frozen \<and>
   isExportedState (getProductState a) \<and>
   field c ''mode'' = Str ''Simulation'' \<and> field c ''available'' = JBool True"
  using in_state_known [of _ _ a] send_capability_enabled [of c]
  by (auto simp: createSendAvailability_def isExportedState_def unavailable_def)

lemma rollback_enabled:
  "\<not> av_disabled (createRollbackAvailability m (getProductState a)) \<longleftrightarrow>
   \<not> av_disabled (createMutationAvailability m) \<and> isCancelableCandidateState (getProductState a)"
  using in_state_known [of _ _ a]
  by (auto simp: createRollbackAvailability_def isCancelableCandidateState_def availability_defs)

lemma export_root_enabled:
  "\<not> av_disabled (createExportRootAvailability m) \<longleftrightarrow>
   hasDatasetName m \<and> \<not> productHasRunningMutation m"
  by (simp add: createExportRootAvailability_def availability_defs)

lemma capability_enabled:
  "\<not> av_disabled (capabilityAvailability ctx name a) \<longleftrightarrow>
   (ctx = Undef \<or> productContextSupportsCapability ctx (Str name)) \<and> \<not> av_disabled a"
  by (auto simp: capabilityAvailability_def hidden_def productContextSupportsCapability_def)

text \<open>
  C18. An action of a product is enabled exactly when its guard holds. Every mutation needs a data set
  name, the capability of the source and that neither a mutation nor an export runs; besides, freezing
  needs a product that is not in transit, sending needs an unfrozen exported product and an available
  simulation, and cancelling an export needs an unverified candidate of the selected source. Only the
  export menu stays open while an export runs.
\<close>

theorem action_enabled_iff:
  assumes "r = createProductActionAvailability attributes ctx frozen exporting mutating reason sendCap"
  shows
    "(av_disabled (act_freeze r) \<longleftrightarrow> \<not> ((ctx = Undef \<or> productContextSupportsCapability ctx (Str ''freeze'')) \<and>
        truthy (action_datasetName attributes) \<and> \<not> mutating \<and> \<not> exporting \<and>
        \<not> isInTransitState (getProductState attributes))) \<and>
     (av_disabled (act_unfreeze r) \<longleftrightarrow> \<not> ((ctx = Undef \<or> productContextSupportsCapability ctx (Str ''unfreeze'')) \<and>
        truthy (action_datasetName attributes) \<and> \<not> mutating \<and> \<not> exporting)) \<and>
     (av_disabled (act_send r) \<longleftrightarrow> \<not> ((ctx = Undef \<or> productContextSupportsCapability ctx (Str ''sendToIcEnc'')) \<and>
        truthy (action_datasetName attributes) \<and> \<not> mutating \<and> \<not> exporting \<and> \<not> truthy frozen \<and>
        isExportedState (getProductState attributes) \<and>
        field sendCap ''mode'' = Str ''Simulation'' \<and> field sendCap ''available'' = JBool True)) \<and>
     (av_disabled (act_rollback r) \<longleftrightarrow> \<not> ((ctx = Undef \<or> productContextSupportsCapability ctx (Str ''cancelExport'')) \<and>
        truthy (action_datasetName attributes) \<and> \<not> mutating \<and> \<not> exporting \<and>
        isCancelableCandidateState (getProductState
          (Obj [(''status'', field (findSelectedProductExport attributes ctx) ''status'')])))) \<and>
     (av_disabled (act_exportRoot r) \<longleftrightarrow> \<not> ((ctx = Undef \<or> productContextSupportsCapability ctx (Str ''popupExport'')) \<and>
        truthy (action_datasetName attributes) \<and> \<not> mutating))"
proof -
  let ?m = "\<lparr>hasDatasetName = truthy (action_datasetName attributes), exportHasRunningAction = exporting,
     productHasRunningMutation = mutating, productOperationDisabledReason = reason\<rparr>"
  let ?ok = "truthy (action_datasetName attributes) \<and> \<not> mutating \<and> \<not> exporting"
  have cap: "av_disabled (capabilityAvailability ctx n a) \<longleftrightarrow>
      \<not> ((ctx = Undef \<or> productContextSupportsCapability ctx (Str n)) \<and> P)"
    if "av_disabled a \<longleftrightarrow> \<not> P" for n a P
    using capability_enabled [of ctx n a] that by blast
  have m: "av_disabled (createMutationAvailability ?m) \<longleftrightarrow> \<not> ?ok"
    using mutation_enabled [of ?m] by (simp only: mutation_context.simps) blast
  have freeze: "av_disabled (if isInTransitState p then unavailable w else createMutationAvailability ?m) \<longleftrightarrow>
      \<not> (truthy (action_datasetName attributes) \<and> \<not> mutating \<and> \<not> exporting \<and> \<not> isInTransitState p)" for p w
    using m by (simp add: unavailable_def)
  have send: "av_disabled (createSendAvailability ?m (truthy frozen) (getProductState attributes) sendCap) \<longleftrightarrow>
      \<not> (truthy (action_datasetName attributes) \<and> \<not> mutating \<and> \<not> exporting \<and> \<not> truthy frozen \<and>
        isExportedState (getProductState attributes) \<and>
        field sendCap ''mode'' = Str ''Simulation'' \<and> field sendCap ''available'' = JBool True)"
    using send_enabled [of ?m "truthy frozen" attributes sendCap] m by blast
  have roll: "av_disabled (createRollbackAvailability ?m (getProductState x)) \<longleftrightarrow>
      \<not> (truthy (action_datasetName attributes) \<and> \<not> mutating \<and> \<not> exporting \<and>
        isCancelableCandidateState (getProductState x))" for x
    using rollback_enabled [of ?m x] m by blast
  have root: "av_disabled (createExportRootAvailability ?m) \<longleftrightarrow>
      \<not> (truthy (action_datasetName attributes) \<and> \<not> mutating)"
    using export_root_enabled [of ?m] by (simp only: mutation_context.simps) blast
  show ?thesis
    unfolding assms createProductActionAvailability_def Let_def action_availability.simps
    by (intro conjI cap freeze m send roll root)
qed

definition exported_product :: js where
  "exported_product = Obj [(''datasetName'', Str ''DK1''), (''status'', Str ''Exported'')]"

definition simulation :: js where
  "simulation = Obj [(''mode'', Str ''Simulation''), (''available'', JBool True)]"

theorem action_enabled_iff_witness:
  "\<not> av_disabled (act_send (createProductActionAvailability exported_product Undef (JBool False)
     False False Null simulation)) \<and>
   av_disabled (act_send (createProductActionAvailability exported_product Undef (JBool False)
     True False Null simulation))"
proof -
  have "truthy (action_datasetName exported_product)" "\<not> truthy (JBool False)"
    "isExportedState (getProductState exported_product)"
    "field simulation ''mode'' = Str ''Simulation''" "field simulation ''available'' = JBool True"
    by code_simp+
  with action_enabled_iff [OF refl, of exported_product Undef "JBool False" False False Null simulation]
    action_enabled_iff [OF refl, of exported_product Undef "JBool False" True False Null simulation]
  show ?thesis by simp
qed

text \<open>
  C19. An export of a product is enabled exactly when the product has a data set name and is in an
  exportable state, the source supports the export and implements it, no export that overlaps runs, no
  mutation runs and the product is not frozen; it is shown as loading only while it runs itself.
\<close>

theorem export_enabled_iff:
  assumes "a = createProductExportAvailability attributes ctx capability reason frozen implemented
             (Some v) mutating operationReason"
  shows "av_visible a \<and>
         (av_disabled a \<longleftrightarrow> \<not> (truthy (action_datasetName attributes) \<and>
            supportsCapability ctx capability \<and> implemented = JBool True \<and>
            \<not> xv_running v \<and> \<not> xv_blocked v \<and> \<not> mutating \<and> \<not> truthy frozen \<and>
            isExportableState (getProductState attributes))) \<and>
         (av_loading a \<longleftrightarrow> truthy (action_datasetName attributes) \<and>
            supportsCapability ctx capability \<and> implemented = JBool True \<and> xv_running v)"
  using assms in_state_known [of _ _ attributes]
  by (auto simp: createProductExportAvailability_def isExportableState_def availability_defs Let_def)

theorem export_enabled_iff_witness:
  "\<not> av_disabled (createProductExportAvailability exported_product Undef (Str ''exportEdition'') Null
      (JBool False) (JBool True) (Some createAvailableState) False Null)"
proof -
  have "truthy (action_datasetName exported_product)" "\<not> truthy (JBool False)"
    "supportsCapability Undef (Str ''exportEdition'')" "\<not> xv_running createAvailableState"
    "\<not> xv_blocked createAvailableState" "isExportableState (getProductState exported_product)"
    by code_simp+
  with export_enabled_iff [OF refl, of exported_product Undef "Str ''exportEdition''" Null "JBool False"
      "JBool True" createAvailableState False Null]
  show ?thesis by simp
qed

end
