(* ===== verification/DataSourceRegistry.thy ===== *)
theory DataSourceRegistry
  imports ProductContexts
begin

text \<open>
  \<open>features/dataSources/config/dataSourceRegistry.js\<close>: the contract of every data source of the
  client, as the object literals of the source, and the selection of the sources that can be used;
  \<open>dataSources/domain/encPackageStatus.js\<close>: the status of an ENC package. A field that holds a
  function holds its name here. Freezing has no counterpart in the model.
\<close>

section \<open>The status of an ENC package\<close>

definition ENC_PACKAGE_STATUSES :: "(int \<times> string) list" where
  "ENC_PACKAGE_STATUSES =
     [(0, ''Idle''), (2, ''Ready''), (3, ''InTransit''), (4, ''Error''), (5, ''Hold'')]"

definition status_by_id :: "int \<Rightarrow> int option" where
  "status_by_id i = map_option fst (List.find (\<lambda>s. fst s = i) ENC_PACKAGE_STATUSES)"

definition status_by_name :: "string \<Rightarrow> int option" where
  "status_by_name n = map_option fst (List.find (\<lambda>s. to_lower (snd s) = n) ENC_PACKAGE_STATUSES)"

definition normalizeEncPackageStatus :: "js \<Rightarrow> int option" where
  "normalizeEncPackageStatus v =
     (case v of
        JNum (JInt i) \<Rightarrow> status_by_id i
      | Str s \<Rightarrow>
          (let token = trim s in
           if token = [] then None
           else case digits_value 10 token of
                  Some n \<Rightarrow> status_by_id (int n)
                | None \<Rightarrow> status_by_name (to_lower token))
      | _ \<Rightarrow> None)"

definition getEncPackageStatusLabel :: "js \<Rightarrow> string" where
  "getEncPackageStatusLabel v =
     (case normalizeEncPackageStatus v of
        None \<Rightarrow> ''Unknown''
      | Some i \<Rightarrow> (case map_of ENC_PACKAGE_STATUSES i of None \<Rightarrow> ''Unknown'' | Some l \<Rightarrow> l))"

definition readEncPackageStatusFilterValues :: "js \<Rightarrow> string list" where
  "readEncPackageStatusFilterValues g =
     (case normalizeEncPackageStatus
        (field (field (field g ''attributes'') ''workUnitStatus'') ''packageStatus'') of
        None \<Rightarrow> [''unknown''] | Some i \<Rightarrow> [int_text i])"

section \<open>Object literals\<close>

definition flags :: "bool \<Rightarrow> string list \<Rightarrow> (string \<times> js) list" where
  "flags b names = map (\<lambda>n. (n, JBool b)) names"

definition DISABLED_OPERATION_CAPABILITIES :: js where
  "DISABLED_OPERATION_CAPABILITIES = Obj (flags False KNOWN_PRODUCT_CAPABILITIES)"

definition WORKSPACE_VISUALIZATION_CAPABILITIES :: js where
  "WORKSPACE_VISUALIZATION_CAPABILITIES =
     spread DISABLED_OPERATION_CAPABILITIES (Obj (flags True
       [''history'', ''icEncReports'', ''internalValidation'', ''popupExport'', ''productCollection'',
        ''productSearch'', ''analyze'', ''review'']))"

definition ACTIVE_ONLY_REFRESH :: js where
  "ACTIVE_ONLY_REFRESH =
     Obj [(''mode'', Str ''active-only''), (''reloadOnReactivate'', JBool True),
          (''retainLastSuccessfulRepresentationOnError'', JBool True)]"

definition SOURCE_AWARE_IDENTITY :: js where
  "SOURCE_AWARE_IDENTITY =
     Obj [(''type'', Str ''stable-product-key''),
          (''fields'', Arr (map Str [''productKey'', ''datasetName'', ''productName'', ''OBJECTID'', ''id''])),
          (''allowFeatureId'', JBool True), (''sourceAware'', JBool True)]"

definition PAPER_CHARTS_MOCK_DATASET_NAME_STRATEGY :: js where
  "PAPER_CHARTS_MOCK_DATASET_NAME_STRATEGY =
     Obj [(''type'', Str ''synthetic-prefix''), (''prefix'', Str ''PAPER-MOCK'')]"

definition S102_MOCK_DATASET_NAME_STRATEGY :: js where
  "S102_MOCK_DATASET_NAME_STRATEGY =
     Obj [(''type'', Str ''replace-leading-product-code''), (''productCode'', Str ''102''),
          (''fallbackPrefix'', Str ''102-MOCK'')]"

definition DEFAULT_PRODUCT_SEARCH :: js where
  "DEFAULT_PRODUCT_SEARCH =
     Obj [(''supported'', JBool True),
          (''fields'', Arr (map Str [''datasetName'', ''productName'', ''productKey'']))]"

definition isConfigured :: "string \<Rightarrow> string list option \<Rightarrow> bool" where
  "isConfigured sourceId configured =
     (case configured of None \<Rightarrow> True | Some ids \<Rightarrow> sourceId \<in> set ids)"

definition normalizeConfiguredSourceIds :: "js \<Rightarrow> string list option" where
  "normalizeConfiguredSourceIds v =
     (if is_nullish v then None
      else Some (set_of_list (filter (\<lambda>t. t \<noteq> [])
        (map text_of (if is_array v then elements v else [v])))))"

section \<open>The electronic sources\<close>

definition electronic_content :: js where
  "electronic_content =
     Obj [(''history'', content_entry ''electronic-history''),
          (''icEncReports'', Obj [(''visible'', JBool True), (''implemented'', JBool False),
             (''loaderId'', Null),
             (''availabilityReason'', Str ''The backend does not provide IC-ENC reports.'')]),
          (''internalValidation'', content_entry ''electronic-artifacts'')]"

definition excluded_values :: "string \<Rightarrow> string \<Rightarrow> js" where
  "excluded_values name val =
     Arr [Obj [(''fieldName'', Str name), (''values'', Arr [Str val])]]"

definition createElectronicSource ::
    "string \<Rightarrow> string \<Rightarrow> string \<Rightarrow> string list option \<Rightarrow> string \<Rightarrow> bool \<Rightarrow> bool \<Rightarrow> bool \<Rightarrow> js \<Rightarrow> js \<Rightarrow> js" where
  "createElectronicSource sid label productType configured specification freezeSupported
       enabledInSchema1 selectable workUnit workUnitSourceId =
     (let package = truthy workUnit in
      Obj
       [(''id'', Str sid), (''label'', Str label), (''productType'', Str productType),
        (''enabledByConfiguration'', JBool (isConfigured sid configured)),
        (''availability'', Obj [(''state'', Str ''available''), (''reason'', Null)]),
        (''userSelectable'', JBool selectable), (''defaultEnabled'', JBool selectable),
        (''workUnit'', workUnit),
        (''targetedStatus'',
         if field workUnit ''kind'' = Str ''package''
         then Obj [(''type'', Str ''electronic-package-status''), (''path'', Str ''electronicproducts'')]
         else Null),
        (''loader'',
         if package
         then Obj [(''type'', Str ''http-json''), (''path'', Str ''electronicproducts/aoi?layer=ENC''),
                   (''errorMessage'', Str (label @ '' AOI request failed''))]
         else Null),
        (''normalizer'', spread
           (Obj [(''type'', Str ''electronic-aoi''), (''specification'', Str specification)])
           (if package
            then Obj [(''packageMembers'', Obj
                   [(''s101'', Obj [(''field'', Str ''S101''), (''specification'', JNum (JInt 1))]),
                    (''s57'', Obj [(''field'', Str ''S57''), (''specification'', JNum (JInt 0))])])]
            else Obj [])),
        (''persistence'', Obj [(''enabledInSchema1'', JBool enabledInSchema1),
                               (''persistSelection'', JBool selectable)]),
        (''identityStrategy'', Obj
           [(''type'', Str ''stable-product-key''), (''fields'', Arr [Str ''datasetName'']),
            (''allowFeatureId'', JBool False), (''sourceAware'', JBool True)]),
        (''layerDefinitions'', Arr [spread
           (Obj [(''id'', Str (sid @ ''-products'')), (''title'', Str label), (''type'', Str ''graphics''),
                 (''dataFormat'', Str ''esri-json''), (''layerKind'', Str ''electronic-products''),
                 (''capabilities'', all_true
                   [''supportsPopup'', ''supportsPopupActions'', ''supportsProductActions'',
                    ''supportsDisplayScale'', ''supportsAttributeFilters'', ''supportsProductHistory'',
                    ''supportsOverlapPicker'', ''supportsProductSearch''])])
           (if package
            then Obj [(''symbolization'', Obj [(''type'', Str ''work-unit-package-status'')])]
            else Obj [])]),
        (''capabilities'', spread WORKSPACE_VISUALIZATION_CAPABILITIES (Obj
           [(''freeze'', JBool (\<not> package \<and> freezeSupported)),
            (''unfreeze'', JBool (\<not> package \<and> freezeSupported)),
            (''sendToIcEnc'', JBool (\<not> package)), (''cancelExport'', JBool (\<not> package)),
            (''exportEdition'', JBool (\<not> package)), (''exportUpdate'', JBool (\<not> package)),
            (''popupExport'', JBool (\<not> package)), (''backendProductRefresh'', JBool True)])),
        (''exportConfiguration'',
         if package then Obj [(''visible'', JBool False), (''leaves'', Arr [])]
         else createElectronicExportConfiguration (Str specification) (Str label)),
        (''contentConfiguration'', electronic_content),
        (''workspace'', spread
           (Obj [(''supported'', JBool True), (''providerType'', Str ''registry-source''),
                 (''resolution'', Str ''targeted-product-aoi'')])
           (if truthy workUnitSourceId then Obj [(''workUnitSourceId'', workUnitSourceId)] else Obj [])),
        (''filtering'', Obj
           [(''supported'', JBool True),
            (''definitions'',
             if package
             then Arr [Obj [(''fieldName'', Str ''packageStatus''),
                            (''readValues'', Str ''readEncPackageStatusFilterValues'')],
                       Str ''displayScale'', Str ''usageBand'']
             else Arr (map Str [''status'', ''displayScale'', ''usageBand''])),
            (''defaultExcludedValues'',
             if package then excluded_values ''packageStatus'' ''0'' else excluded_values ''status'' ''1''),
            (''useLookupOptions'', JBool True)]),
        (''search'', DEFAULT_PRODUCT_SEARCH), (''refreshStrategy'', ACTIVE_ONLY_REFRESH)])"

section \<open>The mock sources\<close>

definition unavailable_content :: "string \<Rightarrow> string \<Rightarrow> js" where
  "unavailable_content subject label =
     Obj [(''visible'', JBool True), (''implemented'', JBool False), (''loaderId'', Null),
          (''availabilityReason'', Str (subject @ '' not available for '' @ label @ '' yet.''))]"

definition createUnavailableWorkspaceContentConfiguration :: "string \<Rightarrow> js" where
  "createUnavailableWorkspaceContentConfiguration label =
     Obj [(''history'', unavailable_content ''Product History is'' label),
          (''icEncReports'', unavailable_content ''IC-ENC reports are'' label),
          (''internalValidation'', unavailable_content ''Internal validation is'' label)]"

definition unavailable_leaf :: "string \<Rightarrow> string \<Rightarrow> js" where
  "unavailable_leaf kind reason =
     Obj [(''id'', Str (''export-'' @ to_lower kind)), (''label'', Str kind), (''operationKind'', Str kind),
          (''capability'', Str (''export'' @ kind)), (''visible'', JBool True),
          (''implemented'', JBool False), (''backendTarget'', Null), (''handlerId'', Null),
          (''availabilityReason'', Str reason)]"

definition createUnavailableExportConfiguration :: "string \<Rightarrow> js" where
  "createUnavailableExportConfiguration reason =
     Obj [(''visible'', JBool True), (''helpText'', Str reason),
          (''leaves'', Arr [unavailable_leaf ''Edition'' reason, unavailable_leaf ''Update'' reason])]"

definition createMockSource ::
    "string \<Rightarrow> string \<Rightarrow> string \<Rightarrow> string \<Rightarrow> string \<Rightarrow> string \<Rightarrow> string list \<Rightarrow> js \<Rightarrow> bool \<Rightarrow>
       string list option \<Rightarrow> js" where
  "createMockSource sid label productType endpoint layerId layerKind filters strategy mocksEnabled
       configured =
     (let enabled = isConfigured sid configured \<and> mocksEnabled in
      Obj
       [(''id'', Str sid), (''label'', Str label), (''enabledByConfiguration'', JBool enabled),
        (''availability'',
         if enabled then Obj [(''state'', Str ''available''), (''reason'', Null)]
         else Obj [(''state'', Str ''unavailable''),
                   (''reason'', Str ''The mock source is unavailable in this environment.'')]),
        (''userSelectable'', JBool enabled), (''defaultEnabled'', JBool True),
        (''loader'',
         if enabled
         then Obj [(''type'', Str ''http-json''), (''path'', Str endpoint),
                   (''errorMessage'', Str (label @ '' mock request failed''))]
         else Null),
        (''normalizer'', Obj [(''type'', Str ''geojson-products''), (''datasetNameStrategy'', strategy)]),
        (''persistence'', Obj [(''persistSelection'', JBool False)]),
        (''identityStrategy'', SOURCE_AWARE_IDENTITY),
        (''layerDefinitions'', Arr [Obj
           [(''id'', Str layerId), (''title'', Str label), (''type'', Str ''graphics''),
            (''dataFormat'', Str ''geojson''), (''layerKind'', Str layerKind),
            (''capabilities'', Obj
              [(''supportsPopup'', JBool True), (''supportsPopupActions'', JBool True),
               (''supportsProductActions'', JBool False), (''supportsDisplayScale'', JBool False),
               (''supportsAttributeFilters'', JBool True), (''supportsProductHistory'', JBool False),
               (''supportsOverlapPicker'', JBool True), (''supportsProductSearch'', JBool True)])]]),
        (''capabilities'', WORKSPACE_VISUALIZATION_CAPABILITIES),
        (''exportConfiguration'',
         createUnavailableExportConfiguration (label @ '' export is not available yet.'')),
        (''contentConfiguration'', createUnavailableWorkspaceContentConfiguration label),
        (''workspace'', Obj [(''supported'', JBool True), (''providerType'', Str ''registry-source'')]),
        (''filtering'', Obj [(''supported'', JBool True), (''definitions'', Arr (map Str filters)),
           (''defaultExcludedValues'', Arr []), (''useLookupOptions'', JBool False)]),
        (''search'', DEFAULT_PRODUCT_SEARCH), (''productType'', Str productType),
        (''refreshStrategy'', ACTIVE_ONLY_REFRESH)])"

section \<open>The registry\<close>

record source_registry =
  definitions :: "js list"
  byId :: "(string, js) jmap"

definition source_id :: "js \<Rightarrow> string" where
  "source_id source = js_str (field source ''id'')"

definition freezeRegistry :: "js list \<Rightarrow> source_registry" where
  "freezeRegistry ds = \<lparr>definitions = ds, byId = jm_of (map (\<lambda>d. (source_id d, d)) ds)\<rparr>"

definition package_work_unit :: js where
  "package_work_unit =
     Obj [(''kind'', Str ''package''), (''primaryMemberKey'', Str ''s101''),
          (''navigationCapabilities'', Obj (flags True [''analyze'', ''review'', ''history''])),
          (''members'', Arr
             [Obj [(''key'', Str ''s101''), (''label'', Str ''S-101''), (''exportStandard'', Str ''S100''),
                   (''sourceId'', Str ''s101'')],
              Obj [(''key'', Str ''s57''), (''label'', Str ''S-57''), (''exportStandard'', Str ''S57''),
                   (''sourceId'', Str ''s57'')]])]"

definition createDataSourceRegistry :: "bool \<Rightarrow> bool \<Rightarrow> js \<Rightarrow> source_registry" where
  "createDataSourceRegistry isDevelopment mockDataSourcesEnabled configuredSourceIds =
     (let configured = normalizeConfiguredSourceIds configuredSourceIds;
          mocks = isDevelopment \<or> mockDataSourcesEnabled
      in freezeRegistry
        [createElectronicSource ''s57'' ''S-57'' ''s57-product'' configured ''S57'' False False False
           Null (Str ''s101''),
         createElectronicSource ''s101'' ''ENC-package'' ''s101-product'' configured ''S101'' True True True
           package_work_unit Null,
         createMockSource ''paper-charts'' ''Paper Charts'' ''paper-chart'' ''mock/paper-charts''
           ''paper-charts-products'' ''paper-chart-products'' [''status'', ''displayScale'', ''usageBand'']
           PAPER_CHARTS_MOCK_DATASET_NAME_STRATEGY mocks configured,
         createMockSource ''s102'' ''S-102'' ''s102-product'' ''mock/s102'' ''s102-products''
           ''s102-products'' [''status''] S102_MOCK_DATASET_NAME_STRATEGY mocks configured])"

definition getDataSourceDefinition :: "source_registry \<Rightarrow> js \<Rightarrow> js option" where
  "getDataSourceDefinition registry sourceId = jm_get (byId registry) (text_of sourceId)"

definition isRuntimeSelectableDataSource :: "js \<Rightarrow> bool" where
  "isRuntimeSelectableDataSource source =
     (truthy (field source ''enabledByConfiguration'') \<and> truthy (field source ''userSelectable'') \<and>
      field (field source ''availability'') ''state'' = Str ''available'' \<and>
      truthy (field source ''loader''))"

definition getRuntimeSelectableDataSources :: "source_registry \<Rightarrow> js list" where
  "getRuntimeSelectableDataSources registry =
     filter isRuntimeSelectableDataSource (definitions registry)"

definition getDefaultEnabledSourceIds :: "source_registry \<Rightarrow> string list" where
  "getDefaultEnabledSourceIds registry =
     map source_id (filter (\<lambda>source. truthy (field source ''defaultEnabled''))
       (getRuntimeSelectableDataSources registry))"

definition isWorkspaceAvailableDataSource :: "js \<Rightarrow> bool" where
  "isWorkspaceAvailableDataSource source =
     (truthy (field source ''enabledByConfiguration'') \<and>
      truthy (field (field source ''workspace'') ''supported'') \<and>
      field (field source ''availability'') ''state'' = Str ''available'' \<and>
      (field (field source ''workspace'') ''resolution'' = Str ''targeted-product-aoi'' \<or>
       truthy (field source ''loader'')))"

definition isMockDataSourcesFlagEnabled :: "js \<Rightarrow> bool" where
  "isMockDataSourcesFlagEnabled v = (lower_text v = ''true'')"

section \<open>Properties\<close>

lemma electronic_selectable:
  "isRuntimeSelectableDataSource (createElectronicSource sid l t cfg sp fr sc sel wu wus) \<longleftrightarrow>
   isConfigured sid cfg \<and> sel \<and> truthy wu"
  by (simp add: isRuntimeSelectableDataSource_def createElectronicSource_def Let_def)

lemma mock_selectable:
  "isRuntimeSelectableDataSource (createMockSource sid l t e li lk f st mocks cfg) \<longleftrightarrow>
   isConfigured sid cfg \<and> mocks"
  by (simp add: isRuntimeSelectableDataSource_def createMockSource_def Let_def)

lemma source_id_created [simp]:
  "source_id (createElectronicSource sid l t cfg sp fr sc sel wu wus) = sid"
  "source_id (createMockSource sid l t e li lk f st mocks cfg) = sid"
  by (simp_all add: source_id_def createElectronicSource_def createMockSource_def Let_def)

lemma registry_definitions:
  "map source_id (definitions (createDataSourceRegistry dev mock cfg)) =
   [''s57'', ''s101'', ''paper-charts'', ''s102'']"
  by (simp add: createDataSourceRegistry_def freezeRegistry_def Let_def)

lemma registry_selectable:
  "map source_id (getRuntimeSelectableDataSources (createDataSourceRegistry dev mock cfg)) =
   filter (\<lambda>i. isConfigured i (normalizeConfiguredSourceIds cfg))
     (''s101'' # (if dev \<or> mock then [''paper-charts'', ''s102''] else []))"
  by (simp add: getRuntimeSelectableDataSources_def createDataSourceRegistry_def freezeRegistry_def
      electronic_selectable mock_selectable package_work_unit_def Let_def)

text \<open>A definition found by its id is the source of that id.\<close>

lemma registry_lookup:
  "getDataSourceDefinition (createDataSourceRegistry dev mock cfg) sid = Some d \<Longrightarrow> source_id d = text_of sid"
  by (auto simp: getDataSourceDefinition_def createDataSourceRegistry_def freezeRegistry_def Let_def
      dest!: map_of_SomeD jm_of_mem)

lemma capabilities_created:
  "field (createElectronicSource sid l t cfg sp fr sc sel wu wus) ''capabilities'' =
     spread WORKSPACE_VISUALIZATION_CAPABILITIES (Obj
           [(''freeze'', JBool (\<not> truthy wu \<and> fr)), (''unfreeze'', JBool (\<not> truthy wu \<and> fr)),
            (''sendToIcEnc'', JBool (\<not> truthy wu)), (''cancelExport'', JBool (\<not> truthy wu)),
            (''exportEdition'', JBool (\<not> truthy wu)), (''exportUpdate'', JBool (\<not> truthy wu)),
            (''popupExport'', JBool (\<not> truthy wu)), (''backendProductRefresh'', JBool True)])"
  "field (createMockSource sid l t e li lk f st mocks cfg) ''capabilities'' =
     WORKSPACE_VISUALIZATION_CAPABILITIES"
  by (simp_all add: createElectronicSource_def createMockSource_def Let_def)

definition MUTATING_CAPABILITIES :: "string list" where
  "MUTATING_CAPABILITIES =
     [''freeze'', ''unfreeze'', ''sendToIcEnc'', ''cancelExport'', ''exportEdition'', ''exportUpdate'']"

lemma visualization_not_mutating:
  "c \<in> set MUTATING_CAPABILITIES \<Longrightarrow> field WORKSPACE_VISUALIZATION_CAPABILITIES c = JBool False"
  by (auto simp: MUTATING_CAPABILITIES_def WORKSPACE_VISUALIZATION_CAPABILITIES_def
      DISABLED_OPERATION_CAPABILITIES_def field_spread flags_def KNOWN_PRODUCT_CAPABILITIES_def)

definition package_capabilities :: js where
  "package_capabilities = spread WORKSPACE_VISUALIZATION_CAPABILITIES (Obj
     (flags False (MUTATING_CAPABILITIES @ [''popupExport'']) @ [(''backendProductRefresh'', JBool True)]))"

lemma package_not_mutating:
  "c \<in> set MUTATING_CAPABILITIES \<Longrightarrow> field package_capabilities c = JBool False"
  by (auto simp: package_capabilities_def MUTATING_CAPABILITIES_def field_spread flags_def)

lemma selectable_capabilities:
  assumes "source \<in> set (getRuntimeSelectableDataSources (createDataSourceRegistry dev mock cfg))"
  shows "field source ''capabilities'' \<in> {package_capabilities, WORKSPACE_VISUALIZATION_CAPABILITIES}"
proof -
  have "truthy package_work_unit" by (simp add: package_work_unit_def)
  moreover from assms have "source \<in> set (definitions (createDataSourceRegistry dev mock cfg))"
    and "isRuntimeSelectableDataSource source"
    by (simp_all only: getRuntimeSelectableDataSources_def set_filter mem_Collect_eq)
  ultimately show ?thesis
    by (auto simp: createDataSourceRegistry_def freezeRegistry_def electronic_selectable capabilities_created package_capabilities_def flags_def
        MUTATING_CAPABILITIES_def Let_def)
qed

text \<open>
  C20. The sources a user can select on the map are the ENC package and, in development or with the
  mock flag only, the two mock sources, each when it is configured. None of them declares a capability
  that changes a product: on the map an ENC package is handled as a whole.
\<close>

theorem selectable_sources:
  assumes "reg = createDataSourceRegistry dev mock cfg"
    and "source \<in> set (getRuntimeSelectableDataSources reg)" and "c \<in> set MUTATING_CAPABILITIES"
  shows "map source_id (getRuntimeSelectableDataSources reg) =
           filter (\<lambda>i. isConfigured i (normalizeConfiguredSourceIds cfg))
             (''s101'' # (if dev \<or> mock then [''paper-charts'', ''s102''] else [])) \<and>
         field (field source ''capabilities'') c = JBool False"
proof
  show "map source_id (getRuntimeSelectableDataSources reg) =
           filter (\<lambda>i. isConfigured i (normalizeConfiguredSourceIds cfg))
             (''s101'' # (if dev \<or> mock then [''paper-charts'', ''s102''] else []))"
    unfolding assms(1) by (rule registry_selectable)
  from assms(2) have "field source ''capabilities'' \<in> {package_capabilities, WORKSPACE_VISUALIZATION_CAPABILITIES}"
    unfolding assms(1) by (rule selectable_capabilities)
  with visualization_not_mutating [OF assms(3)] package_not_mutating [OF assms(3)]
  show "field (field source ''capabilities'') c = JBool False" by auto
qed

theorem selectable_sources_witness:
  "map source_id (getRuntimeSelectableDataSources (createDataSourceRegistry False False Undef)) =
     [''s101''] \<and>
   field (field (getRuntimeSelectableDataSources (createDataSourceRegistry False False Undef) ! 0)
     ''capabilities'') ''freeze'' = JBool False"
proof -
  let ?reg = "createDataSourceRegistry False False Undef"
  have "getRuntimeSelectableDataSources ?reg ! 0 \<in> set (getRuntimeSelectableDataSources ?reg)"
    and "''freeze'' \<in> set MUTATING_CAPABILITIES"
    by code_simp+
  from selectable_sources [OF refl this] show ?thesis
    by (simp add: normalizeConfiguredSourceIds_def isConfigured_def)
qed

lemma normalizeEncPackageStatus_range:
  "normalizeEncPackageStatus v = Some i \<Longrightarrow> i \<in> fst ` set ENC_PACKAGE_STATUSES"
  by (force simp: normalizeEncPackageStatus_def status_by_id_def status_by_name_def Let_def
      dest: find_SomeD split: js.splits jsnum.splits if_splits option.splits)

end
