(* ===== verification/Dedup.thy ===== *)
theory Dedup
  imports Main
begin

text \<open>
  The contract of the normalising loops of the clients: each value of a list is normalised or dropped,
  and of the normalised values with one key the first is kept, in order. The locale proves once that
  the result has distinct keys, covers every key, and is left alone by a second pass.
\<close>

locale dedup =
  fixes norm :: "'a \<Rightarrow> 'b option"
    and key :: "'b \<Rightarrow> 'k"
    and embed :: "'b \<Rightarrow> 'a"
  assumes norm_embed: "norm x = Some y \<Longrightarrow> norm (embed y) = Some y"
begin

fun collect :: "'b list \<Rightarrow> 'a list \<Rightarrow> 'b list" where
  "collect acc [] = acc"
| "collect acc (x # xs) =
     (case norm x of
        None \<Rightarrow> collect acc xs
      | Some y \<Rightarrow> if key y \<in> key ` set acc then collect acc xs else collect (acc @ [y]) xs)"

lemma collect_distinct: "distinct (map key acc) \<Longrightarrow> distinct (map key (collect acc xs))"
  by (induction acc xs rule: collect.induct) (auto split: option.split)

lemma collect_keys:
  "key ` set (collect acc xs) = key ` set acc \<union> {key y | x y. x \<in> set xs \<and> norm x = Some y}"
proof (induction acc xs rule: collect.induct)
  case (2 acc x xs)
  then show ?case by (cases "norm x") auto
qed simp

lemma collect_prefix: "\<exists>ys. collect acc xs = acc @ ys \<and> (\<forall>y \<in> set ys. \<exists>x \<in> set xs. norm x = Some y)"
proof (induction acc xs rule: collect.induct)
  case (2 acc x xs)
  show ?case
  proof (cases "norm x")
    case None
    with 2(1) show ?thesis by auto
  next
    case (Some y)
    show ?thesis
    proof (cases "key y \<in> key ` set acc")
      case True
      with 2(2) Some show ?thesis by auto
    next
      case False
      with 2(3) Some obtain ys where "collect (acc @ [y]) xs = (acc @ [y]) @ ys"
        and "\<forall>z \<in> set ys. \<exists>x \<in> set xs. norm x = Some z" by blast
      with Some False show ?thesis by (intro exI [of _ "y # ys"]) auto
    qed
  qed
qed simp

lemma collect_normal: "y \<in> set (collect [] xs) \<Longrightarrow> norm (embed y) = Some y"
  using collect_prefix [of "[]" xs] by (auto intro: norm_embed)

lemma collect_fixed:
  "\<lbrakk>\<forall>y \<in> set ys. norm (embed y) = Some y; distinct (map key (acc @ ys))\<rbrakk> \<Longrightarrow>
   collect acc (map embed ys) = acc @ ys"
  by (induction ys arbitrary: acc) auto

theorem collect_again: "collect [] (map embed (collect [] xs)) = collect [] xs"
  using collect_fixed [of "collect [] xs" "[]"] collect_normal collect_distinct [of "[]" xs] by simp

lemma collect_distinct_nil: "distinct (map key (collect [] xs))"
  by (simp add: collect_distinct)

end

end
