(* ===== verification/DataSourcePersistence.thy ===== *)
theory DataSourcePersistence
  imports DataSourceRegistry Dedup
begin

text \<open>
  \<open>features/dataSources/domain/dataSourcePersistence.js\<close>: the selection of data sources a user
  leaves in the browser's storage. The stored text is modelled by what \<open>JSON.parse\<close> makes of it:
  no item, an item that is not JSON, or a value; \<open>JSON.stringify\<close> of a value is parsed back to it.
  Each access to the storage may throw.
\<close>

section \<open>Storage\<close>

datatype stored_item = Missing | Malformed | Parsed js

record source_storage =
  stored :: stored_item
  get_throws :: bool
  set_throws :: bool
  remove_throws :: bool

record selection =
  sel_status :: string
  enabledSourceIds :: "string list"
  preservedUnavailableSourceIds :: "string list"
  shouldPersist :: bool
  isFirstVisit :: bool
  hasRuntimeSelectableSources :: bool

section \<open>Ids\<close>

fun normalize_ids_from :: "string list \<Rightarrow> js list \<Rightarrow> string list" where
  "normalize_ids_from normalized [] = normalized"
| "normalize_ids_from normalized (v # vs) =
     (let i = text_of v in
      if i = [] \<or> i \<in> set normalized then normalize_ids_from normalized vs
      else normalize_ids_from (normalized @ [i]) vs)"

definition normalizeIds :: "js \<Rightarrow> string list" where
  "normalizeIds values = normalize_ids_from [] (elements values)"

definition getPersistableSourceIds :: "source_registry \<Rightarrow> string list" where
  "getPersistableSourceIds registry =
     set_of_list (map source_id
       (filter (\<lambda>source. field (field source ''persistence'') ''persistSelection'' \<noteq> JBool False)
         (definitions registry)))"

section \<open>Reading\<close>

definition createFallbackResult :: "string \<Rightarrow> string list \<Rightarrow> bool \<Rightarrow> bool \<Rightarrow> selection" where
  "createFallbackResult status ids hasSelectable hasPersistable =
     \<lparr>sel_status = status, enabledSourceIds = ids, preservedUnavailableSourceIds = [],
      shouldPersist = hasPersistable, isFirstVisit = (status = ''missing''),
      hasRuntimeSelectableSources = hasSelectable\<rparr>"

definition known_schema :: "js \<Rightarrow> bool" where
  "known_schema v = (v \<in> {JNum (JInt 1), JNum (JInt 2)})"

text \<open>The loop over the selectable sources that schema 1 enables.\<close>

fun add_schema1 :: "js list \<Rightarrow> string list \<Rightarrow> string list" where
  "add_schema1 [] ids = ids"
| "add_schema1 (source # sources) ids =
     (if field (field source ''persistence'') ''persistSelection'' \<noteq> JBool False \<and>
         truthy (field (field source ''persistence'') ''enabledInSchema1'') \<and>
         source_id source \<notin> set ids
      then add_schema1 sources (ids @ [source_id source])
      else add_schema1 sources ids)"

definition readDataSourceSelection :: "source_storage \<Rightarrow> source_registry \<Rightarrow> selection" where
  "readDataSourceSelection st registry =
     (let selectable = getRuntimeSelectableDataSources registry;
          hasSelectable = (0 < length selectable);
          persistable = getPersistableSourceIds registry;
          hasPersistable = list_ex (\<lambda>source. source_id source \<in> set persistable) selectable;
          defaults = getDefaultEnabledSourceIds registry;
          fallback = (\<lambda>status. createFallbackResult status defaults hasSelectable hasPersistable)
      in if get_throws st then fallback ''storage-error''
         else case stored st of
           Missing \<Rightarrow> fallback ''missing''
         | Malformed \<Rightarrow> fallback ''invalid-json''
         | Parsed parsed \<Rightarrow>
             if \<not> is_object parsed then fallback ''invalid-shape''
             else if \<not> known_schema (field parsed ''schemaVersion'')
             then fallback ''unsupported-version''
             else if field parsed ''initialized'' \<noteq> JBool True \<or>
                     \<not> is_array (field parsed ''enabledSourceIds'')
             then fallback ''invalid-shape''
             else
               (let selectableIds = map source_id selectable;
                    schema1 = (field parsed ''schemaVersion'' = JNum (JInt 1));
                    normalized = normalizeIds (field parsed ''enabledSourceIds'');
                    kept = filter (\<lambda>i. i \<in> set persistable) normalized;
                    enabled = filter (\<lambda>i. i \<in> set selectableIds) kept;
                    enabled' = (if schema1 then add_schema1 selectable enabled else enabled);
                    invalid = (length normalized \<noteq> length (elements (field parsed ''enabledSourceIds'')) \<or>
                               length kept \<noteq> length normalized)
                in \<lparr>sel_status = ''valid'', enabledSourceIds = enabled',
                    preservedUnavailableSourceIds = filter (\<lambda>i. i \<notin> set selectableIds) kept,
                    shouldPersist = (invalid \<or> hasPersistable \<and> schema1),
                    isFirstVisit = False, hasRuntimeSelectableSources = hasSelectable\<rparr>))"

section \<open>Writing\<close>

definition readPersistedSelection :: "source_storage \<Rightarrow> js option" where
  "readPersistedSelection st =
     (if get_throws st then None
      else case stored st of
        Missing \<Rightarrow> None
      | Malformed \<Rightarrow> None
      | Parsed parsed \<Rightarrow>
          if \<not> is_object parsed \<or> \<not> known_schema (field parsed ''schemaVersion'') \<or>
             field parsed ''initialized'' \<noteq> JBool True \<or>
             \<not> is_array (field parsed ''enabledSourceIds'')
          then None else Some parsed)"

definition selection_payload :: "string list \<Rightarrow> js" where
  "selection_payload ids =
     Obj [(''schemaVersion'', JNum (JInt 2)), (''initialized'', JBool True),
          (''enabledSourceIds'', Arr (map Str ids))]"

definition writeDataSourceSelection ::
    "source_storage \<Rightarrow> source_registry \<Rightarrow> js \<Rightarrow> bool \<times> source_storage" where
  "writeDataSourceSelection st registry ids =
     (let selectable = getRuntimeSelectableDataSources registry;
          persistable = getPersistableSourceIds registry;
          selectableIds = map source_id selectable;
          hasPersistable = list_ex (\<lambda>source. source_id source \<in> set persistable) selectable;
          persisted = readPersistedSelection st
      in if \<not> hasPersistable \<and> persisted = None then (True, st)
         else
           (let requested = filter (\<lambda>i. i \<in> set selectableIds \<and> i \<in> set persistable)
                  (normalizeIds ids);
                previous = (case persisted of
                              None \<Rightarrow> [] | Some p \<Rightarrow> normalizeIds (field p ''enabledSourceIds''));
                preserved = filter (\<lambda>i. i \<in> set persistable \<and> i \<notin> set selectableIds) previous;
                enabled = filter (\<lambda>i. i \<in> set persistable \<and> (i \<in> set requested \<or> i \<in> set preserved))
                  (map source_id (definitions registry))
            in if set_throws st then (False, st)
               else (True, st\<lparr>stored := Parsed (selection_payload enabled)\<rparr>)))"

definition removeDataSourceSelection :: "source_storage \<Rightarrow> bool \<times> source_storage" where
  "removeDataSourceSelection st =
     (if remove_throws st then (False, st) else (True, st\<lparr>stored := Missing\<rparr>))"

section \<open>Laws of the ids\<close>

definition plain_id :: "string \<Rightarrow> bool" where
  "plain_id i = (i \<noteq> [] \<and> trim i = i)"

interpretation ids: dedup opt_text "\<lambda>i. i" Str
  by unfold_locales (auto simp: opt_text_Some)

lemma normalize_ids_collect: "normalize_ids_from acc vs = ids.collect acc vs"
proof (induction acc vs rule: normalize_ids_from.induct)
  case (2 acc v vs)
  show ?case
  proof (cases "opt_text v")
    case None
    then have "text_of v = []" by (simp add: opt_text_None)
    with 2 None show ?thesis by simp
  next
    case (Some t)
    then have "t = text_of v" "text_of v \<noteq> []" by (auto simp: opt_text_Some)
    with 2 Some show ?thesis by (simp add: Let_def)
  qed
qed simp

lemma normalizeIds_plain:
  "list_all plain_id ids \<Longrightarrow> distinct ids \<Longrightarrow> normalizeIds (Arr (map Str ids)) = ids"
  using ids.collect_fixed [of ids "[]"]
  by (simp add: normalizeIds_def normalize_ids_collect list_all_iff plain_id_def)

lemma distinct_normalizeIds: "distinct (normalizeIds v)"
  using ids.collect_distinct_nil [of "elements v"] by (simp add: normalizeIds_def normalize_ids_collect)

lemma add_schema1_set:
  "set (add_schema1 sources ids) \<subseteq> set ids \<union> source_id ` set sources"
  by (induction sources ids rule: add_schema1.induct) auto

lemma distinct_add_schema1: "distinct ids \<Longrightarrow> distinct (add_schema1 sources ids)"
  by (induction sources ids rule: add_schema1.induct) auto

definition registry_ok :: "source_registry \<Rightarrow> bool" where
  "registry_ok registry =
     (distinct (map source_id (definitions registry)) \<and>
      list_all plain_id (map source_id (definitions registry)))"

lemma registry_ok_created: "registry_ok (createDataSourceRegistry dev mock cfg)"
  unfolding registry_ok_def registry_definitions
  by (simp add: plain_id_def text_eval)

lemma selectable_ids_subset:
  "source_id ` set (getRuntimeSelectableDataSources registry) \<subseteq> source_id ` set (definitions registry)"
  by (auto simp: getRuntimeSelectableDataSources_def)

lemma persistable_ids_subset:
  "set (getPersistableSourceIds registry) \<subseteq> source_id ` set (definitions registry)"
  by (auto simp: getPersistableSourceIds_def)

text \<open>What a selection promises for a set of selectable ids.\<close>

definition selection_safe :: "string set \<Rightarrow> selection \<Rightarrow> bool" where
  "selection_safe S r =
     (set (enabledSourceIds r) \<subseteq> S \<and> distinct (enabledSourceIds r) \<and>
      set (preservedUnavailableSourceIds r) \<inter> S = {})"

lemma safe_fallback:
  assumes "registry_ok registry"
  shows "selection_safe (source_id ` set (getRuntimeSelectableDataSources registry))
           (createFallbackResult status (getDefaultEnabledSourceIds registry) a b)"
proof -
  have "distinct (map source_id (getRuntimeSelectableDataSources registry))"
    using assms by (simp add: registry_ok_def getRuntimeSelectableDataSources_def distinct_map_filter)
  then have "distinct (getDefaultEnabledSourceIds registry)"
    by (simp add: getDefaultEnabledSourceIds_def distinct_map_filter)
  then show ?thesis
    by (auto simp: selection_safe_def createFallbackResult_def getDefaultEnabledSourceIds_def)
qed

lemma safe_schema:
  "distinct kept \<Longrightarrow>
   selection_safe (source_id ` set sources)
     \<lparr>sel_status = status,
      enabledSourceIds = (if one then add_schema1 sources (filter (\<lambda>i. i \<in> source_id ` set sources) kept)
                          else filter (\<lambda>i. i \<in> source_id ` set sources) kept),
      preservedUnavailableSourceIds = filter (\<lambda>i. i \<notin> source_id ` set sources) kept,
      shouldPersist = a, isFirstVisit = b, hasRuntimeSelectableSources = c\<rparr>"
  using add_schema1_set [of sources "filter (\<lambda>i. i \<in> source_id ` set sources) kept"]
  by (auto simp: selection_safe_def distinct_add_schema1)

section \<open>Properties\<close>

text \<open>
  C21. Whatever the storage holds, of any version, malformed or throwing, reading it enables only
  sources that can be selected in this deployment, each once, and preserves only sources that cannot.
\<close>

theorem read_selection_safe:
  assumes "registry_ok registry"
  shows "set (enabledSourceIds (readDataSourceSelection st registry)) \<subseteq>
           source_id ` set (getRuntimeSelectableDataSources registry) \<and>
         distinct (enabledSourceIds (readDataSourceSelection st registry)) \<and>
         set (preservedUnavailableSourceIds (readDataSourceSelection st registry)) \<inter>
           source_id ` set (getRuntimeSelectableDataSources registry) = {}"
proof -
  have "selection_safe (source_id ` set (getRuntimeSelectableDataSources registry))
      (readDataSourceSelection st registry)"
    unfolding readDataSourceSelection_def Let_def set_map
    by (simp only: safe_fallback [OF assms] safe_schema distinct_filter distinct_normalizeIds
        if_True if_False split: stored_item.split if_split) simp
  then show ?thesis by (simp add: selection_safe_def)
qed

theorem read_selection_safe_witness:
  "set (enabledSourceIds (readDataSourceSelection
      \<lparr>stored = Parsed (Obj [(''schemaVersion'', JNum (JInt 1)), (''initialized'', JBool True),
         (''enabledSourceIds'', Arr [Str ''s57'', Null, Str ''retired''])]),
       get_throws = False, set_throws = False, remove_throws = False\<rparr>
      (createDataSourceRegistry False False Undef))) \<subseteq>
   source_id ` set (getRuntimeSelectableDataSources (createDataSourceRegistry False False Undef))"
  by (rule read_selection_safe [OF registry_ok_created, THEN conjunct1])

text \<open>
  C22. What is written is what is read: when a selection can be stored, reading it back gives a valid
  selection with exactly the requested sources that are selectable and persistable, in the order of
  the registry, keeps the stored choice of every persistable source that is unavailable here, and asks
  for no further write.
\<close>

theorem write_then_read:
  assumes "registry_ok registry" and "\<not> get_throws st" and "\<not> set_throws st"
    and "list_ex (\<lambda>s. source_id s \<in> set (getPersistableSourceIds registry))
           (getRuntimeSelectableDataSources registry)"
    and "writeDataSourceSelection st registry ids = (result, st')"
  shows "result \<and>
         sel_status (readDataSourceSelection st' registry) = ''valid'' \<and>
         enabledSourceIds (readDataSourceSelection st' registry) =
           filter (\<lambda>i. i \<in> set (getPersistableSourceIds registry) \<and>
               i \<in> source_id ` set (getRuntimeSelectableDataSources registry) \<and>
               i \<in> set (normalizeIds ids))
             (map source_id (definitions registry)) \<and>
         preservedUnavailableSourceIds (readDataSourceSelection st' registry) =
           filter (\<lambda>i. i \<in> set (getPersistableSourceIds registry) \<and>
               i \<notin> source_id ` set (getRuntimeSelectableDataSources registry) \<and>
               i \<in> (case readPersistedSelection st of
                      None \<Rightarrow> {} | Some p \<Rightarrow> set (normalizeIds (field p ''enabledSourceIds''))))
             (map source_id (definitions registry)) \<and>
         \<not> shouldPersist (readDataSourceSelection st' registry)"
proof -
  let ?sel = "source_id ` set (getRuntimeSelectableDataSources registry)"
  let ?per = "set (getPersistableSourceIds registry)"
  let ?prev = "case readPersistedSelection st of
      None \<Rightarrow> {} | Some p \<Rightarrow> set (normalizeIds (field p ''enabledSourceIds''))"
  let ?P = "\<lambda>i. i \<in> ?per \<and> (i \<in> ?sel \<and> i \<in> set (normalizeIds ids) \<or> i \<notin> ?sel \<and> i \<in> ?prev)"
  define written where "written = filter ?P (map source_id (definitions registry))"
  have "writeDataSourceSelection st registry ids =
      (True, st\<lparr>stored := Parsed (selection_payload written)\<rparr>)"
  proof -
    have "filter (\<lambda>i. i \<in> ?per \<and> (i \<in> set (filter (\<lambda>i. i \<in> ?sel \<and> i \<in> ?per) (normalizeIds ids)) \<or>
             i \<in> set (filter (\<lambda>i. i \<in> ?per \<and> i \<notin> ?sel)
               (case readPersistedSelection st of
                  None \<Rightarrow> [] | Some p \<Rightarrow> normalizeIds (field p ''enabledSourceIds'')))))
           (map source_id (definitions registry)) = written"
      unfolding written_def by (rule filter_cong) (auto split: option.splits)
    with assms(3,4) show ?thesis
      by (simp add: writeDataSourceSelection_def Let_def del: filter_filter)
  qed
  with assms(5) have res: "result" and st': "st' = st\<lparr>stored := Parsed (selection_payload written)\<rparr>"
    by simp_all
  have "distinct written" "list_all plain_id written"
    using assms(1) by (auto simp: written_def registry_ok_def list_all_iff simp del: filter_map)
  then have norm: "normalizeIds (Arr (map Str written)) = written"
    by (simp add: normalizeIds_plain)
  have per: "filter (\<lambda>i. i \<in> ?per) written = written"
    unfolding written_def by (simp add: filter_id_conv del: filter_map filter_filter)
  have sel: "filter (\<lambda>i. i \<in> ?sel) written =
      filter (\<lambda>i. i \<in> ?per \<and> i \<in> ?sel \<and> i \<in> set (normalizeIds ids)) (map source_id (definitions registry))"
    unfolding written_def filter_filter by (rule filter_cong) auto
  have unsel: "filter (\<lambda>i. i \<notin> ?sel) written =
      filter (\<lambda>i. i \<in> ?per \<and> i \<notin> ?sel \<and> i \<in> ?prev) (map source_id (definitions registry))"
    unfolding written_def filter_filter by (rule filter_cong) auto
  have "readDataSourceSelection st' registry =
      \<lparr>sel_status = ''valid'', enabledSourceIds = filter (\<lambda>i. i \<in> ?sel) written,
       preservedUnavailableSourceIds = filter (\<lambda>i. i \<notin> ?sel) written, shouldPersist = False,
       isFirstVisit = False,
       hasRuntimeSelectableSources = (getRuntimeSelectableDataSources registry \<noteq> [])\<rparr>"
    using assms(2) norm per
    by (simp add: readDataSourceSelection_def st' selection_payload_def known_schema_def Let_def
        del: filter_filter)
  with res sel unsel show ?thesis by simp
qed

definition empty_storage :: source_storage where
  "empty_storage = \<lparr>stored = Missing, get_throws = False, set_throws = False, remove_throws = False\<rparr>"

theorem write_then_read_witness:
  "enabledSourceIds (readDataSourceSelection (snd (writeDataSourceSelection empty_storage
      (createDataSourceRegistry False False Undef) (Arr [Str ''s57'', Str '' s101 ''])))
      (createDataSourceRegistry False False Undef)) = [''s101'']"
proof -
  let ?reg = "createDataSourceRegistry False False Undef" and ?ids = "Arr [Str ''s57'', Str '' s101 '']"
  have st: "\<not> get_throws empty_storage" "\<not> set_throws empty_storage"
    and ex: "list_ex (\<lambda>s. source_id s \<in> set (getPersistableSourceIds ?reg))
       (getRuntimeSelectableDataSources ?reg)"
    and f: "filter (\<lambda>i. i \<in> set (getPersistableSourceIds ?reg) \<and>
               i \<in> source_id ` set (getRuntimeSelectableDataSources ?reg) \<and> i \<in> set (normalizeIds ?ids))
             (map source_id (definitions ?reg)) = [''s101'']"
    by code_simp+
  from write_then_read [OF registry_ok_created st ex surjective_pairing, of ?ids] f
  show ?thesis by simp
qed

end
