(* ===== verification/ProductJobs.thy ===== *)
theory ProductJobs
  imports JsText JsMaps
begin

text \<open>
  \<open>features/products/domain/productJob.js\<close>: the record the client keeps of a backend job and the
  result it makes of the job's final status. A response is a \<open>js\<close> value; \<open>now\<close> is the ISO text of
  the clock.
\<close>

section \<open>Operations and statuses\<close>

definition EXPORT_EDITION :: string where "EXPORT_EDITION = ''ExportEdition''"
definition EXPORT_UPDATE :: string where "EXPORT_UPDATE = ''ExportUpdate''"
definition ROLLBACK_JOB :: string where "ROLLBACK_JOB = ''CancelExport''"
definition SEND_TO_ICENC :: string where "SEND_TO_ICENC = ''SendToIcEnc''"

lemmas job_operations = EXPORT_EDITION_def EXPORT_UPDATE_def ROLLBACK_JOB_def SEND_TO_ICENC_def

definition TERMINAL_STATUSES :: "string list" where
  "TERMINAL_STATUSES = [''succeeded'', ''failed'', ''cancelled'']"

definition is_op :: "string \<Rightarrow> js \<Rightarrow> bool" where
  "is_op name v = (lower_text v = to_lower name)"

definition isExportEditionOperation :: "js \<Rightarrow> bool" where
  "isExportEditionOperation v = is_op EXPORT_EDITION v"

definition isRollbackOperation :: "js \<Rightarrow> bool" where
  "isRollbackOperation v = (lower_text v \<in> {to_lower ROLLBACK_JOB, ''rollback''})"

definition isSendToIcEncOperation :: "js \<Rightarrow> bool" where
  "isSendToIcEncOperation v = is_op SEND_TO_ICENC v"

definition isTerminalProductJobStatus :: "js \<Rightarrow> bool" where
  "isTerminalProductJobStatus status = (lower_text status \<in> set TERMINAL_STATUSES)"

definition productJobOperationsMatch :: "string \<Rightarrow> string \<Rightarrow> bool" where
  "productJobOperationsMatch actual expected =
     (let a = lower_text (Str actual); e = lower_text (Str expected) in
      if a = [] \<or> e = [] then False
      else if a = e then True
      else a = ''newdataset'' \<and> e \<in> {to_lower EXPORT_EDITION, to_lower EXPORT_UPDATE})"

definition resolveProductJobOperation :: "string \<Rightarrow> string \<Rightarrow> string" where
  "resolveProductJobOperation response expected =
     (let a = trim response; e = trim expected in
      if a = [] then e
      else if e = [] then a
      else if productJobOperationsMatch a e then e else [])"

section \<open>Labels\<close>

definition specificationLabel :: "js \<Rightarrow> string" where
  "specificationLabel v =
     (case map_of [(''S100'', ''S-101''), (''S101'', ''S-101''), (''S57'', ''S-57'')] (js_str v) of
        None \<Rightarrow> [] | Some l \<Rightarrow> l)"

definition spaced :: "string \<Rightarrow> string" where
  "spaced label = (if label = [] then [] else label @ '' '')"

definition createProductJobLabel :: "js \<Rightarrow> js \<Rightarrow> string" where
  "createProductJobLabel operationType specification =
     (if isSendToIcEncOperation operationType then ''Simulating IC-ENC send''
      else if isRollbackOperation operationType then ''Canceling export''
      else
        let label = specificationLabel specification in
        if isExportEditionOperation operationType then ''Exporting '' @ spaced label @ ''Edition''
        else if is_op EXPORT_UPDATE operationType then ''Exporting '' @ spaced label @ ''Update''
        else if label \<noteq> [] then ''Exporting '' @ label @ '' export'' else ''Exporting'')"

section \<open>Records\<close>

record product_job =
  jobId :: string
  job_datasetName :: string
  operationType :: string
  exportTarget :: "string option"
  job_label :: string
  createdAt :: string
  correlationId :: "string option"
  statusUrl :: "string option"
  job_status :: "string option"
  job_mode :: "string option"
  deliveryStatus :: "string option"

definition or_text :: "string \<Rightarrow> string \<Rightarrow> string" where
  "or_text a b = (if a = [] then b else a)"

definition record_label :: "js \<Rightarrow> js \<Rightarrow> js \<Rightarrow> string" where
  "record_label op spec label =
     (if isRollbackOperation op \<or> isExportEditionOperation op then createProductJobLabel op spec
      else or_text (text_of label) (createProductJobLabel op spec))"

definition job_record :: "string \<Rightarrow> js \<Rightarrow> string \<Rightarrow> string \<Rightarrow> js \<Rightarrow> js \<Rightarrow> product_job" where
  "job_record now response name op spec label =
     \<lparr>jobId = text_of (field response ''jobId''), job_datasetName = name, operationType = op,
      exportTarget = opt_text spec, job_label = record_label (Str op) spec label,
      createdAt = or_text (text_of (field response ''createdAt'')) now,
      correlationId = opt_text (field response ''correlationId''),
      statusUrl = opt_text (field response ''statusUrl''),
      job_status = opt_text (field response ''status''),
      job_mode = opt_text (field response ''mode''),
      deliveryStatus = opt_text (field response ''deliveryStatus'')\<rparr>"

definition createProductJobRecord ::
    "string \<Rightarrow> js \<Rightarrow> js \<Rightarrow> js \<Rightarrow> js \<Rightarrow> js \<Rightarrow> product_job option" where
  "createProductJobRecord now response dataset operation target label =
     (let name = or_text (text_of (field response ''datasetName'')) (text_of dataset);
          op = resolveProductJobOperation (text_of (field response ''operationType'')) (text_of operation)
      in if truthy (field response ''datasetName'') \<and> truthy dataset \<and>
            lower_text (field response ''datasetName'') \<noteq> lower_text dataset then None
         else if text_of (field response ''jobId'') = [] \<or> name = [] \<or> op = [] then None
         else if isSendToIcEncOperation (Str op) \<and>
                 (opt_text (field response ''mode'') \<noteq> Some ''Simulation'' \<or>
                  opt_text (field response ''deliveryStatus'') \<noteq> Some ''NotDelivered'') then None
         else Some (job_record now response name op
                (nullish (field response ''exportTarget'') target) label))"

definition normalizeStoredProductJob :: "string \<Rightarrow> js \<Rightarrow> product_job option" where
  "normalizeStoredProductJob now v =
     (if \<not> is_object v then None
      else createProductJobRecord now v (field v ''datasetName'') (field v ''operationType'')
             (field v ''exportTarget'') (field v ''label''))"

section \<open>Results\<close>

definition is_word :: "char \<Rightarrow> bool" where
  "is_word c =
     (let n = (of_char (lower_char c) :: nat)
      in 48 \<le> n \<and> n \<le> 57 \<or> 97 \<le> n \<and> n \<le> 122 \<or> c = CHR ''_'')"

text \<open>\<open>/\bphrase\b/i.test(text)\<close> for a phrase that begins and ends with a letter; the flag says
  that the character before is one of a word.\<close>

fun has_phrase :: "string \<Rightarrow> bool \<Rightarrow> string \<Rightarrow> bool" where
  "has_phrase phrase inside [] = False"
| "has_phrase phrase inside (c # cs) =
     (\<not> inside \<and> to_lower (take (length phrase) (c # cs)) = phrase \<and>
      (case drop (length phrase) (c # cs) of [] \<Rightarrow> True | d # _ \<Rightarrow> \<not> is_word d) \<or>
      has_phrase phrase (is_word c) cs)"

definition containsDeliverySuccessWording :: "string \<Rightarrow> bool" where
  "containsDeliverySuccessWording message =
     list_ex (\<lambda>phrase. has_phrase phrase False message)
       [''sent successfully'', ''successfully sent'', ''delivered successfully'', ''successfully delivered'']"

record job_error =
  je_code :: string
  je_message :: string

definition validateSendSimulationResult :: "js \<Rightarrow> job_error option" where
  "validateSendSimulationResult response =
     (let message = text_of (field response ''message'') in
      if text_of (field response ''mode'') = ''Simulation'' \<and>
         text_of (field response ''operationOutcome'') = ''SimulationCompleted'' \<and>
         text_of (field response ''deliveryStatus'') = ''NotDelivered'' \<and>
         has_part (to_lower message) ''no data was sent'' \<and>
         \<not> containsDeliverySuccessWording message
      then None
      else Some \<lparr>je_code = ''SEND_SIMULATION_RESULT_INVALID'',
                 je_message = ''The IC-ENC send simulation returned an invalid terminal result.''\<rparr>)"

definition normalizeJobError :: "js \<Rightarrow> job_error" where
  "normalizeJobError response =
     (let cancelled = (lower_text (field response ''status'') = ''cancelled'');
          nested = field response ''error''
      in \<lparr>je_code = or_text (text_of (field nested ''code'')) (or_text (text_of (field response ''code''))
             (if cancelled then ''JOB_CANCELLED'' else ''JOB_FAILED'')),
          je_message = or_text (text_of (field nested ''message''))
             (or_text (text_of (field response ''message''))
               (if cancelled then ''The operation was cancelled.'' else ''The operation failed.''))\<rparr>)"

definition getProductJobFailureMessage :: "js \<Rightarrow> string" where
  "getProductJobFailureMessage response = je_message (normalizeJobError response)"

record job_result =
  jr_success :: bool
  jr_status :: "int option"
  jr_data :: js
  jr_jobStatus :: js
  jr_warning :: js

definition failed_result :: "js \<Rightarrow> job_error \<Rightarrow> job_result" where
  "failed_result response e =
     \<lparr>jr_success = False, jr_status = None,
      jr_data = spread response (Obj
        [(''code'', Str (je_code e)), (''message'', Str (je_message e)),
         (''error'', Obj [(''code'', Str (je_code e)), (''message'', Str (je_message e))])]),
      jr_jobStatus = response, jr_warning = Undef\<rparr>"

definition createProductJobActionResult :: "js \<Rightarrow> js \<Rightarrow> job_result" where
  "createProductJobActionResult response expectedOperation =
     (let actual = text_of (field response ''operationType''); expected = text_of expectedOperation in
      if expected \<noteq> [] \<and> \<not> productJobOperationsMatch actual expected
      then failed_result response
             \<lparr>je_code = ''JOB_STATUS_INVALID'',
              je_message = ''The operation job returned an unexpected operation type.''\<rparr>
      else if lower_text (field response ''status'') = ''succeeded''
      then (case (if isSendToIcEncOperation (field response ''operationType'')
                  then validateSendSimulationResult response else None) of
              Some e \<Rightarrow> failed_result response e
            | None \<Rightarrow>
                \<lparr>jr_success = True, jr_status = Some 200, jr_data = response,
                 jr_jobStatus = response, jr_warning = nullish (field response ''warning'') Null\<rparr>)
      else failed_result response (normalizeJobError response))"

definition createProductJobCompletionTitle :: "js \<Rightarrow> js \<Rightarrow> string" where
  "createProductJobCompletionTitle job response =
     (let op = field job ''operationType''; label = specificationLabel (field job ''exportTarget'');
          action =
            (if isSendToIcEncOperation op then ''IC-ENC send simulation''
             else if isRollbackOperation op then ''Cancel Export''
             else if isExportEditionOperation op then spaced label @ ''Edition export''
             else if op = Str EXPORT_UPDATE then trim (label @ '' Update export'')
             else ''Export'');
          name = js_str (field job ''datasetName'')
      in if lower_text (field response ''status'') = ''succeeded''
         then action @ '' completed for '' @ name
         else action @ '' failed for '' @ name)"

section \<open>Properties\<close>

text \<open>The object a record is stored as.\<close>

definition job_js :: "product_job \<Rightarrow> js" where
  "job_js j =
     Obj [(''jobId'', Str (jobId j)), (''datasetName'', Str (job_datasetName j)),
          (''operationType'', Str (operationType j)), (''exportTarget'', of_opt (exportTarget j)),
          (''label'', Str (job_label j)), (''createdAt'', Str (createdAt j)),
          (''correlationId'', of_opt (correlationId j)), (''statusUrl'', of_opt (statusUrl j)),
          (''status'', of_opt (job_status j)), (''mode'', of_opt (job_mode j)),
          (''deliveryStatus'', of_opt (deliveryStatus j))]"

lemma or_text_nil [simp]: "or_text a b = [] \<longleftrightarrow> a = [] \<and> b = []"
  by (simp add: or_text_def)

lemma trim_or_text [simp]: "trim a = a \<Longrightarrow> trim b = b \<Longrightarrow> trim (or_text a b) = or_text a b"
  by (simp add: or_text_def)

lemma or_text_self: "a \<noteq> [] \<Longrightarrow> or_text a b = a"
  by (simp add: or_text_def)

lemma resolve_trimmed: "trim (resolveProductJobOperation a e) = resolveProductJobOperation a e"
  by (simp add: resolveProductJobOperation_def Let_def)

lemma resolve_again: "trim a = a \<Longrightarrow> a \<noteq> [] \<Longrightarrow> resolveProductJobOperation a a = a"
  by (simp add: resolveProductJobOperation_def productJobOperationsMatch_def Let_def)

lemma specificationLabel_cases: "specificationLabel v \<in> {[], ''S-101'', ''S-57''}"
  by (simp add: specificationLabel_def)

lemma createProductJobLabel_plain:
  "createProductJobLabel op spec \<noteq> [] \<and>
   trim (createProductJobLabel op spec) = createProductJobLabel op spec"
  using specificationLabel_cases [of spec]
  by (auto simp: createProductJobLabel_def Let_def trim_fixed_iff spaced_def is_space_def)

lemma specificationLabel_opt_text:
  "trim (js_str (nullish v (Str []))) = js_str (nullish v (Str [])) \<Longrightarrow>
   specificationLabel (of_opt (opt_text v)) = specificationLabel v"
  by (cases v) (auto simp: opt_text_def text_of_def nullish_def of_opt_def specificationLabel_def Let_def)

lemma createProductJobLabel_opt_text:
  "trim (js_str (nullish v (Str []))) = js_str (nullish v (Str [])) \<Longrightarrow>
   createProductJobLabel op (of_opt (opt_text v)) = createProductJobLabel op v"
  by (simp add: createProductJobLabel_def specificationLabel_opt_text)

lemma nullish_of_opt [simp]: "nullish (of_opt t) (of_opt t) = of_opt t"
  by (simp add: nullish_def)

lemma job_js_fields:
  "field (job_js j) ''jobId'' = Str (jobId j)"
  "field (job_js j) ''datasetName'' = Str (job_datasetName j)"
  "field (job_js j) ''operationType'' = Str (operationType j)"
  "field (job_js j) ''exportTarget'' = of_opt (exportTarget j)"
  "field (job_js j) ''label'' = Str (job_label j)"
  "field (job_js j) ''createdAt'' = Str (createdAt j)"
  "field (job_js j) ''correlationId'' = of_opt (correlationId j)"
  "field (job_js j) ''statusUrl'' = of_opt (statusUrl j)"
  "field (job_js j) ''status'' = of_opt (job_status j)"
  "field (job_js j) ''mode'' = of_opt (job_mode j)"
  "field (job_js j) ''deliveryStatus'' = of_opt (deliveryStatus j)"
  by (simp_all add: job_js_def)

lemma createProductJobRecord_Some:
  assumes "createProductJobRecord now response dataset operation target label = Some j"
  shows "\<exists>name op. trim name = name \<and> name \<noteq> [] \<and> trim op = op \<and> op \<noteq> [] \<and>
           text_of (field response ''jobId'') \<noteq> [] \<and>
           (isSendToIcEncOperation (Str op) \<longrightarrow> opt_text (field response ''mode'') = Some ''Simulation'' \<and>
              opt_text (field response ''deliveryStatus'') = Some ''NotDelivered'') \<and>
           j = job_record now response name op (nullish (field response ''exportTarget'') target) label"
proof -
  let ?name = "or_text (text_of (field response ''datasetName'')) (text_of dataset)"
  let ?op = "resolveProductJobOperation (text_of (field response ''operationType'')) (text_of operation)"
  have "trim ?name = ?name" "trim ?op = ?op" by (simp_all add: resolve_trimmed)
  with assms show ?thesis
    unfolding createProductJobRecord_def Let_def
    by (intro exI [of _ ?name] exI [of _ ?op]) (simp split: if_split_asm)
qed

lemma record_label_plain: "record_label op spec label \<noteq> [] \<and> trim (record_label op spec label) = record_label op spec label"
  using createProductJobLabel_plain [of op spec] by (simp add: record_label_def)

lemma record_label_again:
  assumes "trim (js_str (nullish spec (Str []))) = js_str (nullish spec (Str []))"
  shows "record_label op (of_opt (opt_text spec)) (Str (record_label op spec label)) =
         record_label op spec label"
  using createProductJobLabel_plain [of op spec] createProductJobLabel_opt_text [OF assms, of op]
  by (simp add: record_label_def or_text_def)


definition edition_job :: js where
  "edition_job = Obj [(''jobId'', Str '' J1 ''), (''operationType'', Str ''newdataset'')]"


text \<open>
  C24. A finished job is a success exactly when it succeeded, is the operation that was asked for (a new
  data set stands for either export), and, for a send, is a simulation that reports that nothing was
  delivered, in fields and in words. Every failure carries a code and a message, both at the top and in
  its error.
\<close>

theorem job_result_success_iff:
  "(jr_success (createProductJobActionResult response expected) \<longleftrightarrow>
     (text_of expected = [] \<or>
      productJobOperationsMatch (text_of (field response ''operationType'')) (text_of expected)) \<and>
     lower_text (field response ''status'') = ''succeeded'' \<and>
     (if isSendToIcEncOperation (field response ''operationType'')
      then text_of (field response ''mode'') = ''Simulation'' \<and>
           text_of (field response ''operationOutcome'') = ''SimulationCompleted'' \<and>
           text_of (field response ''deliveryStatus'') = ''NotDelivered'' \<and>
           has_part (to_lower (text_of (field response ''message''))) ''no data was sent'' \<and>
           containsDeliverySuccessWording (text_of (field response ''message'')) = False
      else True)) \<and>
   (if jr_success (createProductJobActionResult response expected) then True else
    (\<exists>c m. c \<noteq> [] \<and> m \<noteq> [] \<and>
       field (jr_data (createProductJobActionResult response expected)) ''code'' = Str c \<and>
       field (jr_data (createProductJobActionResult response expected)) ''message'' = Str m \<and>
       field (field (jr_data (createProductJobActionResult response expected)) ''error'') ''code'' = Str c))"
proof
  have fail: "jr_success (failed_result response e) = False" for e
    by (simp add: failed_result_def)
  show "jr_success (createProductJobActionResult response expected) \<longleftrightarrow>
     (text_of expected = [] \<or>
      productJobOperationsMatch (text_of (field response ''operationType'')) (text_of expected)) \<and>
     lower_text (field response ''status'') = ''succeeded'' \<and>
     (if isSendToIcEncOperation (field response ''operationType'')
      then text_of (field response ''mode'') = ''Simulation'' \<and>
           text_of (field response ''operationOutcome'') = ''SimulationCompleted'' \<and>
           text_of (field response ''deliveryStatus'') = ''NotDelivered'' \<and>
           has_part (to_lower (text_of (field response ''message''))) ''no data was sent'' \<and>
           containsDeliverySuccessWording (text_of (field response ''message'')) = False
      else True)"
    by (simp add: createProductJobActionResult_def validateSendSimulationResult_def fail Let_def)
  have data: "field (jr_data (failed_result response e)) ''code'' = Str (je_code e)"
    "field (jr_data (failed_result response e)) ''message'' = Str (je_message e)"
    "field (field (jr_data (failed_result response e)) ''error'') ''code'' = Str (je_code e)" for e
    by (simp_all add: failed_result_def spread_last)
  let ?coded = "\<lambda>r. \<exists>c m. c \<noteq> [] \<and> m \<noteq> [] \<and> field (jr_data r) ''code'' = Str c \<and>
       field (jr_data r) ''message'' = Str m \<and> field (field (jr_data r) ''error'') ''code'' = Str c"
  have ok: "?coded (failed_result response e)" if "je_code e \<noteq> []" "je_message e \<noteq> []" for e
    using that data by blast
  have "?coded (failed_result response (normalizeJobError response))"
    by (rule ok) (simp_all add: normalizeJobError_def Let_def)
  moreover have "?coded (failed_result response e)" if "validateSendSimulationResult response = Some e" for e
    using that by (intro ok) (auto simp: validateSendSimulationResult_def Let_def split: if_splits)
  moreover have "?coded (failed_result response
      \<lparr>je_code = ''JOB_STATUS_INVALID'',
       je_message = ''The operation job returned an unexpected operation type.''\<rparr>)"
    by (rule ok) simp_all
  ultimately have "jr_success r \<or> ?coded r"
    if "r = createProductJobActionResult response expected" for r
    using that unfolding createProductJobActionResult_def Let_def
    by (cases "validateSendSimulationResult response") (simp_all split: if_split_asm)
  from this [OF refl] show "if jr_success (createProductJobActionResult response expected) then True else
      ?coded (createProductJobActionResult response expected)"
    by (cases "jr_success (createProductJobActionResult response expected)")
      (simp_all only: if_True if_False simp_thms)
qed

end
