(* ===== verification/ReviewProducts.thy ===== *)
theory ReviewProducts
  imports JsText JsMaps Dedup
begin

text \<open>
  \<open>features/review/domain/reviewProductList.js\<close>: the products of a review and the content that is
  shown for each. Every function takes the items in any shape and normalises them first; \<open>item_js\<close> is
  the object of a normalised item, so that results are arguments again.
\<close>

section \<open>Content types\<close>

definition REVIEW_CONTENT_TYPE_IDS :: "string list" where
  "REVIEW_CONTENT_TYPE_IDS = [''history'', ''ic-enc-reports'', ''internal-validation-reports'']"

record content_definition =
  cd_id :: string
  cd_label :: string
  cd_shortLabel :: string
  cd_description :: string
  cd_defaultEnabled :: bool

definition REVIEW_CONTENT_TYPE_DEFINITIONS :: "content_definition list" where
  "REVIEW_CONTENT_TYPE_DEFINITIONS =
     [\<lparr>cd_id = ''history'', cd_label = ''History'', cd_shortLabel = ''History'',
       cd_description = ''Product history events and status changes.'', cd_defaultEnabled = True\<rparr>,
      \<lparr>cd_id = ''ic-enc-reports'', cd_label = ''IC-ENC reports'', cd_shortLabel = ''IC-ENC'',
       cd_description = ''IC-ENC report content for this product.'', cd_defaultEnabled = True\<rparr>,
      \<lparr>cd_id = ''internal-validation-reports'', cd_label = ''Internal validation reports'',
       cd_shortLabel = ''Validation'',
       cd_description = ''Internal validation reports for this product.'', cd_defaultEnabled = True\<rparr>]"

type_synonym content_types = "(string, bool) jmap"

definition createDefaultReviewContentTypes :: content_types where
  "createDefaultReviewContentTypes =
     map (\<lambda>d. (cd_id d, cd_defaultEnabled d)) REVIEW_CONTENT_TYPE_DEFINITIONS"

definition normalizeReviewContentTypes :: "js \<Rightarrow> content_types" where
  "normalizeReviewContentTypes v =
     (if \<not> is_object v then createDefaultReviewContentTypes
      else map (\<lambda>(k, b). (k, if has_own v k then field v k \<noteq> JBool False else b))
             createDefaultReviewContentTypes)"

definition content_js :: "content_types \<Rightarrow> js" where
  "content_js ct = Obj (map (\<lambda>(k, b). (k, JBool b)) ct)"

definition normalizeReviewContentTypeId :: "js \<Rightarrow> string" where
  "normalizeReviewContentTypeId v =
     (if text_of v \<in> set REVIEW_CONTENT_TYPE_IDS then text_of v else [])"

section \<open>Items\<close>

record review_item =
  ri_id :: string
  ri_datasetName :: string
  ri_enabled :: bool
  ri_contentTypes :: content_types

definition item_js :: "review_item \<Rightarrow> js" where
  "item_js i =
     Obj [(''id'', Str (ri_id i)), (''datasetName'', Str (ri_datasetName i)),
          (''enabled'', JBool (ri_enabled i)), (''contentTypes'', content_js (ri_contentTypes i))]"

definition items_js :: "review_item list \<Rightarrow> js" where
  "items_js items = Arr (map item_js items)"

definition toArray :: "js \<Rightarrow> js list" where
  "toArray v = (if is_array v then elements v else [v])"

definition createReviewProductItemId :: "string \<Rightarrow> string" where
  "createReviewProductItemId name = to_upper (text_of (Str name))"

definition getProductItemDatasetName :: "js \<Rightarrow> js" where
  "getProductItemDatasetName v =
     (if is_nullish v then Str []
      else if is_object v
      then nullish (field v ''datasetName'') (nullish (field v ''name'')
             (nullish (field v ''DatasetName'') (nullish (field v ''Name'') (Str []))))
      else v)"

definition getProductItemEnabled :: "js \<Rightarrow> bool" where
  "getProductItemEnabled v =
     (if is_object v \<and> has_own v ''enabled'' then field v ''enabled'' \<noteq> JBool False else True)"

definition getProductItemContentTypes :: "js \<Rightarrow> js" where
  "getProductItemContentTypes v =
     (if is_object v
      then nullish (field v ''contentTypes'') (nullish (field v ''reviewContentTypes'') Null)
      else Null)"

fun normalize_items_from :: "review_item list \<Rightarrow> string list \<Rightarrow> js list \<Rightarrow> review_item list" where
  "normalize_items_from items seen [] = items"
| "normalize_items_from items seen (v # vs) =
     (let name = text_of (getProductItemDatasetName v) in
      if name = [] then normalize_items_from items seen vs
      else
        let i = createReviewProductItemId name in
        if i \<in> set seen then normalize_items_from items seen vs
        else normalize_items_from
          (items @ [\<lparr>ri_id = i, ri_datasetName = name, ri_enabled = getProductItemEnabled v,
             ri_contentTypes = normalizeReviewContentTypes (getProductItemContentTypes v)\<rparr>])
          (seen @ [i]) vs)"

definition normalizeReviewProductItems :: "js \<Rightarrow> review_item list" where
  "normalizeReviewProductItems v = normalize_items_from [] [] (toArray v)"

definition createReviewProductItems :: "js \<Rightarrow> review_item list" where
  "createReviewProductItems v = normalizeReviewProductItems (Arr (toArray v))"

section \<open>Changes\<close>

definition addReviewProductItem :: "js \<Rightarrow> js \<Rightarrow> js \<Rightarrow> review_item list" where
  "addReviewProductItem items datasetName intent =
     (let current = normalizeReviewProductItems items; name = text_of datasetName in
      if name = [] then current
      else
        let i = createReviewProductItemId name;
            nxt = map (\<lambda>item. if ri_id item \<noteq> i then item else item\<lparr>ri_enabled := True\<rparr>) current
        in if list_ex (\<lambda>item. ri_id item = i) current then nxt
           else nxt @ [\<lparr>ri_id = i, ri_datasetName = name, ri_enabled = True,
                  ri_contentTypes = normalizeReviewContentTypes
                    (if intent = Undef then content_js createDefaultReviewContentTypes else intent)\<rparr>])"

definition toggleReviewProductItem :: "js \<Rightarrow> js \<Rightarrow> js \<Rightarrow> review_item list" where
  "toggleReviewProductItem items itemId enabled =
     map (\<lambda>item. if Str (ri_id item) \<noteq> itemId then item else item\<lparr>ri_enabled := truthy enabled\<rparr>)
       (normalizeReviewProductItems items)"

definition set_content :: "string \<Rightarrow> bool \<Rightarrow> review_item \<Rightarrow> review_item" where
  "set_content ty b item = item\<lparr>ri_contentTypes := jm_set ty b (ri_contentTypes item)\<rparr>"

definition toggleReviewProductContentType :: "js \<Rightarrow> js \<Rightarrow> js \<Rightarrow> js \<Rightarrow> review_item list" where
  "toggleReviewProductContentType items itemId typeId enabled =
     (let ty = normalizeReviewContentTypeId typeId; current = normalizeReviewProductItems items in
      if ty = [] then current
      else map (\<lambda>item. if Str (ri_id item) \<noteq> itemId then item else set_content ty (truthy enabled) item)
             current)"

definition toggleAllReviewProductContentTypes :: "js \<Rightarrow> js \<Rightarrow> js \<Rightarrow> review_item list" where
  "toggleAllReviewProductContentTypes items typeId enabled =
     (let ty = normalizeReviewContentTypeId typeId; current = normalizeReviewProductItems items in
      if ty = [] then current else map (set_content ty (truthy enabled)) current)"

definition removeReviewProductItem :: "js \<Rightarrow> js \<Rightarrow> review_item list" where
  "removeReviewProductItem items itemId =
     filter (\<lambda>item. Str (ri_id item) \<noteq> itemId) (normalizeReviewProductItems items)"

section \<open>Questions\<close>

definition getEnabledReviewDatasetNames :: "js \<Rightarrow> string list" where
  "getEnabledReviewDatasetNames items =
     map ri_datasetName (filter ri_enabled (normalizeReviewProductItems items))"

definition getReviewContentTypeDefinitions :: "content_definition list" where
  "getReviewContentTypeDefinitions = REVIEW_CONTENT_TYPE_DEFINITIONS"

definition createReviewWorkspaceContentIntent :: "js \<Rightarrow> content_types" where
  "createReviewWorkspaceContentIntent v = normalizeReviewContentTypes v"

definition updateReviewWorkspaceContentIntent :: "js \<Rightarrow> js \<Rightarrow> js \<Rightarrow> content_types" where
  "updateReviewWorkspaceContentIntent v typeId enabled =
     (let ty = normalizeReviewContentTypeId typeId; ct = normalizeReviewContentTypes v in
      if ty = [] then ct else jm_set ty (truthy enabled) ct)"

definition content_enabled :: "string \<Rightarrow> review_item \<Rightarrow> bool" where
  "content_enabled ty item = (jm_get (ri_contentTypes item) ty = Some True)"

definition getReviewContentTypeAggregateState :: "js \<Rightarrow> js \<Rightarrow> string" where
  "getReviewContentTypeAggregateState items typeId =
     (let ty = normalizeReviewContentTypeId typeId; current = normalizeReviewProductItems items in
      if ty = [] \<or> length current = 0 then ''empty''
      else
        let n = length (filter (content_enabled ty) current) in
        if n = length current then ''all-enabled''
        else if n = 0 then ''all-disabled'' else ''mixed'')"

definition getEnabledReviewContentTypes :: "js \<Rightarrow> string list" where
  "getEnabledReviewContentTypes item =
     (let ct = normalizeReviewContentTypes (field item ''contentTypes'') in
      map cd_id (filter (\<lambda>d. jm_get ct (cd_id d) = Some True) REVIEW_CONTENT_TYPE_DEFINITIONS))"

definition isReviewContentTypeEnabled :: "js \<Rightarrow> js \<Rightarrow> bool" where
  "isReviewContentTypeEnabled item typeId =
     (let ty = normalizeReviewContentTypeId typeId in
      if ty = [] then False
      else jm_get (normalizeReviewContentTypes (field item ''contentTypes'')) ty = Some True)"

section \<open>The normalising loop\<close>

definition norm_item :: "js \<Rightarrow> review_item option" where
  "norm_item v =
     (let name = text_of (getProductItemDatasetName v) in
      if name = [] then None
      else Some \<lparr>ri_id = createReviewProductItemId name, ri_datasetName = name,
             ri_enabled = getProductItemEnabled v,
             ri_contentTypes = normalizeReviewContentTypes (getProductItemContentTypes v)\<rparr>)"

lemma content_types_keys [simp]: "map fst (normalizeReviewContentTypes v) = REVIEW_CONTENT_TYPE_IDS"
  by (simp add: normalizeReviewContentTypes_def createDefaultReviewContentTypes_def
      REVIEW_CONTENT_TYPE_DEFINITIONS_def REVIEW_CONTENT_TYPE_IDS_def)

lemma distinct_ids: "distinct REVIEW_CONTENT_TYPE_IDS"
  by (simp add: REVIEW_CONTENT_TYPE_IDS_def)

text \<open>Any assignment of the three ids is normal.\<close>

lemma normalize_content_js:
  assumes "map fst ct = REVIEW_CONTENT_TYPE_IDS"
  shows "normalizeReviewContentTypes (content_js ct) = ct"
proof -
  from assms obtain a b c where "ct = [(''history'', a), (''ic-enc-reports'', b),
      (''internal-validation-reports'', c)]"
    by (auto simp: REVIEW_CONTENT_TYPE_IDS_def)
  then show ?thesis
    by (simp add: normalizeReviewContentTypes_def content_js_def createDefaultReviewContentTypes_def
        REVIEW_CONTENT_TYPE_DEFINITIONS_def)
qed

definition item_ok :: "review_item \<Rightarrow> bool" where
  "item_ok i =
     (ri_datasetName i \<noteq> [] \<and> trim (ri_datasetName i) = ri_datasetName i \<and>
      ri_id i = to_upper (ri_datasetName i) \<and> map fst (ri_contentTypes i) = REVIEW_CONTENT_TYPE_IDS)"

lemma norm_item_js: "item_ok i \<Longrightarrow> norm_item (item_js i) = Some i"
  by (simp add: norm_item_def item_ok_def item_js_def getProductItemDatasetName_def nullish_def
      createReviewProductItemId_def getProductItemEnabled_def getProductItemContentTypes_def
      content_js_def [symmetric] Let_def)
    (simp add: content_js_def nullish_def normalize_content_js [unfolded content_js_def])

lemma item_ok_norm: "norm_item v = Some i \<Longrightarrow> item_ok i"
  by (auto simp: norm_item_def item_ok_def createReviewProductItemId_def Let_def split: if_splits)

interpretation items: dedup norm_item ri_id item_js
  by unfold_locales (rule norm_item_js, erule item_ok_norm)

lemma normalize_items_collect:
  "set seen = ri_id ` set acc \<Longrightarrow> normalize_items_from acc seen vs = items.collect acc vs"
proof (induction vs arbitrary: acc seen)
  case (Cons v vs)
  let ?name = "text_of (getProductItemDatasetName v)"
  let ?item = "\<lparr>ri_id = createReviewProductItemId ?name, ri_datasetName = ?name,
    ri_enabled = getProductItemEnabled v,
    ri_contentTypes = normalizeReviewContentTypes (getProductItemContentTypes v)\<rparr>"
  have norm: "norm_item v = (if ?name = [] then None else Some ?item)"
    by (simp add: norm_item_def Let_def)
  have "set (seen @ [ri_id ?item]) = ri_id ` set (acc @ [?item])" using Cons.prems by simp
  from Cons.IH [OF this] Cons.IH [OF Cons.prems] Cons.prems show ?case by (simp add: norm Let_def)
qed simp

lemma normalize_collect: "normalizeReviewProductItems v = items.collect [] (toArray v)"
  by (simp add: normalizeReviewProductItems_def normalize_items_collect)

lemma items_ok: "i \<in> set (normalizeReviewProductItems v) \<Longrightarrow> item_ok i"
  using items.collect_prefix [of "[]" "toArray v"] item_ok_norm by (auto simp: normalize_collect)

lemma distinct_items: "distinct (map ri_id (normalizeReviewProductItems v))"
  by (simp add: normalize_collect items.collect_distinct_nil)

lemma normalize_items_js:
  "list_all item_ok is \<Longrightarrow> distinct (map ri_id is) \<Longrightarrow> normalizeReviewProductItems (items_js is) = is"
  using items.collect_fixed [of "is" "[]"] norm_item_js
  by (simp add: normalize_collect items_js_def toArray_def list_all_iff)

section \<open>Properties\<close>

text \<open>
  C25. Normalising the products of a review is idempotent: each product has a name and appears once,
  under the upper-case id of its name, with a choice for every content type, and normalising the
  result again changes nothing.
\<close>

theorem review_items_normal:
  "normalizeReviewProductItems (items_js (normalizeReviewProductItems v)) = normalizeReviewProductItems v \<and>
   distinct (map ri_id (normalizeReviewProductItems v)) \<and>
   list_all item_ok (normalizeReviewProductItems v) \<and>
   ri_id ` set (normalizeReviewProductItems v) =
     (\<lambda>x. to_upper (text_of (getProductItemDatasetName x))) `
       {x \<in> set (toArray v). text_of (getProductItemDatasetName x) \<noteq> []}"
proof (intro conjI)
  show ok: "list_all item_ok (normalizeReviewProductItems v)"
    using items_ok by (simp add: list_all_iff)
  show "distinct (map ri_id (normalizeReviewProductItems v))" by (rule distinct_items)
  with ok show "normalizeReviewProductItems (items_js (normalizeReviewProductItems v)) =
      normalizeReviewProductItems v"
    by (rule normalize_items_js)
  show "ri_id ` set (normalizeReviewProductItems v) =
     (\<lambda>x. to_upper (text_of (getProductItemDatasetName x))) `
       {x \<in> set (toArray v). text_of (getProductItemDatasetName x) \<noteq> []}"
    unfolding normalize_collect items.collect_keys
    by (auto simp: norm_item_def createReviewProductItemId_def Let_def image_iff split: if_splits)
qed

lemma item_ok_set_content:
  "item_ok i \<Longrightarrow> ty \<in> set REVIEW_CONTENT_TYPE_IDS \<Longrightarrow> item_ok (set_content ty b i)"
  using jm_keys_present [of ty "ri_contentTypes i" b] by (simp add: item_ok_def set_content_def)

lemma set_content_id [simp]: "ri_id (set_content ty b i) = ri_id i"
  by (simp add: set_content_def)

lemma content_id_known: "normalizeReviewContentTypeId t \<noteq> [] \<Longrightarrow>
  normalizeReviewContentTypeId t \<in> set REVIEW_CONTENT_TYPE_IDS"
  by (auto simp: normalizeReviewContentTypeId_def split: if_splits)

lemma toggle_all_normal:
  "normalizeReviewProductItems (items_js (toggleAllReviewProductContentTypes v t e)) =
   toggleAllReviewProductContentTypes v t e"
proof (rule normalize_items_js)
  show "list_all item_ok (toggleAllReviewProductContentTypes v t e)"
    using items_ok item_ok_set_content content_id_known [of t]
    by (auto simp: toggleAllReviewProductContentTypes_def Let_def list_all_iff)
  show "distinct (map ri_id (toggleAllReviewProductContentTypes v t e))"
    using distinct_items by (simp add: toggleAllReviewProductContentTypes_def Let_def comp_def)
qed

text \<open>
  C26. After a content type is switched for all products of a review, its aggregate state is what it
  was switched to; the products, their order, what is enabled and the other content types of each
  product do not change.
\<close>

theorem toggle_all_aggregate:
  assumes "normalizeReviewContentTypeId t \<noteq> []" and "normalizeReviewProductItems v \<noteq> []"
    and "u \<noteq> normalizeReviewContentTypeId t"
  shows "getReviewContentTypeAggregateState (items_js (toggleAllReviewProductContentTypes v t e)) t =
           (if truthy e then ''all-enabled'' else ''all-disabled'') \<and>
         map ri_id (toggleAllReviewProductContentTypes v t e) = map ri_id (normalizeReviewProductItems v) \<and>
         getEnabledReviewDatasetNames (items_js (toggleAllReviewProductContentTypes v t e)) =
           getEnabledReviewDatasetNames v \<and>
         map (content_enabled u) (toggleAllReviewProductContentTypes v t e) =
           map (content_enabled u) (normalizeReviewProductItems v)"
proof -
  let ?ty = "normalizeReviewContentTypeId t" and ?items = "normalizeReviewProductItems v"
  have r: "toggleAllReviewProductContentTypes v t e = map (set_content ?ty (truthy e)) ?items"
    using assms(1) by (simp add: toggleAllReviewProductContentTypes_def Let_def)
  have enabled: "content_enabled ?ty (set_content ?ty b i) = b" "content_enabled u (set_content ?ty b i) = content_enabled u i"
    "ri_enabled (set_content ?ty b i) = ri_enabled i" "ri_datasetName (set_content ?ty b i) = ri_datasetName i"
    for b i
    using assms(3) by (simp_all add: content_enabled_def set_content_def)
  have "filter (content_enabled ?ty) (map (set_content ?ty b) ?items) =
      (if b then map (set_content ?ty b) ?items else [])" for b
    by (simp add: filter_map comp_def enabled)
  moreover have "normalizeReviewProductItems (items_js (map (set_content ?ty (truthy e)) ?items)) =
      map (set_content ?ty (truthy e)) ?items"
    using toggle_all_normal [of v t e] by (simp only: r)
  ultimately show ?thesis
    using assms(1,2) unfolding r getReviewContentTypeAggregateState_def getEnabledReviewDatasetNames_def Let_def
    by (cases "truthy e") (simp_all add: enabled filter_map comp_def)
qed

definition review_example :: js where
  "review_example =
     Arr [Str ''101DK1'', Null, Obj [(''Name'', Str '' 101dk1'')],
          Obj [(''datasetName'', Str ''101DK2''), (''enabled'', JBool False),
               (''contentTypes'', Obj [(''history'', JBool False)])]]"

theorem toggle_all_aggregate_witness:
  "getReviewContentTypeAggregateState
     (items_js (toggleAllReviewProductContentTypes review_example (Str ''history'') (JBool True)))
     (Str ''history'') = ''all-enabled'' \<and>
   getReviewContentTypeAggregateState review_example (Str ''history'') = ''mixed''"
proof -
  have "normalizeReviewContentTypeId (Str ''history'') \<noteq> []"
    and "normalizeReviewProductItems review_example \<noteq> []"
    and "''ic-enc-reports'' \<noteq> normalizeReviewContentTypeId (Str ''history'')"
    and "truthy (JBool True)"
    and "getReviewContentTypeAggregateState review_example (Str ''history'') = ''mixed''"
    by code_simp+
  with toggle_all_aggregate [OF this(1-3), of "JBool True"] show ?thesis by simp
qed

text \<open>
  C27. Adding a product to a review enables it and keeps every other product as it is: a product that
  is already listed stays in its place, a new one comes last; the list stays normal, and removing the
  product that was new restores the list.
\<close>

theorem add_review_item:
  assumes "text_of name \<noteq> []" and "r = addReviewProductItem v name intent"
    and "i = to_upper (text_of name)"
  shows "normalizeReviewProductItems (items_js r) = r \<and>
         map ri_id r = map ri_id (normalizeReviewProductItems v) @
           (if i \<in> ri_id ` set (normalizeReviewProductItems v) then [] else [i]) \<and>
         i \<in> ri_id ` set (filter ri_enabled r) \<and>
         filter (\<lambda>x. ri_id x \<noteq> i) r = filter (\<lambda>x. ri_id x \<noteq> i) (normalizeReviewProductItems v) \<and>
         removeReviewProductItem (items_js r) (Str i) = removeReviewProductItem v (Str i)"
proof -
  let ?items = "normalizeReviewProductItems v"
  let ?new = "\<lparr>ri_id = i, ri_datasetName = text_of name, ri_enabled = True,
     ri_contentTypes = normalizeReviewContentTypes
       (if intent = Undef then content_js createDefaultReviewContentTypes else intent)\<rparr>"
  define nxt where "nxt = map (\<lambda>x. if ri_id x \<noteq> i then x else x\<lparr>ri_enabled := True\<rparr>) ?items"
  have new_id: "createReviewProductItemId (text_of name) = i"
    by (simp add: assms(3) createReviewProductItemId_def)
  have r: "r = nxt @ (if i \<in> ri_id ` set ?items then [] else [?new])"
    unfolding assms(2) addReviewProductItem_def Let_def new_id nxt_def
    using assms(1) by (auto simp: list_ex_iff)
  have ids: "map ri_id nxt = map ri_id ?items" by (simp add: nxt_def comp_def if_distrib)
  have ids_r: "map ri_id r = map ri_id ?items @ (if i \<in> ri_id ` set ?items then [] else [i])"
    by (simp add: r ids)
  have "item_ok ?new"
    using assms(1) by (simp add: item_ok_def assms(3))
  moreover have "item_ok (x\<lparr>ri_enabled := True\<rparr>) = item_ok x" for x
    by (simp add: item_ok_def)
  ultimately have "list_all item_ok r"
    using items_ok [of _ v] by (auto simp: r nxt_def list_all_iff)
  moreover have "distinct (map ri_id r)"
    unfolding ids_r using distinct_items [of v] by auto
  ultimately have norm: "normalizeReviewProductItems (items_js r) = r"
    by (rule normalize_items_js)
  have others: "filter (\<lambda>x. ri_id x \<noteq> i) r = filter (\<lambda>x. ri_id x \<noteq> i) ?items"
    by (simp add: r nxt_def filter_map comp_def) (rule map_idI, simp)
  have "i \<in> ri_id ` set (filter ri_enabled r)"
  proof (cases "i \<in> ri_id ` set ?items")
    case True
    then obtain x where "x \<in> set ?items" "ri_id x = i" by auto
    then have "x\<lparr>ri_enabled := True\<rparr> \<in> set (filter ri_enabled r)"
      by (force simp: r nxt_def image_iff)
    with \<open>ri_id x = i\<close> show ?thesis by (force simp: image_iff)
  next
    case False
    then have "?new \<in> set (filter ri_enabled r)" by (simp add: r)
    then show ?thesis by (force simp: image_iff)
  qed
  with norm ids_r others show ?thesis
    by (simp add: removeReviewProductItem_def)
qed

theorem add_review_item_witness:
  "map ri_id (addReviewProductItem review_example (Str '' 101DK3 '') Undef) =
     [''101DK1'', ''101DK2'', ''101DK3''] \<and>
   removeReviewProductItem (items_js (addReviewProductItem review_example (Str '' 101DK3 '') Undef))
     (Str ''101DK3'') = removeReviewProductItem review_example (Str ''101DK3'')"
proof -
  have n: "text_of (Str '' 101DK3 '') \<noteq> []" and i: "''101DK3'' = to_upper (text_of (Str '' 101DK3 ''))"
    and ids: "map ri_id (normalizeReviewProductItems review_example) = [''101DK1'', ''101DK2'']"
    by code_simp+
  from ids have "''101DK3'' \<notin> ri_id ` set (normalizeReviewProductItems review_example)"
    by (simp flip: set_map)
  with add_review_item [OF n refl i, of review_example Undef] ids show ?thesis by simp
qed

end
