(* ===== verification/ObservableStore.thy ===== *)
theory ObservableStore
  imports Main
begin

text \<open>
  The contract of a store that announces its changes: an operation that changes the content announces
  the new content once, any other operation announces nothing. The locale proves that, after any
  operations, whoever followed the announcements knows the content, and was called once per change.
\<close>

locale observable_store =
  fixes content :: "'s \<Rightarrow> 'c"
    and announced :: "'s \<Rightarrow> 'c list"
    and apply_op :: "'o \<Rightarrow> 's \<Rightarrow> 's"
  assumes announces: "announced (apply_op c s) =
    (if content (apply_op c s) = content s then announced s
     else announced s @ [content (apply_op c s)])"
begin

primrec run :: "'o list \<Rightarrow> 's \<Rightarrow> 's" where
  "run [] s = s"
| "run (c # cs) s = run cs (apply_op c s)"

text \<open>What a listener registered in state \<open>s\<close> has heard in state \<open>t\<close>.\<close>

definition heard :: "'s \<Rightarrow> 's \<Rightarrow> 'c list" where
  "heard s t = drop (length (announced s)) (announced t)"

primrec changes :: "'o list \<Rightarrow> 's \<Rightarrow> 'c list" where
  "changes [] s = []"
| "changes (c # cs) s =
     (if content (apply_op c s) = content s then changes cs (apply_op c s)
      else content (apply_op c s) # changes cs (apply_op c s))"

lemma announced_run: "announced (run cs s) = announced s @ changes cs s"
  by (induction cs arbitrary: s) (simp_all add: announces)

lemma last_change: "last (content s # changes cs s) = content (run cs s)"
proof (induction cs arbitrary: s)
  case (Cons c cs)
  let ?s = "apply_op c s"
  show ?case
  proof (cases "content ?s = content s")
    case True
    from Cons.IH [of ?s] show ?thesis
      by (simp only: run.simps changes.simps True if_True simp_thms)
  next
    case False
    with Cons.IH [of ?s] show ?thesis by simp
  qed
qed simp

theorem heard_run:
  "heard s (run cs s) = changes cs s \<and> last (content s # heard s (run cs s)) = content (run cs s)"
  using last_change [of s cs] by (simp only: heard_def announced_run append_eq_conv_conj) simp

end

end
