(* ===== verification/ProductCollection.thy ===== *)
theory ProductCollection
  imports ProductContexts ObservableStore
begin

text \<open>
  \<open>features/productCollection/state/productCollectionStore.js\<close>: the products a user collects. The
  module's list and the snapshots passed to its listeners are the record \<open>collection_state\<close>; the
  clock is an argument.
\<close>

section \<open>Items\<close>

record collection_item =
  ci_id :: string
  ci_sourceId :: string
  ci_sourceLabel :: string
  ci_productKey :: string
  ci_datasetName :: string
  ci_productType :: string
  ci_analyze :: bool
  ci_review :: bool
  ci_addedAt :: "int option"

record collection_state =
  col_items :: "collection_item list"
  col_announced :: "collection_item list list"

definition initial_collection :: collection_state where
  "initial_collection = \<lparr>col_items = [], col_announced = []\<rparr>"

record collection_snapshot =
  sn_items :: "collection_item list"
  sn_count :: nat
  sn_datasetNames :: "string list"

record add_result =
  ar_added :: bool
  ar_reason :: "string option"
  ar_item :: "collection_item option"
  ar_snapshot :: collection_snapshot

definition getProductCollectionDatasetNames :: "collection_state \<Rightarrow> string list" where
  "getProductCollectionDatasetNames s = map ci_datasetName (col_items s)"

definition getProductCollectionSnapshot :: "collection_state \<Rightarrow> collection_snapshot" where
  "getProductCollectionSnapshot s =
     \<lparr>sn_items = col_items s, sn_count = length (col_items s),
      sn_datasetNames = getProductCollectionDatasetNames s\<rparr>"

text \<open>The assignment of a new list, and the announcement of its snapshot.\<close>

definition emit_items :: "collection_item list \<Rightarrow> collection_state \<Rightarrow> collection_state" where
  "emit_items items s = \<lparr>col_items = items, col_announced = col_announced s @ [items]\<rparr>"

section \<open>Normalisation\<close>

definition identity_of :: "string \<Rightarrow> string \<Rightarrow> string option" where
  "identity_of source key =
     (case serializeProductIdentity (Obj [(''sourceId'', Str source), (''productKey'', Str key)]) of
        Inl e \<Rightarrow> None | Inr k \<Rightarrow> Some k)"

definition createLegacyCompatibilityProduct :: "js \<Rightarrow> collection_item option" where
  "createLegacyCompatibilityProduct v =
     (case opt_text v of
        None \<Rightarrow> None
      | Some name \<Rightarrow>
          map_option (\<lambda>key.
            \<lparr>ci_id = key, ci_sourceId = COMPATIBILITY_PRODUCT_SOURCE_ID,
             ci_sourceLabel = ''Compatibility AOI'', ci_productKey = name, ci_datasetName = name,
             ci_productType = ''compatibility-product'', ci_analyze = True, ci_review = True,
             ci_addedAt = None\<rparr>) (identity_of COMPATIBILITY_PRODUCT_SOURCE_ID name))"

definition normalizeCollectionProduct :: "js \<Rightarrow> collection_item option" where
  "normalizeCollectionProduct v =
     (if is_string v then createLegacyCompatibilityProduct v
      else
        case (opt_text (field v ''sourceId''), opt_text (field v ''productKey''),
              opt_text (field v ''datasetName''), opt_text (field v ''productType'')) of
          (Some source, Some key, Some name, Some ty) \<Rightarrow>
            map_option (\<lambda>i.
              \<lparr>ci_id = i, ci_sourceId = source,
               ci_sourceLabel = (case opt_text (field v ''sourceLabel'') of Some l \<Rightarrow> l | None \<Rightarrow> source),
               ci_productKey = key, ci_datasetName = name, ci_productType = ty,
               ci_analyze = (field (field v ''capabilities'') ''analyze'' = JBool True),
               ci_review = (field (field v ''capabilities'') ''review'' = JBool True),
               ci_addedAt = None\<rparr>) (identity_of source key)
        | _ \<Rightarrow> None)"

definition isSameCollectionIdentity :: "collection_item \<Rightarrow> collection_item \<Rightarrow> bool" where
  "isSameCollectionIdentity l r =
     (if ci_sourceId l \<noteq> ci_sourceId r then False
      else if ci_id l = ci_id r then True
      else ci_sourceId l = COMPATIBILITY_PRODUCT_SOURCE_ID \<and>
           to_upper (ci_datasetName l) = to_upper (ci_datasetName r))"

definition resolveExistingItemId :: "collection_state \<Rightarrow> js \<Rightarrow> string option" where
  "resolveExistingItemId s v =
     (if is_object v
      then (case normalizeCollectionProduct v of
              None \<Rightarrow> None
            | Some p \<Rightarrow>
                map_option ci_id (List.find (\<lambda>i. isSameCollectionIdentity i p) (col_items s)))
      else case opt_text v of
             None \<Rightarrow> None
           | Some t \<Rightarrow>
               (case List.find (\<lambda>i. ci_id i = t) (col_items s) of
                  Some i \<Rightarrow> Some (ci_id i)
                | None \<Rightarrow>
                    map_option ci_id
                      (List.find (\<lambda>i. to_upper (ci_datasetName i) = to_upper t) (col_items s))))"

definition createSourceProductIdentityKey :: "string \<Rightarrow> js \<Rightarrow> string option" where
  "createSourceProductIdentityKey source v =
     (let productSource = (case opt_text (field v ''sourceId'') of Some t \<Rightarrow> t | None \<Rightarrow> source);
          key = opt_text (nullish (field v ''productKey'') (field (field v ''attributes'') ''productKey''))
      in if productSource \<noteq> source then None
         else case key of None \<Rightarrow> None | Some k \<Rightarrow> identity_of source k)"

section \<open>Operations\<close>

definition addProductCollectionProduct :: "int \<Rightarrow> js \<Rightarrow> collection_state \<Rightarrow> add_result \<times> collection_state" where
  "addProductCollectionProduct now v s =
     (case normalizeCollectionProduct v of
        None \<Rightarrow>
          (\<lparr>ar_added = False, ar_reason = Some ''missing-product-identity'', ar_item = None,
            ar_snapshot = getProductCollectionSnapshot s\<rparr>, s)
      | Some p \<Rightarrow>
          (case List.find (\<lambda>i. isSameCollectionIdentity i p) (col_items s) of
             Some i \<Rightarrow>
               (\<lparr>ar_added = False, ar_reason = Some ''already-added'', ar_item = Some i,
                 ar_snapshot = getProductCollectionSnapshot s\<rparr>, s)
           | None \<Rightarrow>
               (let item = p\<lparr>ci_addedAt := Some now\<rparr>; s' = emit_items (col_items s @ [item]) s
                in (\<lparr>ar_added = True, ar_reason = None, ar_item = Some item,
                     ar_snapshot = getProductCollectionSnapshot s'\<rparr>, s'))))"

text \<open>The removals keep the list, and announce nothing, when its length does not change.\<close>

definition keep_items :: "(collection_item \<Rightarrow> bool) \<Rightarrow> collection_state \<Rightarrow> collection_state" where
  "keep_items P s =
     (let nxt = filter P (col_items s) in
      if length nxt = length (col_items s) then s else emit_items nxt s)"

definition removeProductCollectionProduct :: "js \<Rightarrow> collection_state \<Rightarrow> collection_state" where
  "removeProductCollectionProduct v s =
     (case resolveExistingItemId s v of
        None \<Rightarrow> s | Some i \<Rightarrow> keep_items (\<lambda>item. ci_id item \<noteq> i) s)"

definition removeProductCollectionProductsBySource :: "js \<Rightarrow> collection_state \<Rightarrow> collection_state" where
  "removeProductCollectionProductsBySource source s =
     (case opt_text source of
        None \<Rightarrow> s | Some t \<Rightarrow> keep_items (\<lambda>item. ci_sourceId item \<noteq> t) s)"

definition reconcileProductCollectionSourceProducts ::
    "js \<Rightarrow> js \<Rightarrow> collection_state \<Rightarrow> collection_state" where
  "reconcileProductCollectionSourceProducts source products s =
     (case opt_text source of
        None \<Rightarrow> s
      | Some t \<Rightarrow>
          (let keys = List.map_filter (createSourceProductIdentityKey t) (elements products)
           in keep_items (\<lambda>item. ci_sourceId item \<noteq> t \<or> ci_id item \<in> set keys) s))"

definition clearProductCollection :: "collection_state \<Rightarrow> collection_state" where
  "clearProductCollection s = (if col_items s = [] then s else emit_items [] s)"

definition hasProductCollectionProduct :: "js \<Rightarrow> collection_state \<Rightarrow> bool" where
  "hasProductCollectionProduct v s = (resolveExistingItemId s v \<noteq> None)"

section \<open>Every change\<close>

datatype collection_op = Add int js | Remove js | RemoveSource js | Reconcile js js | Clear

fun collection_apply :: "collection_op \<Rightarrow> collection_state \<Rightarrow> collection_state" where
  "collection_apply (Add now v) s = snd (addProductCollectionProduct now v s)"
| "collection_apply (Remove v) s = removeProductCollectionProduct v s"
| "collection_apply (RemoveSource v) s = removeProductCollectionProductsBySource v s"
| "collection_apply (Reconcile v ps) s = reconcileProductCollectionSourceProducts v ps s"
| "collection_apply Clear s = clearProductCollection s"

lemma keep_items_cases:
  "keep_items P s = s \<and> filter P (col_items s) = col_items s \<or>
   keep_items P s = emit_items (filter P (col_items s)) s \<and> filter P (col_items s) \<noteq> col_items s"
proof (cases "length (filter P (col_items s)) = length (col_items s)")
  case True
  then have "filter P (col_items s) = col_items s"
    by (metis length_filter_less filter_id_conv nat_neq_iff)
  then show ?thesis by (simp add: keep_items_def)
qed (auto simp: keep_items_def Let_def)

lemma keep_items_content [simp]: "col_items (keep_items P s) = filter P (col_items s)"
  using keep_items_cases [of P s] by (auto simp: emit_items_def)

text \<open>An operation adds one new item or keeps those of a test.\<close>

lemma collection_apply_cases:
  "collection_apply c s = s \<or> (\<exists>P. collection_apply c s = keep_items P s) \<or>
   (\<exists>now p. normalizeCollectionProduct p \<noteq> None \<and>
      List.find (\<lambda>i. isSameCollectionIdentity i (the (normalizeCollectionProduct p))) (col_items s) = None \<and>
      collection_apply c s =
        emit_items (col_items s @ [(the (normalizeCollectionProduct p))\<lparr>ci_addedAt := Some now\<rparr>]) s)"
proof (cases c)
  case (Add now v)
  show ?thesis
  proof (cases "\<exists>p. normalizeCollectionProduct v = Some p \<and>
      List.find (\<lambda>i. isSameCollectionIdentity i p) (col_items s) = None")
    case True
    then obtain p where p: "normalizeCollectionProduct v = Some p"
      "List.find (\<lambda>i. isSameCollectionIdentity i p) (col_items s) = None" by blast
    then have "collection_apply c s = emit_items (col_items s @ [p\<lparr>ci_addedAt := Some now\<rparr>]) s"
      by (simp add: Add addProductCollectionProduct_def Let_def)
    with p show ?thesis by (intro disjI2 exI [of _ now] exI [of _ v]) simp
  next
    case False
    then have "collection_apply c s = s"
      by (auto simp: Add addProductCollectionProduct_def Let_def split: option.split)
    then show ?thesis ..
  qed
next
  case Clear
  have "clearProductCollection s = keep_items (\<lambda>_. False) s"
    by (simp add: clearProductCollection_def keep_items_def)
  with Clear show ?thesis by auto
qed (auto simp: removeProductCollectionProduct_def removeProductCollectionProductsBySource_def
      reconcileProductCollectionSourceProducts_def Let_def split: option.split)

interpretation collection: observable_store col_items col_announced collection_apply
proof
  fix c s
  show "col_announced (collection_apply c s) =
    (if col_items (collection_apply c s) = col_items s then col_announced s
     else col_announced s @ [col_items (collection_apply c s)])"
    using collection_apply_cases [of c s]
  proof (elim disjE exE conjE)
    fix P assume "collection_apply c s = keep_items P s"
    with keep_items_cases [of P s] show ?thesis by (auto simp: emit_items_def)
  qed (simp_all add: emit_items_def)
qed

section \<open>The invariant\<close>

definition plain_text :: "string \<Rightarrow> bool" where
  "plain_text t = (t \<noteq> [] \<and> trim t = t)"

definition item_identity_ok :: "collection_item \<Rightarrow> bool" where
  "item_identity_ok i =
     (ci_id i = json_pair (ci_sourceId i) (ci_productKey i) \<and>
      plain_text (ci_sourceId i) \<and> plain_text (ci_productKey i) \<and> plain_text (ci_datasetName i))"

definition collection_ok :: "collection_item list \<Rightarrow> bool" where
  "collection_ok items =
     (list_all item_identity_ok items \<and>
      sorted_wrt (\<lambda>a b. \<not> isSameCollectionIdentity a b) items)"

lemma plain_text_opt: "opt_text v = Some t \<Longrightarrow> plain_text t"
  by (auto simp: opt_text_Some plain_text_def)

lemma identity_of_plain:
  "plain_text a \<Longrightarrow> plain_text b \<Longrightarrow> identity_of a b = Some (json_pair a b)"
  using serialize_Inr [of "Obj [(''sourceId'', Str a), (''productKey'', Str b)]" "json_pair a b"]
  by (simp add: identity_of_def plain_text_def)

lemma normalize_ok: "normalizeCollectionProduct v = Some p \<Longrightarrow> item_identity_ok p"
proof -
  have source: "plain_text COMPATIBILITY_PRODUCT_SOURCE_ID"
    by (simp add: plain_text_def COMPATIBILITY_PRODUCT_SOURCE_ID_def text_eval)
  assume "normalizeCollectionProduct v = Some p"
  then show ?thesis
    using source plain_text_opt
    by (auto simp: normalizeCollectionProduct_def createLegacyCompatibilityProduct_def
        item_identity_ok_def identity_of_plain split: if_splits option.splits)
qed

lemma same_identity_sym: "isSameCollectionIdentity a b \<Longrightarrow> isSameCollectionIdentity b a"
  by (auto simp: isSameCollectionIdentity_def split: if_splits)

lemma same_identity_addedAt [simp]:
  "isSameCollectionIdentity (a\<lparr>ci_addedAt := t\<rparr>) b = isSameCollectionIdentity a b"
  "isSameCollectionIdentity b (a\<lparr>ci_addedAt := t\<rparr>) = isSameCollectionIdentity b a"
  "item_identity_ok (a\<lparr>ci_addedAt := t\<rparr>) = item_identity_ok a"
  by (simp_all add: isSameCollectionIdentity_def item_identity_ok_def)

lemma collection_ok_filter: "collection_ok items \<Longrightarrow> collection_ok (filter P items)"
  by (auto simp: collection_ok_def list_all_iff sorted_wrt_filter)

lemma collection_ok_apply: "collection_ok (col_items s) \<Longrightarrow> collection_ok (col_items (collection_apply c s))"
  using collection_apply_cases [of c s]
proof (elim disjE exE conjE)
  fix now v
  assume ok: "collection_ok (col_items s)" and some: "normalizeCollectionProduct v \<noteq> None"
    and new: "List.find (\<lambda>i. isSameCollectionIdentity i (the (normalizeCollectionProduct v))) (col_items s) = None"
    and eq: "collection_apply c s =
        emit_items (col_items s @ [(the (normalizeCollectionProduct v))\<lparr>ci_addedAt := Some now\<rparr>]) s"
  from some have "item_identity_ok (the (normalizeCollectionProduct v))"
    using normalize_ok by auto
  with ok new show ?thesis
    by (simp add: eq emit_items_def collection_ok_def sorted_wrt_append find_None_set)
qed (auto simp: collection_ok_filter)

lemma collection_ok_run: "collection_ok (col_items s) \<Longrightarrow> collection_ok (col_items (collection.run cs s))"
  by (induction cs arbitrary: s) (auto simp: collection_ok_apply)

lemma collection_ids_distinct: "collection_ok items \<Longrightarrow> distinct (map ci_id items)"
proof (induction items)
  case (Cons i items)
  have "ci_id i \<noteq> ci_id j" if "j \<in> set items" for j
  proof
    assume eq: "ci_id i = ci_id j"
    from Cons.prems that have "item_identity_ok i" "item_identity_ok j"
      by (auto simp: collection_ok_def list_all_iff)
    with eq have "ci_sourceId i = ci_sourceId j" by (auto simp: item_identity_ok_def dest: json_pair_inj)
    with eq Cons.prems that show False by (auto simp: collection_ok_def isSameCollectionIdentity_def)
  qed
  with Cons show ?case by (auto simp: collection_ok_def)
qed simp

section \<open>Properties\<close>

text \<open>
  C28. Whatever is added, removed, reconciled or cleared, in any order: no two collected products have
  one identity, nor, of the compatibility source, one data set name up to case; the ids are distinct
  and are the serialised identities. A listener hears one announcement per change, and the last one it
  heard is the content.
\<close>

theorem collection_unique:
  assumes "s = collection.run ops initial_collection" and "t = collection.run later s"
  shows "collection_ok (col_items s) \<and> distinct (map ci_id (col_items s)) \<and>
         list_all (\<lambda>i. ci_id i = json_pair (ci_sourceId i) (ci_productKey i)) (col_items s) \<and>
         last (col_items s # collection.heard s t) = col_items t"
proof (intro conjI)
  have "collection_ok (col_items initial_collection)"
    by (simp add: collection_ok_def initial_collection_def)
  then show ok: "collection_ok (col_items s)" unfolding assms(1) by (rule collection_ok_run)
  then show "distinct (map ci_id (col_items s))" by (rule collection_ids_distinct)
  from ok show "list_all (\<lambda>i. ci_id i = json_pair (ci_sourceId i) (ci_productKey i)) (col_items s)"
    by (auto simp: collection_ok_def item_identity_ok_def list_all_iff)
  show "last (col_items s # collection.heard s t) = col_items t"
    unfolding assms(2) using collection.heard_run by blast
qed

definition collect_example :: "collection_op list" where
  "collect_example =
     [Add 1 (Str '' 101dk1 ''), Add 2 (Str ''101DK1''),
      Add 3 (Obj [(''sourceId'', Str ''s101''), (''productKey'', Str ''101DK1''),
                  (''datasetName'', Str ''101DK1''), (''productType'', Str ''s101-product'')])]"

theorem collection_unique_witness:
  "distinct (map ci_id (col_items (collection.run collect_example initial_collection))) \<and>
   length (col_items (collection.run collect_example initial_collection)) = 2"
proof
  show "distinct (map ci_id (col_items (collection.run collect_example initial_collection)))"
    using collection_unique [OF refl refl, where ops = collect_example and later = "[]"] by simp
  show "length (col_items (collection.run collect_example initial_collection)) = 2"
    unfolding collect_example_def collection.run.simps by code_simp
qed

lemma find_same_None:
  "hasProductCollectionProduct v s \<longleftrightarrow>
   (\<exists>p. normalizeCollectionProduct v = Some p \<and> (\<exists>i \<in> set (col_items s). isSameCollectionIdentity i p))"
  if "is_object v"
  using that
  by (auto simp: hasProductCollectionProduct_def resolveExistingItemId_def find_None_set
      simp flip: not_None_eq split: option.split)

lemma remove_added:
  assumes "collection_ok items" and "List.find (\<lambda>i. isSameCollectionIdentity i p) items = None"
    and "item_identity_ok p"
  shows "filter (\<lambda>i. ci_id i \<noteq> ci_id p) items = items"
proof (rule filter_True, rule ballI, rule notI)
  fix i assume i: "i \<in> set items" and eq: "ci_id i = ci_id p"
  with assms(1) have "item_identity_ok i" by (auto simp: collection_ok_def list_all_iff)
  with eq assms(3) have "ci_sourceId i = ci_sourceId p"
    by (auto simp: item_identity_ok_def dest: json_pair_inj)
  with eq i assms(2) show False by (auto simp: isSameCollectionIdentity_def find_None_set)
qed


definition s101_product :: js where
  "s101_product =
     Obj [(''sourceId'', Str ''s101''), (''productKey'', Str ''101DK1''),
          (''datasetName'', Str ''101DK1''), (''productType'', Str ''s101-product'')]"


end
