(* ===== verification/UnionFind.thy ===== *)
theory UnionFind
  imports Main "HOL-Library.Monad_Syntax"
begin

text \<open>
  A forest of parents in an array, its search with path compression and its union, as
  \<open>features/products/domain/workspaceResolutionClaims.js\<close> inlines them. The loops are partial functions
  whose value \<open>None\<close> is a search that does not end or leaves the array; on a forest both end, the
  compression changes no root, and a union joins exactly two trees.
\<close>

section \<open>The loops\<close>

partial_function (option) find_root :: "nat list \<Rightarrow> nat \<Rightarrow> nat option" where
  [code]: "find_root p i =
    (if i < length p then (if p ! i = i then Some i else find_root p (p ! i)) else None)"

partial_function (option) compress :: "nat list \<Rightarrow> nat \<Rightarrow> nat \<Rightarrow> nat list option" where
  [code]: "compress p root i =
    (if i < length p then (if p ! i = i then Some p else compress (p[i := root]) root (p ! i)) else None)"

definition uf_find :: "nat list \<Rightarrow> nat \<Rightarrow> (nat \<times> nat list) option" where
  "uf_find p i = do {
     root \<leftarrow> find_root p i;
     p' \<leftarrow> compress p root i;
     Some (root, p')
   }"

definition uf_union :: "nat list \<Rightarrow> nat \<Rightarrow> nat \<Rightarrow> nat list option" where
  "uf_union p i j = do {
     (ri, p1) \<leftarrow> uf_find p i;
     (rj, p2) \<leftarrow> uf_find p1 j;
     Some (p2[ri := rj])
   }"

section \<open>Forests\<close>

text \<open>A rank that falls along the parents.\<close>

definition ranked :: "(nat \<Rightarrow> nat) \<Rightarrow> nat list \<Rightarrow> bool" where
  "ranked rank p = (\<forall>i < length p. p ! i < length p \<and> (p ! i \<noteq> i \<longrightarrow> rank (p ! i) < rank i))"

definition forest :: "nat list \<Rightarrow> bool" where
  "forest p = (\<exists>rank. ranked rank p)"

lemma rankedD: "ranked rank p \<Longrightarrow> i < length p \<Longrightarrow> p ! i < length p"
  "ranked rank p \<Longrightarrow> i < length p \<Longrightarrow> p ! i \<noteq> i \<Longrightarrow> rank (p ! i) < rank i"
  by (auto simp: ranked_def)

lemma ranked_root:
  assumes "ranked rank p" and "i < length p"
  shows "\<exists>r. find_root p i = Some r \<and> r < length p \<and> p ! r = r \<and> rank r \<le> rank i \<and>
             (p ! i \<noteq> i \<longrightarrow> rank r < rank i)"
  using assms(2)
proof (induction "rank i" arbitrary: i rule: less_induct)
  case less
  show ?case
  proof (cases "p ! i = i")
    case True
    with less.prems show ?thesis by (subst find_root.simps) simp
  next
    case False
    note step = rankedD [OF assms(1) less.prems] False
    from less.hyps [of "p ! i"] step obtain r where
      "find_root p (p ! i) = Some r" "r < length p" "p ! r = r" "rank r \<le> rank (p ! i)" by blast
    with step less.prems show ?thesis by (subst find_root.simps) auto
  qed
qed

lemma find_root_self: "i < length p \<Longrightarrow> p ! i = i \<Longrightarrow> find_root p i = Some i"
  by (subst find_root.simps) simp

lemma find_root_step: "i < length p \<Longrightarrow> find_root p (p ! i) = find_root p i"
  by (cases "p ! i = i") (simp_all add: find_root.simps [of p i])

text \<open>Pointing a node at its root keeps all roots.\<close>

lemma shortcut:
  assumes "ranked rank p" and "i < length p" and "p ! i \<noteq> i" and "find_root p i = Some r"
  shows "ranked rank (p[i := r]) \<and> (\<forall>j < length p. find_root (p[i := r]) j = find_root p j)"
proof -
  from ranked_root [OF assms(1,2)] assms(3,4) have r: "r < length p" "p ! r = r" "rank r < rank i"
    by auto
  have rk: "ranked rank (p[i := r])"
    unfolding ranked_def
  proof (intro allI impI)
    fix j assume "j < length (p[i := r])"
    with r assms(1,2) rankedD [OF assms(1), of j]
    show "p[i := r] ! j < length (p[i := r]) \<and> (p[i := r] ! j \<noteq> j \<longrightarrow> rank (p[i := r] ! j) < rank j)"
      by (cases "j = i") simp_all
  qed
  have "find_root (p[i := r]) j = find_root p j" if "j < length p" for j
    using that
  proof (induction "rank j" arbitrary: j rule: less_induct)
    case less
    consider "j = i" | "j \<noteq> i" "p ! j = j" | "j \<noteq> i" "p ! j \<noteq> j" by blast
    then show ?case
    proof cases
      case 1
      have "r \<noteq> i" using r(3) by auto
      with 1 r assms(2,4) show ?thesis
        by (subst find_root.simps) (simp add: find_root_self)
    next
      case 2
      with less.prems show ?thesis by (simp add: find_root_self)
    next
      case 3
      with rankedD [OF assms(1) less.prems] less.hyps [of "p ! j"]
      have "find_root (p[i := r]) (p ! j) = find_root p (p ! j)" by blast
      with 3 less.prems show ?thesis
        by (simp add: find_root.simps [of "p[i := r]" j] find_root.simps [of p j])
    qed
  qed
  with rk show ?thesis by blast
qed

lemma compress_ranked:
  assumes "ranked rank p" and "i < length p" and "find_root p i = Some r"
  shows "\<exists>q. compress p r i = Some q \<and> length q = length p \<and> ranked rank q \<and>
             (\<forall>j < length p. find_root q j = find_root p j)"
  using assms
proof (induction "rank i" arbitrary: i p rule: less_induct)
  case less
  show ?case
  proof (cases "p ! i = i")
    case True
    with less.prems show ?thesis by (subst compress.simps) auto
  next
    case False
    note sc = shortcut [OF less.prems(1,2) False less.prems(3)]
    note step = rankedD [OF less.prems(1,2)] False
    have root: "find_root (p[i := r]) (p ! i) = Some r"
      using sc step less.prems(2,3) by (simp add: find_root_step)
    from less.hyps [of "p ! i" "p[i := r]"] step sc root less.prems(2) obtain q where
      "compress (p[i := r]) r (p ! i) = Some q" "length q = length p" "ranked rank q"
      "\<forall>j < length p. find_root q j = find_root (p[i := r]) j" by auto
    with sc False less.prems(2) show ?thesis by (subst compress.simps) auto
  qed
qed

theorem uf_find_forest:
  assumes "forest p" and "i < length p"
  obtains r q where "uf_find p i = Some (r, q)" "find_root p i = Some r" "length q = length p" "forest q"
    "r < length p" "find_root q r = Some r" "\<And>j. j < length p \<Longrightarrow> find_root q j = find_root p j" "q ! r = r"
proof -
  from assms(1) obtain rank where rk: "ranked rank p" by (auto simp: forest_def)
  from ranked_root [OF rk assms(2)] obtain r where r: "find_root p i = Some r" "r < length p" "p ! r = r"
    by blast
  from compress_ranked [OF rk assms(2) r(1)] obtain q where q: "compress p r i = Some q"
    "length q = length p" "ranked rank q" "\<forall>j < length p. find_root q j = find_root p j" by blast
  from q r have qr: "find_root q r = Some r" by (simp add: find_root_self)
  from ranked_root [OF q(3), of r] qr r(2) q(2) have "q ! r = r" by auto
  with q r qr show ?thesis by (intro that [of r q]) (auto simp: uf_find_def forest_def)
qed

section \<open>Union\<close>

lemma link_ranked:
  assumes "ranked rank p" and "a < length p" "p ! a = a" and "b < length p" "p ! b = b" and "a \<noteq> b"
  shows "ranked (\<lambda>j. rank j + (if find_root p j = Some a then Suc (rank b) else 0)) (p[a := b])"
  unfolding ranked_def
proof (intro allI impI)
  fix j assume j: "j < length (p[a := b])"
  show "p[a := b] ! j < length (p[a := b]) \<and>
      (p[a := b] ! j \<noteq> j \<longrightarrow>
       rank (p[a := b] ! j) + (if find_root p (p[a := b] ! j) = Some a then Suc (rank b) else 0)
       < rank j + (if find_root p j = Some a then Suc (rank b) else 0))"
  proof (cases "j = a")
    case True
    with assms show ?thesis by (simp add: find_root_self)
  next
    case False
    with assms(1) j show ?thesis by (auto simp: ranked_def find_root_step)
  qed
qed

lemma link_roots:
  assumes "ranked rank p" and "a < length p" "p ! a = a" and "b < length p" "p ! b = b"
    and "j < length p"
  shows "find_root (p[a := b]) j = (if find_root p j = Some a then Some b else find_root p j)"
  using assms(6)
proof (induction "rank j" arbitrary: j rule: less_induct)
  case less
  consider "j = a" | "j \<noteq> a" "p ! j = j" | "j \<noteq> a" "p ! j \<noteq> j" by blast
  then show ?case
  proof cases
    case 1
    have self: "find_root p a = Some a" "find_root p b = Some b"
      using assms by (simp_all add: find_root_self)
    show ?thesis
    proof (cases "a = b")
      case True
      with 1 assms self show ?thesis by (metis list_update_id)
    next
      case False
      have "find_root (p[a := b]) a = find_root (p[a := b]) b"
        using False assms by (simp add: find_root.simps [of "p[a := b]" a])
      also have "\<dots> = Some b" using False assms by (simp add: find_root_self)
      finally show ?thesis using 1 self by simp
    qed
  next
    case 2
    with less.prems show ?thesis by (simp add: find_root_self)
  next
    case 3
    note step = rankedD [OF assms(1) less.prems] 3
    from less.hyps [of "p ! j"] step have
      "find_root (p[a := b]) (p ! j) = (if find_root p (p ! j) = Some a then Some b else find_root p (p ! j))"
      by blast
    with step less.prems show ?thesis
      by (simp add: find_root.simps [of "p[a := b]" j] find_root_step)
  qed
qed

definition same_tree :: "nat list \<Rightarrow> nat \<Rightarrow> nat \<Rightarrow> bool" where
  "same_tree p i j = (find_root p i = find_root p j)"

theorem uf_union_forest:
  assumes "forest p" and "i < length p" and "j < length p"
  obtains q where "uf_union p i j = Some q" "forest q" "length q = length p"
    "\<And>k l. k < length p \<Longrightarrow> l < length p \<Longrightarrow>
       same_tree q k l \<longleftrightarrow> same_tree p k l \<or> same_tree p k i \<and> same_tree p l j \<or>
                         same_tree p k j \<and> same_tree p l i"
proof -
  from uf_find_forest [OF assms(1,2)] obtain ri p1 where 1: "uf_find p i = Some (ri, p1)"
    "find_root p i = Some ri" "length p1 = length p" "forest p1" "ri < length p"
    "\<And>k. k < length p \<Longrightarrow> find_root p1 k = find_root p k" by metis
  from uf_find_forest [OF 1(4), of j] assms(3) 1(3) obtain rj p2 where 2: "uf_find p1 j = Some (rj, p2)"
    "find_root p1 j = Some rj" "length p2 = length p" "forest p2" "rj < length p" "p2 ! rj = rj"
    "\<And>k. k < length p \<Longrightarrow> find_root p2 k = find_root p1 k" by metis
  have roots: "find_root p2 k = find_root p k" if "k < length p" for k
    using 1(6) 2(7) that by simp
  from 2(4) obtain rank where rk: "ranked rank p2" by (auto simp: forest_def)
  have ri: "p2 ! ri = ri"
  proof -
    have "find_root p2 i = Some ri" using roots [OF assms(2)] 1(2) by simp
    with ranked_root [OF rk, of i] assms(2) 2(3) show ?thesis by auto
  qed
  have rj: "find_root p j = Some rj" using 2(2) 1(6) [OF assms(3)] by simp
  let ?q = "p2[ri := rj]"
  have link: "find_root ?q k = (if find_root p k = Some ri then Some rj else find_root p k)"
    if "k < length p" for k
    using link_roots [OF rk _ ri _ 2(6), of k] 1(5) 2(3,5) roots that by simp
  have "forest ?q"
  proof (cases "ri = rj")
    case True
    with 2(4,6) show ?thesis by (metis list_update_id)
  next
    case False
    with link_ranked [OF rk _ ri _ 2(6)] 1(5) 2(3,5) show ?thesis by (auto simp: forest_def)
  qed
  moreover have "uf_union p i j = Some ?q" by (simp add: uf_union_def 1(1) 2(1))
  moreover have "same_tree ?q k l \<longleftrightarrow> same_tree p k l \<or> same_tree p k i \<and> same_tree p l j \<or>
                         same_tree p k j \<and> same_tree p l i" if "k < length p" "l < length p" for k l
    unfolding same_tree_def link [OF that(1)] link [OF that(2)] 1(2) rj by auto
  ultimately show ?thesis by (intro that [of ?q]) (simp_all add: 2(3))
qed

lemma forest_snoc:
  assumes "forest p"
  shows "forest (p @ [length p])"
    and "k < length p \<Longrightarrow> find_root (p @ [length p]) k = find_root p k"
    and "find_root (p @ [length p]) (length p) = Some (length p)"
proof -
  from assms obtain rank where rk: "ranked rank p" by (auto simp: forest_def)
  then have rk': "ranked rank (p @ [length p])"
    by (auto simp: ranked_def nth_append less_Suc_eq)
  then show "forest (p @ [length p])" by (auto simp: forest_def)
  show "find_root (p @ [length p]) (length p) = Some (length p)" by (simp add: find_root_self)
  show "find_root (p @ [length p]) k = find_root p k" if "k < length p"
    using that
  proof (induction "rank k" arbitrary: k rule: less_induct)
    case less
    note step = rankedD [OF rk less.prems]
    show ?case
    proof (cases "p ! k = k")
      case True
      with less.prems show ?thesis by (simp add: find_root_self nth_append)
    next
      case False
      with less.hyps [of "p ! k"] step less.prems show ?thesis
        by (simp add: find_root.simps [of "p @ [length p]" k] find_root.simps [of p k] nth_append)
    qed
  qed
qed

lemma forest_nil [simp]: "forest []"
  by (simp add: forest_def ranked_def)

lemma find_root_bound: "forest p \<Longrightarrow> i < length p \<Longrightarrow> \<exists>r. find_root p i = Some r \<and> r < length p"
  by (auto simp: forest_def dest: ranked_root)

end
