(* ===== verification/WorkspaceClaims.thy ===== *)
theory WorkspaceClaims
  imports ProductIdentity UnionFind
begin

text \<open>
  \<open>features/products/domain/workspaceResolutionClaims.js\<close>: the products a workspace asked for are
  resolved to packages, each of which claims the names of its members and an identity. Claims that
  share a name or an identity are joined, one result is published per joined group, and a group whose
  claims contradict each other fails.  the loops return
  \<open>None\<close> only if a search does not end, which never happens.
\<close>

section \<open>Claims\<close>

definition name_key :: "js \<Rightarrow> string" where
  "name_key v = upper_text v"

record claim =
  cl_resolution :: js
  cl_signature :: string

record claim_state =
  claims :: "claim list"
  parents :: "nat list"
  aliasOwners :: "(string, nat) jmap"
  identityOwners :: "(js, nat) jmap"

definition initial_claims :: claim_state where
  "initial_claims = \<lparr>claims = [], parents = [], aliasOwners = [], identityOwners = []\<rparr>"

definition is_package_resolution :: "js \<Rightarrow> bool" where
  "is_package_resolution r =
     (field r ''status'' = Str ''resolved'' \<and> field (field r ''workUnit'') ''kind'' = Str ''package'')"

definition claim_members :: "js \<Rightarrow> js list" where
  "claim_members r = elements (field (field r ''workUnit'') ''members'')"

definition claim_aliases :: "js \<Rightarrow> string list" where
  "claim_aliases r =
     set_of_list (filter (\<lambda>t. t \<noteq> [])
       ([name_key (field r ''requestedDatasetName''), name_key (field (field r ''product'') ''datasetName'')] @
        map (\<lambda>m. name_key (field m ''datasetName'')) (claim_members r)))"

definition claim_identity :: "js \<Rightarrow> js" where
  "claim_identity r = field (field r ''workUnit'') ''identityKey''"

definition claim_signature :: "js \<Rightarrow> string" where
  "claim_signature r =
     (let unit = field r ''workUnit''; product = field r ''product'' in
      json_text (Arr
        [field unit ''identityKey'', Str (name_key (field product ''datasetName'')),
         field product ''sourceId'', field product ''identityKey'', field unit ''primaryMemberKey'',
         Arr (map (\<lambda>m. Arr [field m ''key'', field m ''sourceId'', Str (name_key (field m ''datasetName''))])
                (claim_members r)),
         (if is_nullish (field r ''memberProducts'') then Undef
          else Arr (map (\<lambda>p. Arr
            [field p ''sourceId'', Str (name_key (field p ''datasetName'')), field p ''identityKey'',
             field p ''productKey'',
             field (field (field p ''data'') ''attributes'') ''productSpecification''])
            (elements (field r ''memberProducts''))))]))"

definition claimOwner ::
    "('k, nat) jmap \<Rightarrow> 'k \<Rightarrow> nat \<Rightarrow> nat list \<Rightarrow> (('k, nat) jmap \<times> nat list) option" where
  "claimOwner owners name index p =
     (case jm_get owners name of
        None \<Rightarrow> Some (jm_set name index owners, p)
      | Some j \<Rightarrow> do { p' \<leftarrow> uf_union p index j; Some (jm_set name index owners, p') })"

fun claim_all ::
    "('k, nat) jmap \<Rightarrow> 'k list \<Rightarrow> nat \<Rightarrow> nat list \<Rightarrow> (('k, nat) jmap \<times> nat list) option" where
  "claim_all owners [] index p = Some (owners, p)"
| "claim_all owners (n # ns) index p = do {
     (owners', p') \<leftarrow> claimOwner owners n index p;
     claim_all owners' ns index p'
   }"

definition add_claim :: "js \<Rightarrow> claim_state \<Rightarrow> claim_state option" where
  "add_claim r s = do {
     let index = length (claims s);
     (alias', p1) \<leftarrow> claim_all (aliasOwners s) (claim_aliases r) index (parents s @ [index]);
     (ident', p2) \<leftarrow> claimOwner (identityOwners s) (claim_identity r) index p1;
     Some \<lparr>claims = claims s @ [\<lparr>cl_resolution = r, cl_signature = claim_signature r\<rparr>],
           parents = p2, aliasOwners = alias', identityOwners = ident'\<rparr>
   }"

fun collect_claims :: "js list \<Rightarrow> claim_state \<Rightarrow> claim_state option" where
  "collect_claims [] s = Some s"
| "collect_claims (r # rs) s =
     (if \<not> is_package_resolution r then collect_claims rs s
      else do { s' \<leftarrow> add_claim r s; collect_claims rs s' })"

section \<open>Groups\<close>

fun build_groups ::
    "claim list \<Rightarrow> nat \<Rightarrow> nat list \<Rightarrow> (nat, claim list) jmap \<Rightarrow> (nat list \<times> (nat, claim list) jmap) option"
where
  "build_groups [] index p groups = Some (p, groups)"
| "build_groups (c # cs) index p groups = do {
     (root, p') \<leftarrow> uf_find p index;
     let grp = (case jm_get groups root of None \<Rightarrow> [] | Some g \<Rightarrow> g);
     build_groups cs (Suc index) p' (jm_set root (grp @ [c]) groups)
   }"

section \<open>Results\<close>

definition conflict_result :: "string \<Rightarrow> js \<Rightarrow> claim list \<Rightarrow> js" where
  "conflict_result surface r grp =
     Obj [(''status'', Str ''failed''), (''requestedDatasetName'', field r ''requestedDatasetName''),
          (''datasetName'', field r ''requestedDatasetName''), (''product'', Null), (''workUnit'', Null),
          (''providerErrors'', Arr (concat
             (map (\<lambda>c. elements (field (cl_resolution c) ''providerErrors'')) grp))),
          (''error'', Str (''Conflicting '' @ surface @ '' package ownership or canonical identity.''))]"

definition group_result :: "string \<Rightarrow> js \<Rightarrow> claim list \<Rightarrow> js" where
  "group_result surface r grp =
     (if 1 < length (set_of_list (map cl_signature grp)) then conflict_result surface r grp
      else spread (cl_resolution (hd grp))
             (Obj [(''requestedDatasetName'', field r ''requestedDatasetName'')]))"

record publish_state =
  published :: "js list"
  publishedGroups :: "nat list"
  publishedNames :: "string list"
  pub_parents :: "nat list"

fun publish ::
    "string \<Rightarrow> (string, nat) jmap \<Rightarrow> (nat, claim list) jmap \<Rightarrow> js list \<Rightarrow> publish_state \<Rightarrow>
       publish_state option" where
  "publish surface owners groups [] s = Some s"
| "publish surface owners groups (r # rs) s =
     (let name = name_key (field r ''requestedDatasetName'') in
      case jm_get owners name of
        None \<Rightarrow>
          publish surface owners groups rs
            (s\<lparr>published := (if name \<in> set (publishedNames s) then published s else published s @ [r]),
               publishedNames := name # publishedNames s\<rparr>)
      | Some owner \<Rightarrow> do {
          (root, p') \<leftarrow> uf_find (pub_parents s) owner;
          if root \<in> set (publishedGroups s)
          then publish surface owners groups rs (s\<lparr>pub_parents := p'\<rparr>)
          else publish surface owners groups rs
                 (s\<lparr>published := published s @
                      [group_result surface r (case jm_get groups root of None \<Rightarrow> [] | Some g \<Rightarrow> g)],
                    publishedGroups := root # publishedGroups s, pub_parents := p'\<rparr>)
        })"

definition reconcileWorkspaceResolutions :: "string \<Rightarrow> js list \<Rightarrow> js list option" where
  "reconcileWorkspaceResolutions surface resolutions = do {
     s \<leftarrow> collect_claims resolutions initial_claims;
     (p, groups) \<leftarrow> build_groups (claims s) 0 (parents s) [];
     r \<leftarrow> publish surface (aliasOwners s) groups resolutions
       \<lparr>published = [], publishedGroups = [], publishedNames = [], pub_parents = p\<rparr>;
     Some (published r)
   }"

section \<open>Joining the claims\<close>

definition owner_ok :: "('k, nat) jmap \<Rightarrow> nat list \<Rightarrow> (nat \<Rightarrow> 'k set) \<Rightarrow> bool" where
  "owner_ok owners p names =
     ((\<forall>a i. jm_get owners a = Some i \<longrightarrow> i < length p \<and> a \<in> names i) \<and>
      (\<forall>i < length p. \<forall>a \<in> names i. \<exists>k. jm_get owners a = Some k \<and> same_tree p i k))"

text \<open>A later forest that only joins trees.\<close>

definition coarser :: "nat list \<Rightarrow> nat list \<Rightarrow> bool" where
  "coarser p q =
     (forest q \<and> length q = length p \<and>
      (\<forall>i < length p. \<forall>j < length p. same_tree p i j \<longrightarrow> same_tree q i j))"

definition within :: "nat list \<Rightarrow> (nat \<times> nat) set \<Rightarrow> bool" where
  "within p E = (\<forall>i < length p. \<forall>j < length p. same_tree p i j \<longrightarrow> (i, j) \<in> E)"

lemma coarser_trans: "coarser p q \<Longrightarrow> coarser q r \<Longrightarrow> coarser p r"
  by (simp add: coarser_def)

lemma owner_ok_coarser: "owner_ok owners p names \<Longrightarrow> coarser p q \<Longrightarrow> owner_ok owners q names"
  unfolding owner_ok_def coarser_def by (metis (full_types))

lemma owner_ok_owned:
  assumes "owner_ok owners p names" and "i < length p" and "a \<in> names i"
  obtains k where "jm_get owners a = Some k" "same_tree p i k" "k < length p"
  using assms unfolding owner_ok_def by blast

lemma claimOwner_step:
  assumes "forest p" and "owner_ok owners p names" and "index < length p"
    and "within p E" and "sym E" and "trans E"
    and "\<And>i. i < length p \<Longrightarrow> a \<in> names i \<Longrightarrow> (index, i) \<in> E"
  shows "\<exists>owners' p'. claimOwner owners a index p = Some (owners', p') \<and> coarser p p' \<and> within p' E \<and>
           owner_ok owners' p' (names(index := insert a (names index)))"
proof (cases "jm_get owners a")
  case None
  have "owner_ok (jm_set a index owners) p (names(index := insert a (names index)))"
    unfolding owner_ok_def
  proof (intro conjI allI impI ballI)
    fix b i assume "jm_get (jm_set a index owners) b = Some i"
    with assms(2,3) show "i < length p" "b \<in> (names(index := insert a (names index))) i"
      by (auto simp: owner_ok_def split: if_splits)
  next
    fix i b assume i: "i < length p" and b: "b \<in> (names(index := insert a (names index))) i"
    show "\<exists>k. jm_get (jm_set a index owners) b = Some k \<and> same_tree p i k"
    proof (cases "b = a")
      case True
      have "i = index"
      proof (rule ccontr)
        assume "i \<noteq> index"
        with b True have "a \<in> names i" by simp
        from owner_ok_owned [OF assms(2) i this] None show False by simp
      qed
      with True show ?thesis by (simp add: same_tree_def)
    next
      case False
      with b have "b \<in> names i" by (auto split: if_splits)
      from owner_ok_owned [OF assms(2) i this] False show ?thesis by auto
    qed
  qed
  with None assms(1,4) show ?thesis by (auto simp: claimOwner_def coarser_def)
next
  case (Some j)
  with assms(2) have j: "j < length p" "a \<in> names j" by (auto simp: owner_ok_def)
  from uf_union_forest [OF assms(1,3) j(1)] obtain q where q: "uf_union p index j = Some q"
    "forest q" "length q = length p"
    "\<And>k l. k < length p \<Longrightarrow> l < length p \<Longrightarrow>
       same_tree q k l \<longleftrightarrow> same_tree p k l \<or> same_tree p k index \<and> same_tree p l j \<or>
                         same_tree p k j \<and> same_tree p l index" by metis
  have edge: "(index, j) \<in> E" using assms(7) j by blast
  have refl_tree: "same_tree p k k" for k by (simp add: same_tree_def)
  have "within q E"
    unfolding within_def q(3)
  proof (intro allI impI)
    fix k l assume kl: "k < length p" "l < length p" "same_tree q k l"
    from q(4) [OF kl(1,2)] kl(3) consider "same_tree p k l" | "same_tree p k index" "same_tree p l j"
      | "same_tree p k j" "same_tree p l index" by blast
    then show "(k, l) \<in> E"
    proof cases
      case 1
      with assms(4) kl show ?thesis by (auto simp: within_def)
    next
      case 2
      with assms(3,4) kl j have "(k, index) \<in> E" "(l, j) \<in> E" by (auto simp: within_def)
      with edge assms(5,6) show ?thesis by (meson symD transD)
    next
      case 3
      with assms(3,4) kl j have "(k, j) \<in> E" "(l, index) \<in> E" by (auto simp: within_def)
      with edge assms(5,6) show ?thesis by (meson symD transD)
    qed
  qed
  moreover have coarse: "coarser p q" using q by (simp add: coarser_def)
  moreover have "owner_ok (jm_set a index owners) q (names(index := insert a (names index)))"
    unfolding owner_ok_def
  proof (intro conjI allI impI ballI)
    fix b i assume "jm_get (jm_set a index owners) b = Some i"
    with assms(2,3) q(3) show "i < length q" "b \<in> (names(index := insert a (names index))) i"
      by (auto simp: owner_ok_def split: if_splits)
  next
    fix i b assume i: "i < length q" and b: "b \<in> (names(index := insert a (names index))) i"
    show "\<exists>k. jm_get (jm_set a index owners) b = Some k \<and> same_tree q i k"
    proof (cases "b = a")
      case True
      show ?thesis
      proof (cases "i = index")
        case False
        with i b True assms(2) q(3) Some have "same_tree p i j" by (fastforce simp: owner_ok_def)
        with q(3,4) i assms(3) refl_tree True show ?thesis by auto
      qed (use True in \<open>simp add: same_tree_def\<close>)
    next
      case False
      with b have b': "b \<in> names i" by (auto split: if_splits)
      have "i < length p" using i q(3) by simp
      from owner_ok_owned [OF assms(2) this b'] obtain k where
        "jm_get owners b = Some k" "same_tree p i k" "k < length p" .
      with q(3,4) i False show ?thesis by auto
    qed
  qed
  ultimately show ?thesis using Some q(1) by (auto simp: claimOwner_def)
qed

lemma claim_all_step:
  assumes "forest p" and "owner_ok owners p names" and "index < length p"
    and "within p E" and "sym E" and "trans E" and "refl E"
    and "\<And>i a. i < length p \<Longrightarrow> a \<in> set ns \<Longrightarrow> a \<in> names i \<Longrightarrow> (index, i) \<in> E"
  shows "\<exists>owners' p'. claim_all owners ns index p = Some (owners', p') \<and> coarser p p' \<and> within p' E \<and>
           owner_ok owners' p' (names(index := names index \<union> set ns))"
  using assms
proof (induction ns arbitrary: owners p names)
  case Nil
  then show ?case by (auto simp: coarser_def)
next
  case (Cons n ns)
  from claimOwner_step [OF Cons.prems(1-6), of n] Cons.prems(8) obtain owners1 p1 where
    1: "claimOwner owners n index p = Some (owners1, p1)" "coarser p p1" "within p1 E"
       "owner_ok owners1 p1 (names(index := insert n (names index)))" by auto
  have len: "length p1 = length p" and f: "forest p1" using 1(2) by (simp_all add: coarser_def)
  let ?names = "names(index := insert n (names index))"
  have edge: "(index, i) \<in> E" if "i < length p1" "a \<in> set ns" "a \<in> ?names i" for i a
  proof (cases "i = index")
    case True
    with Cons.prems(7) show ?thesis by (auto simp: refl_on_def)
  next
    case False
    with that Cons.prems(8) len show ?thesis by auto
  qed
  have "index < length p1" using Cons.prems(3) len by simp
  then have "\<exists>owners' p'. claim_all owners1 ns index p1 = Some (owners', p') \<and> coarser p1 p' \<and>
      within p' E \<and> owner_ok owners' p' (?names(index := ?names index \<union> set ns))"
    by (rule Cons.IH [OF f 1(4) _ 1(3) Cons.prems(5-7)]) (rule edge)
  then obtain owners2 p2 where
    2: "claim_all owners1 ns index p1 = Some (owners2, p2)" "coarser p1 p2" "within p2 E"
       "owner_ok owners2 p2 (?names(index := ?names index \<union> set ns))" by blast
  have "?names(index := ?names index \<union> set ns) = names(index := names index \<union> set (n # ns))" by auto
  with 1(1) 2 coarser_trans [OF 1(2) 2(2)] show ?case by (simp del: fun_upd_apply fun_upd_upd)
qed

section \<open>Connected claims\<close>

definition shares :: "claim list \<Rightarrow> nat \<Rightarrow> nat \<Rightarrow> bool" where
  "shares cs i j =
     (i < length cs \<and> j < length cs \<and>
      (set (claim_aliases (cl_resolution (cs ! i))) \<inter> set (claim_aliases (cl_resolution (cs ! j))) \<noteq> {} \<or>
       claim_identity (cl_resolution (cs ! i)) = claim_identity (cl_resolution (cs ! j))))"

text \<open>The least equivalence in which claims that share a name or an identity are equivalent.\<close>

definition connected :: "claim list \<Rightarrow> (nat \<times> nat) set" where
  "connected cs = {(i, j). shares cs i j}\<^sup>*"

lemma sym_connected: "sym (connected cs)"
  unfolding connected_def by (intro sym_rtrancl symI) (auto simp: shares_def)

lemma trans_connected: "trans (connected cs)"
  by (simp add: connected_def trans_rtrancl)

lemma refl_connected: "refl (connected cs)"
  by (simp add: connected_def refl_rtrancl)

lemma shares_connected: "shares cs i j \<Longrightarrow> (i, j) \<in> connected cs"
  by (auto simp: connected_def)

lemma connected_snoc: "connected cs \<subseteq> connected (cs @ [c])"
  unfolding connected_def by (intro rtrancl_mono) (auto simp: shares_def nth_append)

definition claims_ok :: "claim_state \<Rightarrow> bool" where
  "claims_ok s =
     (forest (parents s) \<and> length (parents s) = length (claims s) \<and>
      within (parents s) (connected (claims s)) \<and>
      owner_ok (aliasOwners s) (parents s) (\<lambda>i. set (claim_aliases (cl_resolution (claims s ! i)))) \<and>
      owner_ok (identityOwners s) (parents s) (\<lambda>i. {claim_identity (cl_resolution (claims s ! i))}))"

lemma owner_ok_snoc:
  assumes "owner_ok owners p names" and "forest p"
  shows "owner_ok owners (p @ [length p]) (names(length p := {}))"
  unfolding owner_ok_def
proof (intro conjI allI impI ballI)
  fix a i assume "jm_get owners a = Some i"
  with assms(1) have "i < length p" "a \<in> names i" by (auto simp: owner_ok_def)
  then show "i < length (p @ [length p])" "a \<in> (names(length p := {})) i" by auto
next
  fix i a assume "i < length (p @ [length p])" "a \<in> (names(length p := {})) i"
  then have "i < length p" "a \<in> names i" by (auto split: if_splits)
  from owner_ok_owned [OF assms(1) this] obtain k where
    "jm_get owners a = Some k" "same_tree p i k" "k < length p" .
  with \<open>i < length p\<close> show "\<exists>k. jm_get owners a = Some k \<and> same_tree (p @ [length p]) i k"
    by (simp add: same_tree_def forest_snoc(2) [OF assms(2)])
qed

lemma within_snoc:
  assumes "within p E" and "forest p" and "refl E"
  shows "within (p @ [length p]) E"
  unfolding within_def
proof (intro allI impI)
  fix i j assume ij: "i < length (p @ [length p])" "j < length (p @ [length p])"
    "same_tree (p @ [length p]) i j"
  have last: "same_tree (p @ [length p]) k (length p) \<Longrightarrow> k < length p \<Longrightarrow> False" for k
    using find_root_bound [OF assms(2), of k] forest_snoc [OF assms(2)] by (auto simp: same_tree_def)
  consider "i < length p" "j < length p" | "i = j" | "i < length p" "j = length p" | "i = length p" "j < length p"
    using ij by (auto simp: less_Suc_eq)
  then show "(i, j) \<in> E"
  proof cases
    case 1
    with ij assms(1) show ?thesis by (simp add: within_def same_tree_def forest_snoc(2) [OF assms(2)])
  next
    case 2
    with assms(3) show ?thesis by (auto simp: refl_on_def)
  next
    case 3
    with last ij show ?thesis by blast
  next
    case 4
    with last [of j] ij show ?thesis by (auto simp: same_tree_def)
  qed
qed

lemma owner_ok_cong:
  "owner_ok owners p f \<Longrightarrow> (\<And>i. i < length p \<Longrightarrow> f i = g i) \<Longrightarrow> owner_ok owners p g"
  unfolding owner_ok_def by metis

lemma add_claim_ok:
  assumes "claims_ok s"
  shows "\<exists>s'. add_claim r s = Some s' \<and> claims_ok s' \<and>
    claims s' = claims s @ [\<lparr>cl_resolution = r, cl_signature = claim_signature r\<rparr>]"
proof -
  let ?c = "\<lparr>cl_resolution = r, cl_signature = claim_signature r\<rparr>"
  let ?cs = "claims s @ [?c]"
  let ?n = "length (claims s)"
  let ?p = "parents s @ [?n]"
  let ?als = "\<lambda>i. set (claim_aliases (cl_resolution (claims s ! i)))"
  let ?ident = "\<lambda>i. {claim_identity (cl_resolution (claims s ! i))}"
  from assms have ok: "forest (parents s)" "length (parents s) = ?n"
    "within (parents s) (connected (claims s))" "owner_ok (aliasOwners s) (parents s) ?als"
    "owner_ok (identityOwners s) (parents s) ?ident" by (simp_all add: claims_ok_def)
  have w: "within (parents s) (connected ?cs)"
    using ok(3) connected_snoc [of "claims s" ?c] by (auto simp: within_def)
  note E = sym_connected trans_connected refl_connected
  have p: "forest ?p" "within ?p (connected ?cs)" "?n < length ?p"
    "owner_ok (aliasOwners s) ?p (?als(?n := {}))" "owner_ok (identityOwners s) ?p (?ident(?n := {}))"
    using forest_snoc(1) [OF ok(1)] within_snoc [OF w ok(1) E(3)] owner_ok_snoc [OF ok(4,1)]
      owner_ok_snoc [OF ok(5,1)] ok(2) by simp_all
  have edge: "(?n, i) \<in> connected ?cs"
    if "i < length ?p" "a \<in> set (claim_aliases r)" "a \<in> (?als(?n := {})) i" for i a
    using that ok(2) by (intro shares_connected) (auto simp: shares_def nth_append split: if_splits)
  have "\<exists>al p1. claim_all (aliasOwners s) (claim_aliases r) ?n ?p = Some (al, p1) \<and> coarser ?p p1 \<and>
      within p1 (connected ?cs) \<and>
      owner_ok al p1 (?als(?n := {}, ?n := (?als(?n := {})) ?n \<union> set (claim_aliases r)))"
    by (rule claim_all_step [OF p(1,4,3,2) E]) (rule edge)
  then obtain al p1 where
    1: "claim_all (aliasOwners s) (claim_aliases r) ?n ?p = Some (al, p1)" "coarser ?p p1"
       "within p1 (connected ?cs)"
       "owner_ok al p1 (?als(?n := {}, ?n := (?als(?n := {})) ?n \<union> set (claim_aliases r)))" by blast
  have len: "length p1 = Suc ?n" and f1: "forest p1" using 1(2) ok(2) by (simp_all add: coarser_def)
  have edge': "(?n, i) \<in> connected ?cs"
    if "i < length p1" "claim_identity r \<in> (?ident(?n := {})) i" for i
    using that len by (intro shares_connected) (auto simp: shares_def nth_append less_Suc_eq split: if_splits)
  have "\<exists>idn p2. claimOwner (identityOwners s) (claim_identity r) ?n p1 = Some (idn, p2) \<and>
      coarser p1 p2 \<and> within p2 (connected ?cs) \<and>
      owner_ok idn p2 (?ident(?n := {}, ?n := insert (claim_identity r) ((?ident(?n := {})) ?n)))"
    by (rule claimOwner_step [OF f1 owner_ok_coarser [OF p(5) 1(2)] _ 1(3) E(1,2)])
       (use len edge' in auto)
  then obtain idn p2 where
    2: "claimOwner (identityOwners s) (claim_identity r) ?n p1 = Some (idn, p2)" "coarser p1 p2"
       "within p2 (connected ?cs)"
       "owner_ok idn p2 (?ident(?n := {}, ?n := insert (claim_identity r) ((?ident(?n := {})) ?n)))" by blast
  have len2: "length p2 = Suc ?n" "forest p2" using 2(2) len by (simp_all add: coarser_def)
  have al: "owner_ok al p2 (\<lambda>i. set (claim_aliases (cl_resolution (?cs ! i))))"
    by (rule owner_ok_cong [OF owner_ok_coarser [OF 1(4) 2(2)]]) (auto simp: nth_append len2 less_Suc_eq)
  have idn: "owner_ok idn p2 (\<lambda>i. {claim_identity (cl_resolution (?cs ! i))})"
    by (rule owner_ok_cong [OF 2(4)]) (auto simp: nth_append len2 less_Suc_eq)
  show ?thesis
    using al idn 2(3) len2 by (simp add: add_claim_def 1(1) 2(1) claims_ok_def Let_def)
qed

lemma claims_ok_initial: "claims_ok initial_claims"
  by (simp add: claims_ok_def initial_claims_def within_def owner_ok_def)

definition claim_of :: "js \<Rightarrow> claim" where
  "claim_of r = \<lparr>cl_resolution = r, cl_signature = claim_signature r\<rparr>"

lemma collect_claims_ok:
  "claims_ok s \<Longrightarrow> \<exists>s'. collect_claims rs s = Some s' \<and> claims_ok s' \<and>
     claims s' = claims s @ map claim_of (filter is_package_resolution rs)"
proof (induction rs arbitrary: s)
  case (Cons r rs)
  show ?case
  proof (cases "is_package_resolution r")
    case True
    from add_claim_ok [OF Cons.prems, of r] obtain s1 where s1: "add_claim r s = Some s1" "claims_ok s1"
      "claims s1 = claims s @ [claim_of r]" by (auto simp: claim_of_def)
    from Cons.IH [OF s1(2)] s1 True show ?thesis by auto
  qed (use Cons in simp)
qed simp

lemma claims_ok_same_tree:
  assumes "claims_ok s" and "i < length (claims s)" and "j < length (claims s)"
  shows "same_tree (parents s) i j \<longleftrightarrow> (i, j) \<in> connected (claims s)"
proof
  show "same_tree (parents s) i j \<Longrightarrow> (i, j) \<in> connected (claims s)"
    using assms by (auto simp: claims_ok_def within_def)
next
  assume "(i, j) \<in> connected (claims s)"
  then show "same_tree (parents s) i j"
    unfolding connected_def
  proof (induction rule: rtrancl_induct)
    case (step k l)
    from step(2) have sh: "shares (claims s) k l" by simp
    then have kl: "k < length (parents s)" "l < length (parents s)"
      using assms(1) by (simp_all add: shares_def claims_ok_def)
    have own: "owner_ok (aliasOwners s) (parents s) (\<lambda>i. set (claim_aliases (cl_resolution (claims s ! i))))"
      "owner_ok (identityOwners s) (parents s) (\<lambda>i. {claim_identity (cl_resolution (claims s ! i))})"
      using assms(1) by (simp_all add: claims_ok_def)
    from sh consider a where "a \<in> set (claim_aliases (cl_resolution (claims s ! k)))"
        "a \<in> set (claim_aliases (cl_resolution (claims s ! l)))"
      | "claim_identity (cl_resolution (claims s ! k)) = claim_identity (cl_resolution (claims s ! l))"
      by (auto simp: shares_def)
    then have "same_tree (parents s) k l"
    proof cases
      case 1
      with owner_ok_owned [OF own(1) kl(1) 1(1)] owner_ok_owned [OF own(1) kl(2) 1(2)]
      show ?thesis by (metis option.inject same_tree_def)
    next
      case 2
      with owner_ok_owned [OF own(2) kl(1)] owner_ok_owned [OF own(2) kl(2)]
      show ?thesis by (metis option.inject same_tree_def singletonI)
    qed
    with step(3) show ?case by (simp add: same_tree_def)
  qed (simp add: same_tree_def)
qed

section \<open>What the reconciliation publishes\<close>

definition claim_group :: "claim list \<Rightarrow> nat \<Rightarrow> claim list" where
  "claim_group cs j = map snd (filter (\<lambda>(i, c). (j, i) \<in> connected cs) (enumerate 0 cs))"

definition claimed_by :: "claim list \<Rightarrow> string \<Rightarrow> nat option" where
  "claimed_by cs name =
     find (\<lambda>j. name \<in> set (claim_aliases (cl_resolution (cs ! j)))) [0..<length cs]"

text \<open>
  The results in the order of the resolutions: a resolution nobody claims passes once per name, a
  claimed one gives the result of its group, once per group. \<open>served\<close> are claims of the groups
  already published.
\<close>

fun spec_publish :: "string \<Rightarrow> claim list \<Rightarrow> js list \<Rightarrow> nat list \<Rightarrow> string list \<Rightarrow> js list" where
  "spec_publish surface cs [] served seen = []"
| "spec_publish surface cs (r # rs) served seen =
     (let name = name_key (field r ''requestedDatasetName'') in
      case claimed_by cs name of
        None \<Rightarrow> (if name \<in> set seen then [] else [r]) @ spec_publish surface cs rs served (name # seen)
      | Some j \<Rightarrow>
          (if \<exists>i \<in> set served. (i, j) \<in> connected cs then spec_publish surface cs rs served seen
           else group_result surface r (claim_group cs j) # spec_publish surface cs rs (j # served) seen))"

abbreviation group_of :: "(nat, claim list) jmap \<Rightarrow> nat \<Rightarrow> claim list" where
  "group_of groups root \<equiv> (case jm_get groups root of None \<Rightarrow> [] | Some g \<Rightarrow> g)"

lemma build_groups_ok:
  assumes "forest p" and "index + length cs \<le> length p"
  shows "\<exists>p' groups'. build_groups cs index p groups = Some (p', groups') \<and> forest p' \<and>
     length p' = length p \<and> (\<forall>j < length p. find_root p' j = find_root p j) \<and>
     (\<forall>r. group_of groups' r =
       group_of groups r @ map snd (filter (\<lambda>(i, c). find_root p i = Some r) (enumerate index cs)))"
  using assms
proof (induction cs arbitrary: index p groups)
  case (Cons c cs)
  from Cons.prems(2) have i: "index < length p" by simp
  from uf_find_forest [OF Cons.prems(1) i] obtain root q where q: "uf_find p index = Some (root, q)"
    "find_root p index = Some root" "length q = length p" "forest q"
    "\<And>j. j < length p \<Longrightarrow> find_root q j = find_root p j" by metis
  let ?g = "jm_set root (group_of groups root @ [c]) groups"
  have len: "Suc index + length cs \<le> length q" using Cons.prems(2) q(3) by simp
  from Cons.IH [OF q(4) len, of ?g] obtain p' groups' where
    1: "build_groups cs (Suc index) q ?g = Some (p', groups')" "forest p'" "length p' = length q"
       "\<forall>j < length q. find_root p' j = find_root q j"
       "\<forall>r. group_of groups' r =
          group_of ?g r @ map snd (filter (\<lambda>(i, c). find_root q i = Some r) (enumerate (Suc index) cs))"
    by blast
  have "filter (\<lambda>(i, c). find_root q i = Some r) (enumerate (Suc index) cs) =
        filter (\<lambda>(i, c). find_root p i = Some r) (enumerate (Suc index) cs)" for r
    using q(5) Cons.prems(2) by (intro filter_cong) (auto simp: in_set_enumerate_eq)
  with 1 q show ?case by (simp add: Let_def)
qed simp

lemma publish_ok:
  assumes ok: "claims_ok s"
    and groups: "\<And>r. group_of groups r =
      map snd (filter (\<lambda>(i, c). find_root (parents s) i = Some r) (enumerate 0 (claims s)))"
  shows "forest (pub_parents ps) \<Longrightarrow> length (pub_parents ps) = length (claims s) \<Longrightarrow>
    (\<And>j. j < length (claims s) \<Longrightarrow> find_root (pub_parents ps) j = find_root (parents s) j) \<Longrightarrow>
    set served \<subseteq> {..<length (claims s)} \<Longrightarrow>
    (\<And>r. r \<in> set (publishedGroups ps) \<longleftrightarrow> (\<exists>i \<in> set served. find_root (parents s) i = Some r)) \<Longrightarrow>
    \<exists>ps'. publish surface (aliasOwners s) groups rs ps = Some ps' \<and>
      published ps' = published ps @ spec_publish surface (claims s) rs served (publishedNames ps)"
proof (induction rs arbitrary: ps served)
  case (Cons r rs)
  let ?name = "name_key (field r ''requestedDatasetName'')"
  let ?cs = "claims s"
  have own: "owner_ok (aliasOwners s) (parents s) (\<lambda>i. set (claim_aliases (cl_resolution (?cs ! i))))"
    and len: "length (parents s) = length ?cs" using ok by (simp_all add: claims_ok_def)
  show ?case
  proof (cases "claimed_by ?cs ?name")
    case None
    then have "jm_get (aliasOwners s) ?name = None"
      using own len by (cases "jm_get (aliasOwners s) ?name") (auto simp: claimed_by_def find_None_iff owner_ok_def)
    with None Cons.IH [of "ps\<lparr>published := (if ?name \<in> set (publishedNames ps) then published ps
        else published ps @ [r]), publishedNames := ?name # publishedNames ps\<rparr>" served] Cons.prems
    show ?thesis by (auto simp: Let_def)
  next
    case (Some j)
    then have j: "j < length ?cs" "?name \<in> set (claim_aliases (cl_resolution (?cs ! j)))"
      by (auto simp: claimed_by_def dest: find_SomeD)
    with len have "j < length (parents s)" by simp
    from owner_ok_owned [OF own this j(2)] obtain k where k: "jm_get (aliasOwners s) ?name = Some k"
      "same_tree (parents s) j k" "k < length (parents s)" .
    from k(3) len Cons.prems(2) have k': "k < length (pub_parents ps)" by simp
    from uf_find_forest [OF Cons.prems(1) k'] obtain root q where q: "uf_find (pub_parents ps) k = Some (root, q)"
      "find_root (pub_parents ps) k = Some root" "length q = length (pub_parents ps)" "forest q"
      "\<And>j. j < length (pub_parents ps) \<Longrightarrow> find_root q j = find_root (pub_parents ps) j" by metis
    have root: "find_root (parents s) j = Some root"
      using k Cons.prems(3) [of k] len q(2) by (simp add: same_tree_def)
    have served: "root \<in> set (publishedGroups ps) \<longleftrightarrow> (\<exists>i \<in> set served. (i, j) \<in> connected ?cs)"
      unfolding Cons.prems(5)
    proof (rule bex_cong [OF refl])
      fix i assume "i \<in> set served"
      with Cons.prems(4) have "i < length ?cs" by auto
      from claims_ok_same_tree [OF ok this j(1)] root
      show "find_root (parents s) i = Some root \<longleftrightarrow> (i, j) \<in> connected ?cs" by (simp add: same_tree_def)
    qed
    have grp: "group_of groups root = claim_group ?cs j"
      unfolding groups claim_group_def
    proof (intro arg_cong [where f = "map snd"] filter_cong refl)
      fix x assume "x \<in> set (enumerate 0 ?cs)"
      then have "fst x < length ?cs" by (simp add: in_set_enumerate_eq)
      then obtain i c where x: "x = (i, c)" "i < length ?cs" by (metis prod.collapse)
      from claims_ok_same_tree [OF ok j(1) x(2)] root
      have "find_root (parents s) i = Some root \<longleftrightarrow> (j, i) \<in> connected ?cs"
        unfolding same_tree_def by metis
      then show "(case x of (i, c) \<Rightarrow> find_root (parents s) i = Some root) =
            (case x of (i, c) \<Rightarrow> (j, i) \<in> connected ?cs)" by (simp add: x)
    qed
    show ?thesis
    proof (cases "root \<in> set (publishedGroups ps)")
      case True
      with served have "\<exists>i \<in> set served. (i, j) \<in> connected ?cs" by blast
      with True Some k(1) q Cons.prems Cons.IH [of "ps\<lparr>pub_parents := q\<rparr>" served]
      show ?thesis by (simp add: Let_def)
    next
      case False
      with served have "\<not> (\<exists>i \<in> set served. (i, j) \<in> connected ?cs)" by blast
      with False Some k(1) q Cons.prems j root grp
        Cons.IH [of "ps\<lparr>published := published ps @ [group_result surface r (claim_group ?cs j)],
          publishedGroups := root # publishedGroups ps, pub_parents := q\<rparr>" "j # served"]
      show ?thesis by (auto simp: Let_def)
    qed
  qed
qed simp

lemma reconcile_spec:
  "reconcileWorkspaceResolutions surface rs =
     Some (spec_publish surface (map claim_of (filter is_package_resolution rs)) rs [] [])"
proof -
  from collect_claims_ok [OF claims_ok_initial, of rs] obtain s where s:
    "collect_claims rs initial_claims = Some s" "claims_ok s"
    "claims s = map claim_of (filter is_package_resolution rs)" by (auto simp: initial_claims_def)
  from s(2) have f: "forest (parents s)" "length (parents s) = length (claims s)"
    by (simp_all add: claims_ok_def)
  from build_groups_ok [OF f(1), of 0 "claims s" "[]"] f(2) obtain p groups where b:
    "build_groups (claims s) 0 (parents s) [] = Some (p, groups)" "forest p"
    "length p = length (claims s)" "\<forall>j < length (claims s). find_root p j = find_root (parents s) j"
    "\<And>r. group_of groups r =
       map snd (filter (\<lambda>(i, c). find_root (parents s) i = Some r) (enumerate 0 (claims s)))" by auto
  from publish_ok [OF s(2) b(5), of "\<lparr>published = [], publishedGroups = [], publishedNames = [],
    pub_parents = p\<rparr>" "[]" surface rs] b obtain ps where
    "publish surface (aliasOwners s) groups rs \<lparr>published = [], publishedGroups = [],
       publishedNames = [], pub_parents = p\<rparr> = Some ps"
    "published ps = spec_publish surface (claims s) rs [] []" by auto
  with s b(1) show ?thesis by (simp add: reconcileWorkspaceResolutions_def)
qed

text \<open>
  C30. The reconciliation of the resolutions always returns, and what it publishes is the
  specification: claims joined by the least equivalence that contains the sharing of a name or an
  identity give one result per class, at the place of the first resolution whose name the class
  claims; the loops over the parents are its only possible divergence and they end.
\<close>

theorem reconcileWorkspaceResolutions_spec:
  "reconcileWorkspaceResolutions surface rs =
     Some (spec_publish surface (map claim_of (filter is_package_resolution rs)) rs [] [])"
  by (rule reconcile_spec)

abbreviation requested_key :: "js \<Rightarrow> string" where
  "requested_key r \<equiv> name_key (field r ''requestedDatasetName'')"

lemma group_result_name [simp]:
  "field (group_result surface r g) ''requestedDatasetName'' = field r ''requestedDatasetName''"
  by (simp add: group_result_def conflict_result_def spread_last)

text \<open>Nothing is published for a name that is served already.\<close>

definition unserved :: "claim list \<Rightarrow> nat list \<Rightarrow> string list \<Rightarrow> string \<Rightarrow> bool" where
  "unserved cs served seen name =
     (case claimed_by cs name of
        None \<Rightarrow> name \<notin> set seen
      | Some j \<Rightarrow> \<not> (\<exists>i \<in> set served. (i, j) \<in> connected cs))"

lemma spec_publish_names:
  "distinct (map requested_key (spec_publish surface cs rs served seen)) \<and>
   (\<forall>x \<in> set (spec_publish surface cs rs served seen). unserved cs served seen (requested_key x))"
proof (induction surface cs rs served seen rule: spec_publish.induct)
  case (2 surface cs r rs served seen)
  let ?name = "requested_key r"
  show ?case
  proof (cases "claimed_by cs ?name")
    case None
    with 2(1) have IH: "distinct (map requested_key (spec_publish surface cs rs served (?name # seen)))"
      "\<forall>x \<in> set (spec_publish surface cs rs served (?name # seen)).
         unserved cs served (?name # seen) (requested_key x)" by blast+
    have "unserved cs served seen n \<and> n \<noteq> ?name" if "unserved cs served (?name # seen) n" for n
      using that None by (auto simp: unserved_def split: option.splits)
    with IH have "distinct (map requested_key (spec_publish surface cs rs served (?name # seen)))"
      "\<forall>x \<in> set (spec_publish surface cs rs served (?name # seen)).
         unserved cs served seen (requested_key x) \<and> requested_key x \<noteq> ?name" by blast+
    with None show ?thesis by (auto simp: Let_def unserved_def)
  next
    case (Some j)
    show ?thesis
    proof (cases "\<exists>i \<in> set served. (i, j) \<in> connected cs")
      case True
      with Some 2(2) show ?thesis by (simp add: Let_def)
    next
      case False
      with Some 2(3) have IH: "distinct (map requested_key (spec_publish surface cs rs (j # served) seen))"
        "\<forall>x \<in> set (spec_publish surface cs rs (j # served) seen).
           unserved cs (j # served) seen (requested_key x)" by blast+
      have "(j, j) \<in> connected cs" by (simp add: connected_def)
      then have "unserved cs served seen n \<and> n \<noteq> ?name" if "unserved cs (j # served) seen n" for n
        using that Some by (auto simp: unserved_def split: option.splits)
      with IH have "distinct (map requested_key (spec_publish surface cs rs (j # served) seen))"
        "\<forall>x \<in> set (spec_publish surface cs rs (j # served) seen).
           unserved cs served seen (requested_key x) \<and> requested_key x \<noteq> ?name" by blast+
      with Some False show ?thesis by (auto simp: Let_def unserved_def)
    qed
  qed
qed simp

lemma reconcile_result:
  "the (reconcileWorkspaceResolutions surface rs) =
     spec_publish surface (map claim_of (filter is_package_resolution rs)) rs [] []"
  by (simp add: reconcile_spec)

text \<open>
  Reconciliation publishes each requested name at most once: the name keys of its results are
  pairwise different, whatever the packages claim and however many of them fail.
\<close>

theorem reconcileWorkspaceResolutions_names:
  "distinct (map (\<lambda>r. name_key (field r ''requestedDatasetName''))
     (the (reconcileWorkspaceResolutions surface rs)))"
  unfolding reconcile_result using spec_publish_names by blast

end
