(* ===== verification/JobTracking.thy ===== *)
theory JobTracking
  imports ProductJobs ProductOperations JsJson
begin

text \<open>
  \<open>features/products/services/productJobService.js\<close>: the client keeps the records of the backend jobs it
  knows of in the local storage, polls each of them until it ends, and mirrors them into the registry of
  product operations, so that a product stays locked while a job of it runs.

  Each function below is what one turn of the event loop does between two awaits: a reply that arrives
  is an argument, and a poll is an entry of \<open>polls\<close> with the delay before its next request. The module
  state, the storage, the registry and the notices shown are the record \<open>tracker\<close>. The stored text is
  the value it parses to (text that does not parse reads as an empty list). \<open>clock\<close> holds the time, its
  ISO text, the date parser of the platform (\<open>None\<close> for \<open>NaN\<close>) and the rank of a text in the collation of
  \<open>localeCompare\<close>.
\<close>

section \<open>State\<close>

definition POLL_INTERVAL_MS :: int where "POLL_INTERVAL_MS = 2000"
definition MAX_POLL_INTERVAL_MS :: int where "MAX_POLL_INTERVAL_MS = 10000"
definition REMOTE_DISCOVERY_GRACE_MS :: int where "REMOTE_DISCOVERY_GRACE_MS = 15000"

record clock =
  now_ms :: int
  now_iso :: string
  parse_ms :: "string \<Rightarrow> int option"
  collation :: "string \<Rightarrow> nat"

record poll =
  po_record :: product_job
  po_restored :: bool
  po_delay :: int
  po_result :: "job_result option"

record watch =
  wa_dataset :: js
  refCount :: int

datatype notice_kind = NoticeSuccess | NoticeWarning | NoticeError

record job_notice =
  no_kind :: notice_kind
  no_title :: string
  no_message :: js
  no_dedupeKey :: string

record tracker =
  local_storage :: "js option"
  storage_full :: bool
  polls :: "(string, poll) jmap"
  syncedDatasetNames :: "string list"
  activeRemoteWatches :: "(string, watch) jmap"
  activeSyncRequests :: "(string, js) jmap"
  registry :: op_state
  broadcasts :: nat
  notices :: "job_notice list"
  handled :: "(job_result \<times> product_job) list"
  has_handler :: bool
  initialized :: bool

definition initial_tracker :: "js option \<Rightarrow> bool \<Rightarrow> tracker" where
  "initial_tracker stored full =
     \<lparr>local_storage = stored, storage_full = full, polls = [], syncedDatasetNames = [],
      activeRemoteWatches = [], activeSyncRequests = [], registry = initial_op_state, broadcasts = 0,
      notices = [], handled = [], has_handler = False, initialized = False\<rparr>"

definition normalizeDatasetKey :: "js \<Rightarrow> string" where
  "normalizeDatasetKey v = lower_text v"

section \<open>The stored jobs\<close>

definition getStoredProductJobs :: "clock \<Rightarrow> tracker \<Rightarrow> product_job list" where
  "getStoredProductJobs cl s =
     (case local_storage s of
        None \<Rightarrow> []
      | Some v \<Rightarrow> List.map_filter (normalizeStoredProductJob (now_iso cl)) (elements v))"

definition stored_texts :: "clock \<Rightarrow> product_job list \<Rightarrow> string list" where
  "stored_texts cl rs = map (\<lambda>r. json_text (job_js r)) (sort_key (\<lambda>r. collation cl (jobId r)) rs)"

definition areStoredJobListsEqual :: "clock \<Rightarrow> product_job list \<Rightarrow> product_job list \<Rightarrow> bool" where
  "areStoredJobListsEqual cl left right = (stored_texts cl left = stored_texts cl right)"

definition writeStoredProductJobs :: "product_job list \<Rightarrow> tracker \<Rightarrow> tracker" where
  "writeStoredProductJobs rs s =
     (if local_storage s = None \<or> storage_full s then s
      else s\<lparr>local_storage := Some (Arr (map job_js rs)), broadcasts := Suc (broadcasts s)\<rparr>)"

definition writeStoredProductJobsIfChanged :: "clock \<Rightarrow> product_job list \<Rightarrow> tracker \<Rightarrow> tracker" where
  "writeStoredProductJobsIfChanged cl rs s =
     (if areStoredJobListsEqual cl (getStoredProductJobs cl s) rs then s
      else writeStoredProductJobs rs s)"

definition upsertStoredJob :: "clock \<Rightarrow> product_job \<Rightarrow> tracker \<Rightarrow> tracker" where
  "upsertStoredJob cl r s =
     writeStoredProductJobsIfChanged cl
       (filter (\<lambda>c. jobId c \<noteq> jobId r) (getStoredProductJobs cl s) @ [r]) s"

definition removeStoredJob :: "clock \<Rightarrow> string \<Rightarrow> tracker \<Rightarrow> tracker" where
  "removeStoredJob cl i s =
     writeStoredProductJobsIfChanged cl (filter (\<lambda>c. jobId c \<noteq> i) (getStoredProductJobs cl s)) s"

section \<open>The operations mirrored into the registry\<close>

definition external_type :: "product_job \<Rightarrow> operation_type" where
  "external_type r =
     (if isSendToIcEncOperation (Str (operationType r)) then SEND
      else if isRollbackOperation (Str (operationType r)) then ROLLBACK else EXPORT)"

definition createExternalProductOperation :: "product_job \<Rightarrow> js" where
  "createExternalProductOperation r =
     Obj [(''id'', Str (jobId r)), (''operationId'', Str (jobId r)),
          (''datasetName'', Str (job_datasetName r)), (''type'', Str (type_name (external_type r))),
          (''label'', Str (job_label r)), (''source'', Str ''backend''),
          (''startedAt'', Str (createdAt r)), (''exportTarget'', of_opt (exportTarget r)),
          (''exportType'',
             if external_type r = SEND \<or> external_type r = ROLLBACK then Null
             else if operationType r = EXPORT_UPDATE then Str ''Update'' else Str ''Edition''),
          (''status'', of_opt (job_status r))]"

record job_group =
  gr_dataset :: string
  gr_records :: "product_job list"

fun group_jobs :: "product_job list \<Rightarrow> (string, job_group) jmap \<Rightarrow> (string, job_group) jmap" where
  "group_jobs [] m = m"
| "group_jobs (r # rs) m =
     (let key = normalizeDatasetKey (Str (job_datasetName r));
          grp = (case jm_get m key of
                     None \<Rightarrow> \<lparr>gr_dataset = job_datasetName r, gr_records = []\<rparr> | Some g \<Rightarrow> g)
      in group_jobs rs (jm_set key (grp\<lparr>gr_records := gr_records grp @ [r]\<rparr>) m))"

definition set_add :: "'a \<Rightarrow> 'a list \<Rightarrow> 'a list" where
  "set_add x xs = (if x \<in> set xs then xs else xs @ [x])"

fun mirror_groups :: "clock \<Rightarrow> (string, job_group) jmap \<Rightarrow> tracker \<Rightarrow> tracker" where
  "mirror_groups cl [] s = s"
| "mirror_groups cl ((key, g) # gs) s =
     mirror_groups cl gs
       (s\<lparr>registry := replaceExternalProductOperations (parse_ms cl) (now_ms cl) (Str (gr_dataset g))
            (map createExternalProductOperation (gr_records g)) (registry s),
          syncedDatasetNames := set_add key (syncedDatasetNames s)\<rparr>)"

fun clear_unmirrored :: "string list \<Rightarrow> string list \<Rightarrow> tracker \<Rightarrow> tracker" where
  "clear_unmirrored nxt [] s = s"
| "clear_unmirrored nxt (key # ks) s =
     (if key \<in> set nxt then clear_unmirrored nxt ks s
      else clear_unmirrored nxt ks
        (s\<lparr>registry := clearExternalProductOperations (Str key) (registry s),
           syncedDatasetNames := filter (\<lambda>k. k \<noteq> key) (syncedDatasetNames s)\<rparr>))"

definition syncExternalProductOperations :: "clock \<Rightarrow> tracker \<Rightarrow> tracker" where
  "syncExternalProductOperations cl s =
     (let grouped = group_jobs (getStoredProductJobs cl s) [];
          s' = mirror_groups cl grouped s
      in clear_unmirrored (jm_keys grouped) (syncedDatasetNames s') s')"

section \<open>Polling\<close>

definition trackProductJob :: "product_job \<Rightarrow> bool \<Rightarrow> tracker \<Rightarrow> tracker" where
  "trackProductJob r restored s =
     (if jm_has (polls s) (jobId r) then s
      else s\<lparr>polls := jm_set (jobId r)
        \<lparr>po_record = r, po_restored = restored, po_delay = 0, po_result = None\<rparr> (polls s)\<rparr>)"

definition resumeStoredProductJobs :: "clock \<Rightarrow> tracker \<Rightarrow> tracker" where
  "resumeStoredProductJobs cl s = foldl (\<lambda>s r. trackProductJob r True s) s (getStoredProductJobs cl s)"

definition reconcileStoredProductJobs :: "clock \<Rightarrow> tracker \<Rightarrow> tracker" where
  "reconcileStoredProductJobs cl s = resumeStoredProductJobs cl (syncExternalProductOperations cl s)"

definition job_lost :: "js \<Rightarrow> job_result" where
  "job_lost data =
     \<lparr>jr_success = False, jr_status = Some 404,
      jr_data = spread (if is_object data then data else Obj [])
        (Obj [(''code'', nullish (field data ''code'') (Str ''JOB_NOT_FOUND'')),
              (''message'', nullish (field data ''message'')
                 (Str ''The operation job could not be found. Its final result is unavailable.''))]),
      jr_jobStatus = Undef, jr_warning = Undef\<rparr>"

definition next_delay :: "int \<Rightarrow> int" where
  "next_delay d = min (if 0 < d then d * 2 else POLL_INTERVAL_MS) MAX_POLL_INTERVAL_MS"

text \<open>What the reply to a status request decides: another request after a delay, or the end of the job.\<close>

definition poll_outcome :: "poll \<Rightarrow> js \<Rightarrow> int + job_result" where
  "poll_outcome p reply =
     (if truthy (field reply ''success'')
      then (if \<not> isTerminalProductJobStatus (field (field reply ''data'') ''status'')
            then Inl POLL_INTERVAL_MS
            else Inr (createProductJobActionResult (field reply ''data'') (Str (operationType (po_record p)))))
      else if field reply ''status'' = JNum (JInt 404)
      then Inr (job_lost (field reply ''data''))
      else Inl (next_delay (po_delay p)))"

definition pollProductJob :: "clock \<Rightarrow> string \<Rightarrow> js \<Rightarrow> tracker \<Rightarrow> tracker" where
  "pollProductJob cl i reply s =
     (case jm_get (polls s) i of
        None \<Rightarrow> s
      | Some p \<Rightarrow>
          if po_result p \<noteq> None then s
          else (case poll_outcome p reply of
                  Inl d \<Rightarrow> s\<lparr>polls := jm_set i (p\<lparr>po_delay := d\<rparr>) (polls s)\<rparr>
                | Inr r \<Rightarrow>
                    (let s' = syncExternalProductOperations cl
                                (removeStoredJob cl (jobId (po_record p)) s)
                     in s'\<lparr>polls := jm_set i (p\<lparr>po_result := Some r\<rparr>) (polls s')\<rparr>)))"

definition announceRestoredTerminal :: "product_job \<Rightarrow> job_result \<Rightarrow> job_notice" where
  "announceRestoredTerminal r res =
     (let key = ''product-job:'' @ jobId r @ '':terminal'';
          title = createProductJobCompletionTitle (job_js r) (jr_data res);
          warning = field (jr_data res) ''warning''
      in if jr_success res
         then (if truthy warning
               then \<lparr>no_kind = NoticeWarning, no_title = title @ '' with a warning'',
                     no_message = field warning ''message'', no_dedupeKey = key\<rparr>
               else \<lparr>no_kind = NoticeSuccess, no_title = title,
                     no_message = field (jr_data res) ''message'', no_dedupeKey = key\<rparr>)
         else \<lparr>no_kind = NoticeError, no_title = title,
               no_message = Str (getProductJobFailureMessage (jr_data res)), no_dedupeKey = key\<rparr>)"

text \<open>The continuation of an ended poll: the notice and the handler of a restored one, and its removal.\<close>

definition settleProductJob :: "string \<Rightarrow> tracker \<Rightarrow> tracker" where
  "settleProductJob i s =
     (case jm_get (polls s) i of
        None \<Rightarrow> s
      | Some p \<Rightarrow>
          (case po_result p of
             None \<Rightarrow> s
           | Some r \<Rightarrow>
               s\<lparr>notices := (if po_restored p then notices s @ [announceRestoredTerminal (po_record p) r]
                              else notices s),
                 handled := (if po_restored p \<and> has_handler s then handled s @ [(r, po_record p)]
                             else handled s),
                 polls := jm_delete i (polls s)\<rparr>))"

section \<open>Starting a job\<close>

datatype run_outcome = Rejected js | Tracked string

definition job_response_invalid :: "js \<Rightarrow> js" where
  "job_response_invalid status =
     Obj [(''success'', JBool False), (''status'', status),
          (''data'', Obj [(''code'', Str ''JOB_RESPONSE_INVALID''),
             (''message'', Str ''The operation started, but the job response was incomplete.'')])]"

definition request_error :: "string \<Rightarrow> js" where
  "request_error message = Obj [(''success'', JBool False), (''errorMessage'', Str message)]"

text \<open>\<open>can_start\<close> says that the start request is a function, \<open>reply\<close> is what it resolves to; the
  accepted-job handler is feedback of the caller and changes no state of the service.\<close>

definition runProductJob ::
    "clock \<Rightarrow> js \<Rightarrow> js \<Rightarrow> js \<Rightarrow> js \<Rightarrow> bool \<Rightarrow> js \<Rightarrow> tracker \<Rightarrow> run_outcome \<times> tracker" where
  "runProductJob cl ds op target label can_start reply s =
     (if \<not> truthy ds then (Rejected (request_error ''Cannot start a product job without a datasetName.''), s)
      else if \<not> can_start
      then (Rejected (request_error ''Cannot start a product job without a start request.''), s)
      else if \<not> truthy (field reply ''success'') then (Rejected reply, s)
      else (case createProductJobRecord (now_iso cl) (field reply ''data'') ds op
                   (if target = Undef then Null else target) label of
              None \<Rightarrow> (Rejected (job_response_invalid (field reply ''status'')), s)
            | Some r \<Rightarrow>
                (Tracked (jobId r),
                 trackProductJob r False (syncExternalProductOperations cl (upsertStoredJob cl r s)))))"

section \<open>Jobs of other clients\<close>

definition synchronizeActiveProductJobs :: "js \<Rightarrow> tracker \<Rightarrow> tracker" where
  "synchronizeActiveProductJobs ds s =
     (let key = normalizeDatasetKey ds in
      if key = [] \<or> jm_has (activeSyncRequests s) key then s
      else s\<lparr>activeSyncRequests := jm_set key ds (activeSyncRequests s)\<rparr>)"

definition remote_record :: "clock \<Rightarrow> js \<Rightarrow> js \<Rightarrow> product_job option" where
  "remote_record cl ds response =
     (if normalizeDatasetKey (field response ''datasetName'') = [] then None
      else createProductJobRecord (now_iso cl) response ds (field response ''operationType'')
             (if field response ''exportTarget'' = Undef then Null else field response ''exportTarget'') Undef)"

definition isWithinRemoteDiscoveryGrace :: "clock \<Rightarrow> product_job \<Rightarrow> bool" where
  "isWithinRemoteDiscoveryGrace cl r =
     (case parse_ms cl (createdAt r) of
        None \<Rightarrow> False | Some c \<Rightarrow> now_ms cl - c < REMOTE_DISCOVERY_GRACE_MS)"

fun put_record :: "product_job \<Rightarrow> product_job list \<Rightarrow> product_job list" where
  "put_record r [] = [r]"
| "put_record r (c # cs) = (if jobId c = jobId r then r # cs else c # put_record r cs)"

definition kept_records :: "clock \<Rightarrow> string \<Rightarrow> product_job list \<Rightarrow> tracker \<Rightarrow> product_job list" where
  "kept_records cl key remote s =
     filter (\<lambda>r. normalizeDatasetKey (Str (job_datasetName r)) \<noteq> key \<or>
                 jobId r \<notin> jobId ` set remote \<and>
                 (jm_has (polls s) (jobId r) \<or> isWithinRemoteDiscoveryGrace cl r))
       (getStoredProductJobs cl s)"

definition synchronizeActiveProductJobsCore ::
    "clock \<Rightarrow> js \<Rightarrow> js \<Rightarrow> tracker \<Rightarrow> (js + product_job list) \<times> tracker" where
  "synchronizeActiveProductJobsCore cl ds reply s =
     (let key = normalizeDatasetKey ds in
      if \<not> truthy (field reply ''success'') then (Inl reply, s)
      else if \<not> is_array (field reply ''data'') then (Inl (request_error ''Invalid active-job response.''), s)
      else
        let responses = elements (field reply ''data'');
            remote = List.map_filter (remote_record cl ds) responses
        in if length remote \<noteq> length responses \<or>
              list_ex (\<lambda>r. normalizeDatasetKey (Str (job_datasetName r)) \<noteq> key) remote
           then (Inl (request_error ''Active-job identity could not be verified.''), s)
           else
             (Inr remote,
              resumeStoredProductJobs cl (syncExternalProductOperations cl
                (writeStoredProductJobsIfChanged cl
                  (foldl (\<lambda>rs r. put_record r rs) (kept_records cl key remote s) remote) s))))"

text \<open>The reply to the request for a data set, and the end of that request.\<close>

definition active_jobs_reply :: "clock \<Rightarrow> string \<Rightarrow> js \<Rightarrow> tracker \<Rightarrow> tracker" where
  "active_jobs_reply cl key reply s =
     (case jm_get (activeSyncRequests s) key of
        None \<Rightarrow> s
      | Some ds \<Rightarrow>
          (let s' = snd (synchronizeActiveProductJobsCore cl ds reply s)
           in s'\<lparr>activeSyncRequests := jm_delete key (activeSyncRequests s')\<rparr>))"

definition watchActiveProductJobs :: "js \<Rightarrow> tracker \<Rightarrow> tracker" where
  "watchActiveProductJobs ds s =
     (let key = normalizeDatasetKey ds in
      if key = [] then s
      else (case jm_get (activeRemoteWatches s) key of
              Some w \<Rightarrow>
                synchronizeActiveProductJobs (wa_dataset w)
                  (s\<lparr>activeRemoteWatches :=
                       jm_set key (w\<lparr>refCount := refCount w + 1\<rparr>) (activeRemoteWatches s)\<rparr>)
            | None \<Rightarrow>
                synchronizeActiveProductJobs ds
                  (s\<lparr>activeRemoteWatches :=
                       jm_set key \<lparr>wa_dataset = ds, refCount = 1\<rparr> (activeRemoteWatches s)\<rparr>)))"

definition releaseRemoteWatch :: "string \<Rightarrow> tracker \<Rightarrow> tracker" where
  "releaseRemoteWatch key s =
     (case jm_get (activeRemoteWatches s) key of
        None \<Rightarrow> s
      | Some w \<Rightarrow>
          (if 0 < refCount w - 1
           then s\<lparr>activeRemoteWatches :=
                    jm_set key (w\<lparr>refCount := refCount w - 1\<rparr>) (activeRemoteWatches s)\<rparr>
           else s\<lparr>activeRemoteWatches := jm_delete key (activeRemoteWatches s)\<rparr>))"

definition reconcileRemoteWatchedJobs :: "tracker \<Rightarrow> tracker" where
  "reconcileRemoteWatchedJobs s =
     foldl (\<lambda>s w. synchronizeActiveProductJobs (wa_dataset w) s) s (jm_values (activeRemoteWatches s))"

definition initializeProductJobTracking :: "clock \<Rightarrow> bool \<Rightarrow> tracker \<Rightarrow> product_job list \<times> tracker" where
  "initializeProductJobTracking cl handler s =
     (let s' = reconcileStoredProductJobs cl (if handler then s\<lparr>has_handler := True\<rparr> else s);
          s'' = s'\<lparr>initialized := True\<rparr>
      in (getStoredProductJobs cl s'', s''))"

section \<open>Records and the store\<close>

text \<open>What a record is for, besides its presentation.\<close>

definition job_core :: "product_job \<Rightarrow> string \<times> string \<times> string" where
  "job_core j = (jobId j, job_datasetName j, operationType j)"

definition job_wf :: "product_job \<Rightarrow> bool" where
  "job_wf j =
     (trim (jobId j) = jobId j \<and> jobId j \<noteq> [] \<and>
      trim (job_datasetName j) = job_datasetName j \<and> job_datasetName j \<noteq> [] \<and>
      trim (operationType j) = operationType j \<and> operationType j \<noteq> [] \<and>
      (isSendToIcEncOperation (Str (operationType j)) \<longrightarrow>
         job_mode j = Some ''Simulation'' \<and> deliveryStatus j = Some ''NotDelivered''))"

lemma createProductJobRecord_wf:
  "createProductJobRecord now response dataset operation target label = Some j \<Longrightarrow> job_wf j"
  by (drule createProductJobRecord_Some) (auto simp: job_wf_def job_record_def)

lemma normalizeStoredProductJob_wf: "normalizeStoredProductJob now v = Some j \<Longrightarrow> job_wf j"
  by (auto simp: normalizeStoredProductJob_def split: if_splits dest: createProductJobRecord_wf)

lemma normalizeStoredProductJob_clock:
  "map_option job_core (normalizeStoredProductJob now v) = map_option job_core (normalizeStoredProductJob now' v)"
  by (auto simp: normalizeStoredProductJob_def createProductJobRecord_def Let_def job_record_def job_core_def)

lemma job_wf_read_back:
  assumes "job_wf j"
  shows "\<exists>j'. normalizeStoredProductJob now (job_js j) = Some j' \<and> job_core j' = job_core j"
proof -
  have send: "opt_text (of_opt (Some ''Simulation'')) = Some ''Simulation''"
    "opt_text (of_opt (Some ''NotDelivered'')) = Some ''NotDelivered''" by code_simp+
  have "is_object (job_js j)" by (simp add: job_js_def)
  with assms send show ?thesis
    by (auto simp: normalizeStoredProductJob_def createProductJobRecord_def job_js_fields job_wf_def
        or_text_def resolve_again job_core_def job_record_def Let_def)
qed

lemma getStored_wf: "j \<in> set (getStoredProductJobs cl s) \<Longrightarrow> job_wf j"
  by (auto simp: getStoredProductJobs_def map_filter_def dest: normalizeStoredProductJob_wf split: option.splits)

lemma map_filter_cores:
  "(\<And>x. x \<in> set xs \<Longrightarrow> map_option h (f x) = map_option h (g x)) \<Longrightarrow>
   map h (List.map_filter f xs) = map h (List.map_filter g xs)"
proof (induction xs)
  case (Cons x xs)
  from Cons.prems [of x] Cons show ?case
    by (cases "f x"; cases "g x") (auto simp: map_filter_simps)
qed (simp add: map_filter_simps)

lemma getStored_clock:
  "map job_core (getStoredProductJobs cl s) = map job_core (getStoredProductJobs cl' s)"
  unfolding getStoredProductJobs_def
  by (auto split: option.split intro: map_filter_cores normalizeStoredProductJob_clock)

lemma getStored_written:
  assumes "list_all job_wf rs" and "local_storage s = Some (Arr (map job_js rs))"
  shows "map job_core (getStoredProductJobs cl s) = map job_core rs"
proof -
  have "map job_core (List.map_filter (normalizeStoredProductJob now) (map job_js rs)) = map job_core rs" for now
    using assms(1)
  proof (induction rs)
    case (Cons r rs)
    from Cons.prems job_wf_read_back [of r now] obtain j' where
      "normalizeStoredProductJob now (job_js r) = Some j'" "job_core j' = job_core r" by auto
    with Cons show ?case by (simp add: map_filter_simps)
  qed (simp add: map_filter_simps)
  with assms(2) show ?thesis by (simp add: getStoredProductJobs_def)
qed

lemma of_opt_inj: "of_opt a = of_opt b \<longleftrightarrow> a = b"
  by (cases a; cases b) (simp_all add: of_opt_def)

lemma job_js_inj: "job_js a = job_js b \<Longrightarrow> a = b"
  by (cases a; cases b) (simp add: job_js_def of_opt_inj)

lemma job_json_inj: "json_text (job_js a) = json_text (job_js b) \<Longrightarrow> a = b"
proof (rule job_js_inj)
  assume eq: "json_text (job_js a) = json_text (job_js b)"
  show "job_js a = job_js b"
    unfolding job_js_def
    by (intro arg_cong [where f = Obj], rule json_record_inj [OF _ _ _ eq [unfolded job_js_def]]) simp_all
qed

lemma equal_lists_mset:
  assumes "areStoredJobListsEqual cl left right"
  shows "mset left = mset right"
proof -
  have "inj (\<lambda>r. json_text (job_js r))" by (intro injI job_json_inj)
  with assms have "sort_key (\<lambda>r. collation cl (jobId r)) left = sort_key (\<lambda>r. collation cl (jobId r)) right"
    unfolding areStoredJobListsEqual_def stored_texts_def by (metis map_injective)
  then show ?thesis by (metis mset_sort)
qed

definition writable :: "tracker \<Rightarrow> bool" where
  "writable s = (local_storage s \<noteq> None \<and> \<not> storage_full s)"

lemma write_cores:
  assumes "list_all job_wf rs"
  shows "set (map job_core (getStoredProductJobs cl' (writeStoredProductJobsIfChanged cl rs s))) =
     (if writable s then set (map job_core rs) else set (map job_core (getStoredProductJobs cl' s)))"
proof (cases "areStoredJobListsEqual cl (getStoredProductJobs cl s) rs")
  case True
  with equal_lists_mset [OF True] getStored_clock [of cl s cl'] show ?thesis
    by (metis mset_eq_setD mset_map writeStoredProductJobsIfChanged_def)
next
  case False
  show ?thesis
  proof (cases "writable s")
    case True
    with False getStored_written [OF assms, of "writeStoredProductJobs rs s" cl']
    show ?thesis by (simp add: writeStoredProductJobsIfChanged_def writeStoredProductJobs_def writable_def)
  next
    case wr: False
    with False show ?thesis
      by (auto simp: writeStoredProductJobsIfChanged_def writeStoredProductJobs_def writable_def)
  qed
qed

section \<open>The mirror of the store in the registry\<close>

definition job_key :: "string \<Rightarrow> product_job \<Rightarrow> string" where
  "job_key nds j =
     createOperationKey nds (external_type j) (dash_spaces False (to_lower (jobId j))) BACKEND"

lemma job_key_core: "job_core j = job_core j' \<Longrightarrow> job_key nds j = job_key nds j'"
  by (simp add: job_key_def job_core_def external_type_def)

lemma dash_spaces_nil [simp]: "dash_spaces False s = [] \<longleftrightarrow> s = []"
  by (cases s) auto

lemma external_of_job:
  assumes "job_wf j"
  shows "\<exists>p. normalizeExternalOperation pd now ds nds (createExternalProductOperation j) = Some p \<and>
           op_key p = job_key nds j"
proof -
  have "normalizeOperationId (Str (jobId j)) = Some (dash_spaces False (to_lower (jobId j)))"
    using assms by (simp add: normalizeOperationId_def job_wf_def Let_def)
  moreover have "normalizeOperationSource (Str ''backend'') = BACKEND" by code_simp
  ultimately show ?thesis
    by (simp add: normalizeExternalOperation_def createExternalProductOperation_def
        normalizeOperationType_name Let_def job_key_def)
qed

lemma jm_of_keys: "set (jm_keys (jm_of es)) = fst ` set es"
proof -
  have "k \<in> set (jm_keys (jm_of es)) \<longleftrightarrow> k \<in> fst ` set es" for k
    unfolding jm_has_keys [symmetric] jm_of_get by (simp add: map_of_eq_None_iff)
  then show ?thesis by blast
qed

lemma external_map_keys:
  assumes "list_all job_wf rs"
  shows "set (jm_keys (external_map pd now ds nds (map createExternalProductOperation rs))) =
         job_key nds ` set rs"
proof -
  have "op_key ` set (List.map_filter (normalizeExternalOperation pd now ds nds)
          (map createExternalProductOperation rs)) = job_key nds ` set rs"
    using assms
  proof (induction rs)
    case (Cons r rs)
    from Cons.prems external_of_job [of r pd now ds nds] obtain p where
      "normalizeExternalOperation pd now ds nds (createExternalProductOperation r) = Some p"
      "op_key p = job_key nds r" by auto
    with Cons show ?case by (simp add: map_filter_simps)
  qed (simp add: map_filter_simps)
  then show ?thesis
    unfolding external_map_def jm_of_keys by (simp add: image_comp comp_def)
qed

lemma areOperationMapsEqual_keys:
  assumes "areOperationMapsEqual cur nxt" and "jm_ok (case cur of None \<Rightarrow> [] | Some m \<Rightarrow> m)" and "jm_ok nxt"
  shows "set (jm_keys (case cur of None \<Rightarrow> [] | Some m \<Rightarrow> m)) = set (jm_keys nxt)"
proof (rule sym, rule card_subset_eq)
  let ?cur = "case cur of None \<Rightarrow> [] | Some m \<Rightarrow> m"
  show "finite (set (jm_keys ?cur))" by (rule finite_set)
  show "set (jm_keys nxt) \<subseteq> set (jm_keys ?cur)"
  proof
    fix k assume "k \<in> set (jm_keys nxt)"
    then obtain p where "(k, p) \<in> set nxt" by auto
    with assms(1) have "jm_get ?cur k \<noteq> None"
      by (auto simp: areOperationMapsEqual_def list_all_iff Let_def split: option.splits)
    then show "k \<in> set (jm_keys ?cur)" by (simp only: jm_has_keys)
  qed
  have "length ?cur = length nxt" using assms(1) by (simp add: areOperationMapsEqual_def Let_def)
  with assms(2,3) show "card (set (jm_keys nxt)) = card (set (jm_keys ?cur))"
    by (metis distinct_card jm_ok_def length_map)
qed

definition external_keys :: "op_state \<Rightarrow> string \<Rightarrow> string set" where
  "external_keys s nds = set (jm_keys (ops_of (externals s) nds))"

lemma replace_external_keys:
  assumes "op_ok s" and "normalizeDatasetName ds = Some nds"
  shows "external_keys (replaceExternalProductOperations pd now ds inputs s) nds' =
     (if nds' = nds then set (jm_keys (external_map pd now ds nds inputs)) else external_keys s nds')"
proof -
  let ?nxt = "external_map pd now ds nds inputs"
  have ok: "jm_ok (ops_of (externals s) nds)"
    using ops_of_ok [of "externals s"] assms(1) by (simp add: op_ok_alt)
  show ?thesis
  proof (cases "areOperationMapsEqual (jm_get (externals s) nds) ?nxt")
    case True
    from areOperationMapsEqual_keys [OF True] ok have "external_keys s nds = set (jm_keys ?nxt)"
      by (simp add: ops_of_def external_keys_def)
    with True assms(2) show ?thesis by (simp add: replaceExternalProductOperations_def)
  next
    case False
    with assms(2) show ?thesis
      by (simp add: replaceExternalProductOperations_def ops_of_def external_keys_def Let_def)
  qed
qed

lemma replace_external_locals [simp]:
  "locals (replaceExternalProductOperations pd now ds inputs s) = locals s"
  "locals (clearExternalProductOperations ds s) = locals s"
  by (auto simp: replaceExternalProductOperations_def clearExternalProductOperations_def Let_def
      split: option.splits)

lemma clear_external_keys:
  assumes "normalizeDatasetName ds = Some nds"
  shows "external_keys (clearExternalProductOperations ds s) nds' =
     (if nds' = nds then {} else external_keys s nds')"
  using assms
  by (auto simp: clearExternalProductOperations_def ops_of_def external_keys_def split: option.splits)

lemma external_keys_has:
  assumes "op_ok s"
  shows "jm_has (externals s) nds \<longleftrightarrow> external_keys s nds \<noteq> {}"
proof (cases "jm_get (externals s) nds")
  case (Some m)
  with assms list_all_jm_get [of op_map_ok "externals s" nds m] have "m \<noteq> []"
    by (simp add: op_ok_alt op_map_ok_def)
  with Some show ?thesis by (simp add: ops_of_def external_keys_def)
qed (simp add: ops_of_def external_keys_def)

text \<open>Grouping the records by data set.\<close>

definition dataset_key :: "product_job \<Rightarrow> string" where
  "dataset_key r = normalizeDatasetKey (Str (job_datasetName r))"

lemma group_jobs_records:
  "map_option gr_records (jm_get (group_jobs rs m) k) =
     (let fl = filter (\<lambda>r. dataset_key r = k) rs in
      case jm_get m k of None \<Rightarrow> if fl = [] then None else Some fl | Some g \<Rightarrow> Some (gr_records g @ fl))"
proof (induction rs m rule: group_jobs.induct)
  case (2 r rs m)
  show ?case
    using 2 [OF refl refl]
    by (simp add: dataset_key_def Let_def split: option.split)
qed (simp split: option.split)

lemma group_jobs_ok:
  assumes "jm_ok m" and "list_all (\<lambda>(k, g). normalizeDatasetKey (Str (gr_dataset g)) = k) m"
  shows "jm_ok (group_jobs rs m) \<and>
         list_all (\<lambda>(k, g). normalizeDatasetKey (Str (gr_dataset g)) = k) (group_jobs rs m)"
  using assms
proof (induction rs m rule: group_jobs.induct)
  case (2 r rs m)
  let ?P = "\<lambda>(k, g). normalizeDatasetKey (Str (gr_dataset g)) = k"
  let ?k = "normalizeDatasetKey (Str (job_datasetName r))"
  let ?g = "case jm_get m ?k of None \<Rightarrow> \<lparr>gr_dataset = job_datasetName r, gr_records = []\<rparr> | Some g \<Rightarrow> g"
  have "?P (?k, ?g\<lparr>gr_records := gr_records ?g @ [r]\<rparr>)"
    using list_all_jm_get [OF 2(3), of ?k] by (simp split: option.split)
  then have "list_all ?P (jm_set ?k (?g\<lparr>gr_records := gr_records ?g @ [r]\<rparr>) m)"
    using 2(3) by (rule list_all_jm_set)
  from 2(1) [OF refl refl jm_ok_set [OF 2(2)] this] show ?case by (simp add: Let_def)
qed simp

text \<open>Names under which the registry and this service know a data set.\<close>

definition mirror_name :: "string \<Rightarrow> bool" where
  "mirror_name k = (lower_text (Str k) = k \<and> k \<noteq> [])"

lemma mirror_name_upper: "mirror_name k \<Longrightarrow> normalizeDatasetName (Str k) = Some (to_upper k)"
  unfolding mirror_name_def normalizeDatasetName_Some by (metis to_upper_eq_nil to_upper_lower upper_text_Str lower_text_Str trim_to_upper)

lemma mirror_name_inj: "mirror_name k \<Longrightarrow> mirror_name l \<Longrightarrow> to_upper k = to_upper l \<longleftrightarrow> k = l"
  unfolding mirror_name_def by (metis lower_text_Str to_lower_idem to_lower_upper)

lemma dataset_key_name: "job_wf r \<Longrightarrow> mirror_name (dataset_key r)"
  by (simp add: mirror_name_def dataset_key_def normalizeDatasetKey_def job_wf_def)

lemma dataset_key_upper: "job_wf r \<Longrightarrow> to_upper (dataset_key r) = to_upper (job_datasetName r)"
  by (simp add: dataset_key_def normalizeDatasetKey_def job_wf_def)

definition set_mirror :: "op_state \<Rightarrow> string list \<Rightarrow> tracker \<Rightarrow> tracker" where
  "set_mirror reg sy s = s\<lparr>registry := reg, syncedDatasetNames := sy\<rparr>"

lemma set_mirror_fields [simp]:
  "registry (set_mirror reg sy s) = reg" "syncedDatasetNames (set_mirror reg sy s) = sy"
  "polls (set_mirror reg sy s) = polls s" "local_storage (set_mirror reg sy s) = local_storage s"
  "storage_full (set_mirror reg sy s) = storage_full s"
  "getStoredProductJobs cl (set_mirror reg sy s) = getStoredProductJobs cl s"
  "set_mirror reg' sy' (set_mirror reg sy s) = set_mirror reg' sy' s"
  by (simp_all add: set_mirror_def getStoredProductJobs_def)

lemma set_set_add [simp]: "set (set_add x xs) = insert x (set xs)"
  by (auto simp: set_add_def)

definition group_ok :: "string \<times> job_group \<Rightarrow> bool" where
  "group_ok e =
     (case e of (k, g) \<Rightarrow>
        mirror_name k \<and> normalizeDatasetKey (Str (gr_dataset g)) = k \<and> list_all job_wf (gr_records g))"

lemma group_name: "group_ok (k, g) \<Longrightarrow> normalizeDatasetName (Str (gr_dataset g)) = Some (to_upper k)"
  by (auto simp: group_ok_def normalizeDatasetKey_def normalizeDatasetName_Some mirror_name_def)

lemma mirror_groups_step:
  assumes "op_ok (registry s)" and "jm_ok gs" and "list_all group_ok gs"
  shows "\<exists>reg sy. mirror_groups cl gs s = set_mirror reg sy s \<and> op_ok reg \<and> locals reg = locals (registry s) \<and>
     set sy = set (jm_keys gs) \<union> set (syncedDatasetNames s) \<and>
     (\<forall>k. mirror_name k \<longrightarrow> external_keys reg (to_upper k) =
        (case jm_get gs k of None \<Rightarrow> external_keys (registry s) (to_upper k)
         | Some g \<Rightarrow> job_key (to_upper k) ` set (gr_records g))) \<and>
     (\<forall>nds. nds \<notin> to_upper ` set (jm_keys gs) \<longrightarrow> external_keys reg nds = external_keys (registry s) nds)"
  using assms
proof (induction gs arbitrary: s)
  case Nil
  have "s = set_mirror (registry s) (syncedDatasetNames s) s" by (simp add: set_mirror_def)
  with Nil show ?case
    by (intro exI [of _ "registry s"] exI [of _ "syncedDatasetNames s"]) simp
next
  case (Cons e gs)
  obtain key g where e: "e = (key, g)" by (cases e)
  let ?reg = "replaceExternalProductOperations (parse_ms cl) (now_ms cl) (Str (gr_dataset g))
            (map createExternalProductOperation (gr_records g)) (registry s)"
  let ?s = "set_mirror ?reg (set_add key (syncedDatasetNames s)) s"
  have g: "group_ok (key, g)" "list_all group_ok gs" "jm_ok gs" "jm_get gs key = None"
    using Cons.prems(2,3) by (simp_all add: e)
  have name: "mirror_name key" using g(1) by (simp add: group_ok_def)
  have ok: "op_ok (registry ?s)" using op_ok_replace [OF Cons.prems(1)] by simp
  have keys: "external_keys ?reg nds = (if nds = to_upper key then job_key nds ` set (gr_records g)
      else external_keys (registry s) nds)" for nds
    using replace_external_keys [OF Cons.prems(1) group_name [OF g(1)]] external_map_keys g(1)
    by (simp add: group_ok_def)
  from Cons.IH [OF ok g(3,2)] obtain reg sy where
    r: "mirror_groups cl gs ?s = set_mirror reg sy ?s" "op_ok reg" "locals reg = locals (registry ?s)"
       "set sy = set (jm_keys gs) \<union> set (syncedDatasetNames ?s)"
    and k: "\<And>k. mirror_name k \<Longrightarrow> external_keys reg (to_upper k) =
        (case jm_get gs k of None \<Rightarrow> external_keys (registry ?s) (to_upper k)
         | Some g \<Rightarrow> job_key (to_upper k) ` set (gr_records g))"
    and n: "\<And>nds. nds \<notin> to_upper ` set (jm_keys gs) \<Longrightarrow> external_keys reg nds = external_keys (registry ?s) nds"
    by blast
  have run: "mirror_groups cl (e # gs) s = set_mirror reg sy s"
    using r(1) by (simp add: e set_mirror_def)
  note registry_step = set_mirror_fields(1) [of ?reg "set_add key (syncedDatasetNames s)" s]
  have "external_keys reg (to_upper l) =
      (case jm_get (e # gs) l of None \<Rightarrow> external_keys (registry s) (to_upper l)
       | Some g \<Rightarrow> job_key (to_upper l) ` set (gr_records g))" if l: "mirror_name l" for l
    using k [OF l, unfolded registry_step] g(4) keys [of "to_upper l"] mirror_name_inj [OF l name]
    by (cases "jm_get gs l"; cases "l = key") (simp_all add: e)
  moreover have "external_keys reg nds = external_keys (registry s) nds"
    if "nds \<notin> to_upper ` set (jm_keys (e # gs))" for nds
    using n [of nds, unfolded registry_step] keys [of nds] that by (simp add: e)
  moreover have "set sy = set (jm_keys (e # gs)) \<union> set (syncedDatasetNames s)" using r(4) by (auto simp: e)
  ultimately show ?case using run r(2,3)
    by (intro exI [of _ reg] exI [of _ sy]) simp
qed

lemma clear_unmirrored_step:
  assumes "op_ok (registry s)" and "list_all mirror_name ks"
  shows "\<exists>reg sy. clear_unmirrored nxt ks s = set_mirror reg sy s \<and> op_ok reg \<and> locals reg = locals (registry s) \<and>
     set sy = set (syncedDatasetNames s) - (set ks - set nxt) \<and>
     (\<forall>nds. external_keys reg nds =
        (if nds \<in> to_upper ` (set ks - set nxt) then {} else external_keys (registry s) nds))"
  using assms
proof (induction ks arbitrary: s)
  case Nil
  have "s = set_mirror (registry s) (syncedDatasetNames s) s" by (simp add: set_mirror_def)
  with Nil show ?case
    by (intro exI [of _ "registry s"] exI [of _ "syncedDatasetNames s"]) simp
next
  case (Cons key ks)
  show ?case
  proof (cases "key \<in> set nxt")
    case True
    with Cons show ?thesis by (simp add: insert_Diff_if)
  next
    case False
    let ?reg = "clearExternalProductOperations (Str key) (registry s)"
    let ?s = "set_mirror ?reg (filter (\<lambda>k. k \<noteq> key) (syncedDatasetNames s)) s"
    have ok: "op_ok (registry ?s)" "list_all mirror_name ks"
      using op_ok_clear [OF Cons.prems(1)] Cons.prems(2) by simp_all
    from Cons.prems(2) have name: "normalizeDatasetName (Str key) = Some (to_upper key)"
      by (simp add: mirror_name_upper)
    from Cons.IH [OF ok] obtain reg sy where
      r: "clear_unmirrored nxt ks ?s = set_mirror reg sy ?s" "op_ok reg" "locals reg = locals ?reg"
         "set sy = (set (syncedDatasetNames s) - {key}) - (set ks - set nxt)"
      and n: "\<And>nds. external_keys reg nds =
        (if nds \<in> to_upper ` (set ks - set nxt) then {} else external_keys ?reg nds)"
      by (auto simp: set_diff_eq)
    have run: "clear_unmirrored nxt (key # ks) s = set_mirror reg sy s"
      using r(1) False by (simp add: set_mirror_def)
    have "external_keys reg nds =
        (if nds \<in> to_upper ` (set (key # ks) - set nxt) then {} else external_keys (registry s) nds)" for nds
      using n [of nds] clear_external_keys [OF name, of "registry s" nds] False
      by (auto simp: insert_Diff_if)
    moreover have "set sy = set (syncedDatasetNames s) - (set (key # ks) - set nxt)" using r(4) False by auto
    ultimately show ?thesis using run r(2,3) by (intro exI [of _ reg] exI [of _ sy]) simp
  qed
qed

definition mirror_ok :: "tracker \<Rightarrow> bool" where
  "mirror_ok s =
     (op_ok (registry s) \<and> list_all mirror_name (syncedDatasetNames s) \<and>
      (\<forall>nds. external_keys (registry s) nds \<noteq> {} \<longrightarrow> nds \<in> to_upper ` set (syncedDatasetNames s)))"

definition mirrored :: "clock \<Rightarrow> tracker \<Rightarrow> bool" where
  "mirrored cl s =
     (\<forall>nds. external_keys (registry s) nds =
        job_key nds ` {j \<in> set (getStoredProductJobs cl s). to_upper (job_datasetName j) = nds})"

lemma sync_mirrored:
  assumes "mirror_ok s"
  shows "\<exists>reg sy. syncExternalProductOperations cl s = set_mirror reg sy s \<and> locals reg = locals (registry s) \<and>
     mirror_ok (set_mirror reg sy s) \<and> mirrored cl (set_mirror reg sy s)"
proof -
  let ?js = "getStoredProductJobs cl s"
  let ?gs = "group_jobs ?js []"
  have wf: "list_all job_wf ?js" using getStored_wf by (auto simp: list_all_iff)
  have rec: "map_option gr_records (jm_get ?gs k) =
      (let fl = filter (\<lambda>r. dataset_key r = k) ?js in if fl = [] then None else Some fl)" for k
    by (simp add: group_jobs_records)
  have gs: "jm_ok ?gs" "list_all (\<lambda>(k, g). normalizeDatasetKey (Str (gr_dataset g)) = k) ?gs"
    using group_jobs_ok [of "[]" ?js] by simp_all
  have grp: "group_ok e" if "e \<in> set ?gs" for e
  proof -
    obtain k g where e: "e = (k, g)" by (cases e)
    with that gs(1) have "jm_get ?gs k = Some g" by (simp add: jm_get_mem)
    with rec [of k] have g: "gr_records g = filter (\<lambda>r. dataset_key r = k) ?js"
      "filter (\<lambda>r. dataset_key r = k) ?js \<noteq> []" by (simp_all add: Let_def split: if_split_asm)
    from g(2) obtain r where "r \<in> set ?js" "dataset_key r = k" by (auto simp: filter_empty_conv)
    with wf have "mirror_name k" by (auto simp: list_all_iff dest: dataset_key_name)
    with g gs(2) wf that show ?thesis by (auto simp: e group_ok_def list_all_iff)
  qed
  then have grps: "list_all group_ok ?gs" by (auto simp: list_all_iff)
  have inv: "op_ok (registry s)" "list_all mirror_name (syncedDatasetNames s)"
    "\<And>nds. external_keys (registry s) nds \<noteq> {} \<Longrightarrow> nds \<in> to_upper ` set (syncedDatasetNames s)"
    using assms by (auto simp: mirror_ok_def)
  from mirror_groups_step [OF inv(1) gs(1) grps, of cl] obtain reg1 sy1 where
    1: "mirror_groups cl ?gs s = set_mirror reg1 sy1 s" "op_ok reg1" "locals reg1 = locals (registry s)"
       "set sy1 = set (jm_keys ?gs) \<union> set (syncedDatasetNames s)"
    and k1: "\<And>k. mirror_name k \<Longrightarrow> external_keys reg1 (to_upper k) =
        (case jm_get ?gs k of None \<Rightarrow> external_keys (registry s) (to_upper k)
         | Some g \<Rightarrow> job_key (to_upper k) ` set (gr_records g))"
    and n1: "\<And>nds. nds \<notin> to_upper ` set (jm_keys ?gs) \<Longrightarrow> external_keys reg1 nds = external_keys (registry s) nds"
    by blast
  have names: "\<And>k. k \<in> set (jm_keys ?gs) \<Longrightarrow> mirror_name k" using grp by (fastforce simp: group_ok_def)
  with 1(4) inv(2) have sy1: "list_all mirror_name sy1" by (auto simp: list_all_iff)
  have "op_ok (registry (set_mirror reg1 sy1 s))" using 1(2) by simp
  from clear_unmirrored_step [OF this sy1, of "jm_keys ?gs"] obtain reg sy where
    2: "clear_unmirrored (jm_keys ?gs) sy1 (set_mirror reg1 sy1 s) = set_mirror reg sy s" "op_ok reg"
       "locals reg = locals reg1" "set sy = set sy1 - (set sy1 - set (jm_keys ?gs))"
    and n2: "\<And>nds. external_keys reg nds =
        (if nds \<in> to_upper ` (set sy1 - set (jm_keys ?gs)) then {} else external_keys reg1 nds)"
    by auto
  have sy: "set sy = set (jm_keys ?gs)" using 2(4) 1(4) by auto
  have keys: "external_keys reg nds =
      job_key nds ` {j \<in> set ?js. to_upper (job_datasetName j) = nds}" for nds
  proof (cases "nds \<in> to_upper ` set (jm_keys ?gs)")
    case True
    then obtain k where k: "k \<in> set (jm_keys ?gs)" "nds = to_upper k" by blast
    then have "jm_get ?gs k \<noteq> None" by (simp only: jm_has_keys)
    then obtain g where g: "jm_get ?gs k = Some g" by blast
    with rec [of k] have recs: "gr_records g = filter (\<lambda>r. dataset_key r = k) ?js"
      by (simp add: Let_def split: if_split_asm)
    have "nds \<notin> to_upper ` (set sy1 - set (jm_keys ?gs))"
    proof
      assume "nds \<in> to_upper ` (set sy1 - set (jm_keys ?gs))"
      then obtain l where l: "l \<in> set sy1" "l \<notin> set (jm_keys ?gs)" "to_upper l = to_upper k"
        using k(2) by auto
      with sy1 names [OF k(1)] mirror_name_inj [of l k] have "l = k" by (simp add: list_all_iff)
      with l(2) k(1) show False by simp
    qed
    with n2 [of nds] k1 [OF names [OF k(1)]] k(2) g recs have
      "external_keys reg nds = job_key nds ` {j \<in> set ?js. dataset_key j = k}" by simp
    moreover have "dataset_key j = k \<longleftrightarrow> to_upper (job_datasetName j) = nds" if "j \<in> set ?js" for j
      using that wf names [OF k(1)] k(2) mirror_name_inj [of "dataset_key j" k]
      by (simp add: list_all_iff dataset_key_name dataset_key_upper [symmetric])
    ultimately show ?thesis by (simp cong: conj_cong)
  next
    case False
    have "external_keys reg nds = {}"
    proof (cases "nds \<in> to_upper ` set (syncedDatasetNames s)")
      case True
      with False n2 [of nds] 1(4) show ?thesis by auto
    next
      case out: False
      with inv(3) [of nds] have "external_keys (registry s) nds = {}" by blast
      with n1 [OF False] have "external_keys reg1 nds = {}" by simp
      with n2 [of nds] show ?thesis by simp
    qed
    moreover have "to_upper (job_datasetName j) \<noteq> nds" if j: "j \<in> set ?js" for j
    proof
      assume nds: "to_upper (job_datasetName j) = nds"
      have "filter (\<lambda>r. dataset_key r = dataset_key j) ?js \<noteq> []" using j by (auto simp: filter_empty_conv)
      with rec [of "dataset_key j"] have "jm_get ?gs (dataset_key j) \<noteq> None" by (auto simp: Let_def)
      then have "dataset_key j \<in> set (jm_keys ?gs)" by (simp only: jm_has_keys)
      moreover have "to_upper (dataset_key j) = nds"
        using nds j wf by (simp add: list_all_iff dataset_key_upper)
      ultimately show False using False by blast
    qed
    ultimately show ?thesis by auto
  qed
  have "mirror_name k" if "k \<in> set sy" for k using that sy names by simp
  moreover have "nds \<in> to_upper ` set sy" if ne: "external_keys reg nds \<noteq> {}" for nds
  proof (rule ccontr)
    assume out: "nds \<notin> to_upper ` set sy"
    with n1 [of nds] n2 [of nds] ne sy have
      "nds \<notin> to_upper ` (set sy1 - set (jm_keys ?gs))" "external_keys (registry s) nds \<noteq> {}"
      by (auto split: if_split_asm)
    with inv(3) [of nds] out 1(4) sy show False by blast
  qed
  ultimately have "mirror_ok (set_mirror reg sy s)"
    using 2(2) by (simp add: mirror_ok_def list_all_iff)
  moreover have "mirrored cl (set_mirror reg sy s)" using keys by (simp add: mirrored_def)
  ultimately show ?thesis
    using 1(1,3) 2(1,3) by (intro exI [of _ reg] exI [of _ sy])
      (simp add: syncExternalProductOperations_def Let_def)
qed

section \<open>The turns of the service\<close>

lemma trackProductJob_fields [simp]:
  "registry (trackProductJob r b s) = registry s" "local_storage (trackProductJob r b s) = local_storage s"
  "syncedDatasetNames (trackProductJob r b s) = syncedDatasetNames s"
  "storage_full (trackProductJob r b s) = storage_full s"
  by (simp_all add: trackProductJob_def)

lemma foldl_track_fields [simp]:
  "registry (foldl (\<lambda>s r. trackProductJob r b s) s rs) = registry s"
  "local_storage (foldl (\<lambda>s r. trackProductJob r b s) s rs) = local_storage s"
  "syncedDatasetNames (foldl (\<lambda>s r. trackProductJob r b s) s rs) = syncedDatasetNames s"
  by (induction rs arbitrary: s) simp_all

lemma write_fields [simp]:
  "registry (writeStoredProductJobsIfChanged cl rs s) = registry s"
  "syncedDatasetNames (writeStoredProductJobsIfChanged cl rs s) = syncedDatasetNames s"
  "polls (writeStoredProductJobsIfChanged cl rs s) = polls s"
  by (simp_all add: writeStoredProductJobsIfChanged_def writeStoredProductJobs_def)

lemma stored_cong: "local_storage s = local_storage s' \<Longrightarrow> getStoredProductJobs cl s = getStoredProductJobs cl s'"
  by (simp add: getStoredProductJobs_def)

lemma mirrored_cong:
  assumes "\<And>nds. external_keys (registry s') nds = external_keys (registry s) nds"
    and "local_storage s' = local_storage s"
  shows "mirrored cl' s' = mirrored cl s"
proof -
  let ?at = "\<lambda>c nds. job_key nds ` {j \<in> set (getStoredProductJobs c s). to_upper (job_datasetName j) = nds}"
  have sub: "?at c nds \<subseteq> ?at d nds" for c d nds
  proof
    fix x assume "x \<in> ?at c nds"
    then obtain j where j: "j \<in> set (getStoredProductJobs c s)" "to_upper (job_datasetName j) = nds"
      "x = job_key nds j" by blast
    from j(1) getStored_clock [of c s d] have "job_core j \<in> job_core ` set (getStoredProductJobs d s)"
      by (metis image_eqI set_map)
    then obtain j' where j': "j' \<in> set (getStoredProductJobs d s)" "job_core j' = job_core j" by force
    from j j'(1) job_key_core [OF j'(2)] show "x \<in> ?at d nds"
      by (intro image_eqI [of _ _ j']) (use j'(2) in \<open>simp_all add: job_core_def\<close>)
  qed
  have "?at cl' nds = ?at cl nds" for nds using sub by blast
  with assms stored_cong [OF assms(2), of cl'] show ?thesis by (simp add: mirrored_def)
qed

lemma mirror_ok_cong:
  "op_ok (registry s') \<Longrightarrow> externals (registry s') = externals (registry s) \<Longrightarrow>
   syncedDatasetNames s' = syncedDatasetNames s \<Longrightarrow> mirror_ok s \<Longrightarrow> mirror_ok s'"
  by (simp add: mirror_ok_def external_keys_def)

text \<open>A turn that mirrors the store and then only starts polls.\<close>

lemma sync_turn:
  assumes "mirror_ok s" and "registry s' = registry (syncExternalProductOperations cl s)"
    and "syncedDatasetNames s' = syncedDatasetNames (syncExternalProductOperations cl s)"
    and "local_storage s' = local_storage (syncExternalProductOperations cl s)"
  shows "mirror_ok s' \<and> mirrored cl' s' \<and> local_storage s' = local_storage s"
proof -
  from sync_mirrored [OF assms(1), of cl] obtain reg sy where
    m: "syncExternalProductOperations cl s = set_mirror reg sy s" "mirror_ok (set_mirror reg sy s)"
       "mirrored cl (set_mirror reg sy s)" by blast
  with assms(2-4) have "mirror_ok s'" by (simp add: mirror_ok_def)
  moreover have "mirrored cl' s' = mirrored cl (set_mirror reg sy s)"
    using assms(2-4) m(1) by (intro mirrored_cong) simp_all
  ultimately show ?thesis using m assms(4) by simp
qed

lemma begin_externals [simp]: "externals (snd (beginProductOperation now ds ty label oid allow s)) = externals s"
  by (simp add: beginProductOperation_def Let_def split: option.split)

lemma end_externals [simp]: "externals (endProductOperation key s) = externals s"
  by (simp add: endProductOperation_def Let_def split: option.split)

definition delay_ok :: "int \<Rightarrow> bool" where
  "delay_ok d = (POLL_INTERVAL_MS \<le> d \<and> d \<le> MAX_POLL_INTERVAL_MS)"

definition poll_ok :: "string \<times> poll \<Rightarrow> bool" where
  "poll_ok e =
     (case e of (i, p) \<Rightarrow> jobId (po_record p) = i \<and> (po_delay p = 0 \<or> delay_ok (po_delay p)))"

definition polls_ok :: "tracker \<Rightarrow> bool" where
  "polls_ok s = (jm_ok (polls s) \<and> list_all poll_ok (polls s))"

lemma next_delay_ok: "d = 0 \<or> delay_ok d \<Longrightarrow> delay_ok (next_delay d)"
  by (auto simp: next_delay_def delay_ok_def POLL_INTERVAL_MS_def MAX_POLL_INTERVAL_MS_def)

lemma poll_outcome_delay: "poll_ok (i, p) \<Longrightarrow> poll_outcome p reply = Inl d \<Longrightarrow> delay_ok d"
  using next_delay_ok [of "po_delay p"]
  by (auto simp: poll_outcome_def poll_ok_def delay_ok_def POLL_INTERVAL_MS_def MAX_POLL_INTERVAL_MS_def
      split: if_splits)

lemma polls_ok_track: "polls_ok s \<Longrightarrow> polls_ok (trackProductJob r b s)"
  by (auto simp: polls_ok_def trackProductJob_def poll_ok_def)

lemma polls_ok_foldl: "polls_ok s \<Longrightarrow> polls_ok (foldl (\<lambda>s r. trackProductJob r b s) s rs)"
  by (induction rs arbitrary: s) (simp_all add: polls_ok_track)

lemma polls_ok_cong: "polls s' = polls s \<Longrightarrow> polls_ok s \<Longrightarrow> polls_ok s'"
  by (simp add: polls_ok_def)

lemma track_polled: "jm_has (polls s) i \<or> i = jobId r \<Longrightarrow> jm_has (polls (trackProductJob r b s)) i"
  by (auto simp: trackProductJob_def)

lemma foldl_track_polled:
  "jm_has (polls s) i \<or> i \<in> jobId ` set rs \<Longrightarrow> jm_has (polls (foldl (\<lambda>s r. trackProductJob r b s) s rs)) i"
proof (induction rs arbitrary: s)
  case (Cons r rs)
  then have "jm_has (polls (trackProductJob r b s)) i \<or> i \<in> jobId ` set rs"
    using track_polled [of s i r b] by auto
  from Cons.IH [OF this] show ?case by simp
qed simp

lemma sync_polls [simp]: "mirror_ok s \<Longrightarrow> polls (syncExternalProductOperations cl s) = polls s"
  using sync_mirrored [of s cl] by auto

lemma mirror_ok_write [simp]: "mirror_ok (writeStoredProductJobsIfChanged cl rs s) = mirror_ok s"
  by (simp add: mirror_ok_def)

lemma reconcile_turn:
  assumes "mirror_ok s"
  shows "mirror_ok (reconcileStoredProductJobs cl s)" "mirrored cl' (reconcileStoredProductJobs cl s)"
    "local_storage (reconcileStoredProductJobs cl s) = local_storage s"
    "polls_ok s \<Longrightarrow> polls_ok (reconcileStoredProductJobs cl s)"
    "j \<in> set (getStoredProductJobs cl s) \<Longrightarrow> jm_has (polls (reconcileStoredProductJobs cl s)) (jobId j)"
proof -
  let ?s = "reconcileStoredProductJobs cl s"
  have "mirror_ok ?s \<and> mirrored cl' ?s \<and> local_storage ?s = local_storage s"
    by (rule sync_turn [OF assms]) (simp_all add: reconcileStoredProductJobs_def resumeStoredProductJobs_def)
  then show "mirror_ok ?s" "mirrored cl' ?s" and store: "local_storage ?s = local_storage s" by simp_all
  show "polls_ok ?s" if "polls_ok s"
    using polls_ok_cong [OF sync_polls [OF assms] that]
    by (simp add: reconcileStoredProductJobs_def resumeStoredProductJobs_def polls_ok_foldl)
  have "getStoredProductJobs cl (syncExternalProductOperations cl s) = getStoredProductJobs cl s"
    using sync_mirrored [OF assms, of cl] by auto
  then show "jm_has (polls ?s) (jobId j)" if "j \<in> set (getStoredProductJobs cl s)"
    using that unfolding reconcileStoredProductJobs_def resumeStoredProductJobs_def
    by (intro foldl_track_polled) simp
qed

section \<open>Reachable states\<close>

text \<open>
  The turns of the event loop from the start of the page: every entry of the service, the replies to its
  requests in any order, the operations other parts of the page begin and end in the registry and, when
  \<open>shared\<close>, other tabs that write the storage. Every turn has its own clock.
\<close>

inductive job_reachable :: "bool \<Rightarrow> tracker \<Rightarrow> bool" for shared where
  start: "job_reachable shared (snd (initializeProductJobTracking cl handler (initial_tracker stored full)))"
| again: "job_reachable shared s \<Longrightarrow> job_reachable shared (snd (initializeProductJobTracking cl handler s))"
| run: "job_reachable shared s \<Longrightarrow>
    job_reachable shared (snd (runProductJob cl ds op target label can_start reply s))"
| reconcile: "job_reachable shared s \<Longrightarrow> job_reachable shared (reconcileStoredProductJobs cl s)"
| poll_reply: "job_reachable shared s \<Longrightarrow> job_reachable shared (pollProductJob cl i reply s)"
| settle: "job_reachable shared s \<Longrightarrow> job_reachable shared (settleProductJob i s)"
| request: "job_reachable shared s \<Longrightarrow> job_reachable shared (synchronizeActiveProductJobs ds s)"
| jobs_reply: "job_reachable shared s \<Longrightarrow> job_reachable shared (active_jobs_reply cl key reply s)"
| watch: "job_reachable shared s \<Longrightarrow> job_reachable shared (watchActiveProductJobs ds s)"
| release: "job_reachable shared s \<Longrightarrow> job_reachable shared (releaseRemoteWatch key s)"
| remote: "job_reachable shared s \<Longrightarrow> job_reachable shared (reconcileRemoteWatchedJobs s)"
| begin_op: "job_reachable shared s \<Longrightarrow>
    job_reachable shared (s\<lparr>registry := snd (beginProductOperation now ds ty label oid allow (registry s))\<rparr>)"
| end_op: "job_reachable shared s \<Longrightarrow> job_reachable shared (s\<lparr>registry := endProductOperation okey (registry s)\<rparr>)"
| quota: "job_reachable shared s \<Longrightarrow> job_reachable shared (s\<lparr>storage_full := full\<rparr>)"
| other_tab: "job_reachable shared s \<Longrightarrow> shared \<Longrightarrow>
    job_reachable shared (s\<lparr>local_storage := map_option (\<lambda>_. v) (local_storage s)\<rparr>)"

definition job_inv :: "bool \<Rightarrow> tracker \<Rightarrow> bool" where
  "job_inv shared s = (mirror_ok s \<and> polls_ok s \<and> (shared \<or> (\<forall>cl. mirrored cl s)))"

text \<open>A turn that leaves the mirror, the store and the polls alone.\<close>

lemma job_inv_same:
  assumes "job_inv shared s" and "registry s' = registry s" and "syncedDatasetNames s' = syncedDatasetNames s"
    and "local_storage s' = local_storage s" and "polls s' = polls s"
  shows "job_inv shared s'"
proof -
  have "mirrored cl s' = mirrored cl s" for cl using assms by (intro mirrored_cong) simp_all
  with assms show ?thesis by (simp add: job_inv_def mirror_ok_def polls_ok_def)
qed

lemma request_fields [simp]:
  "registry (synchronizeActiveProductJobs ds s) = registry s"
  "syncedDatasetNames (synchronizeActiveProductJobs ds s) = syncedDatasetNames s"
  "local_storage (synchronizeActiveProductJobs ds s) = local_storage s"
  "polls (synchronizeActiveProductJobs ds s) = polls s"
  by (simp_all add: synchronizeActiveProductJobs_def Let_def)

lemma foldl_request_fields [simp]:
  "registry (foldl (\<lambda>s w. synchronizeActiveProductJobs (f w) s) s ws) = registry s"
  "syncedDatasetNames (foldl (\<lambda>s w. synchronizeActiveProductJobs (f w) s) s ws) = syncedDatasetNames s"
  "local_storage (foldl (\<lambda>s w. synchronizeActiveProductJobs (f w) s) s ws) = local_storage s"
  "polls (foldl (\<lambda>s w. synchronizeActiveProductJobs (f w) s) s ws) = polls s"
  by (induction ws arbitrary: s) simp_all

lemma job_inv_reconcile: "mirror_ok s \<Longrightarrow> polls_ok s \<Longrightarrow> job_inv shared (reconcileStoredProductJobs cl s)"
  by (simp add: job_inv_def reconcile_turn)

lemma job_inv_initialize:
  assumes "mirror_ok s" and "polls_ok s"
  shows "job_inv shared (snd (initializeProductJobTracking cl handler s))"
proof -
  let ?s = "if handler then s\<lparr>has_handler := True\<rparr> else s"
  have "mirror_ok ?s" "polls_ok ?s" using assms by (simp_all add: mirror_ok_def polls_ok_def)
  from job_inv_same [OF job_inv_reconcile [OF this, of shared cl]] show ?thesis
    by (simp add: initializeProductJobTracking_def Let_def)
qed

lemma job_inv_run:
  assumes "job_inv shared s"
  shows "job_inv shared (snd (runProductJob cl ds op target label can_start reply s))"
proof -
  have "job_inv shared (trackProductJob r False (syncExternalProductOperations cl (upsertStoredJob cl r s)))"
    for r
  proof -
    let ?u = "upsertStoredJob cl r s"
    let ?t = "trackProductJob r False (syncExternalProductOperations cl ?u)"
    have ok: "mirror_ok ?u" using assms by (simp add: job_inv_def upsertStoredJob_def)
    have "mirror_ok ?t \<and> mirrored c ?t \<and> local_storage ?t = local_storage ?u" for c
      by (rule sync_turn [OF ok]) simp_all
    moreover have "polls_ok ?t"
      using assms polls_ok_cong [OF sync_polls [OF ok]]
      by (intro polls_ok_track) (simp add: job_inv_def polls_ok_def upsertStoredJob_def)
    ultimately show ?thesis by (simp add: job_inv_def)
  qed
  with assms show ?thesis by (simp add: runProductJob_def split: option.split)
qed

lemma job_inv_end_poll:
  assumes "mirror_ok s" and "polls_ok s" and "jm_get (polls s) i = Some p"
    and that: "s' = syncExternalProductOperations cl (removeStoredJob cl j s)"
  shows "mirror_ok (s'\<lparr>polls := jm_set i (p\<lparr>po_result := r\<rparr>) (polls s')\<rparr>) \<and>
         mirrored cl' (s'\<lparr>polls := jm_set i (p\<lparr>po_result := r\<rparr>) (polls s')\<rparr>) \<and>
         polls_ok (s'\<lparr>polls := jm_set i (p\<lparr>po_result := r\<rparr>) (polls s')\<rparr>) \<and>
         local_storage s' = local_storage (removeStoredJob cl j s) \<and> polls s' = polls s"
proof -
  have ok: "mirror_ok (removeStoredJob cl j s)" using assms(1) by (simp add: removeStoredJob_def)
  let ?t = "s'\<lparr>polls := jm_set i (p\<lparr>po_result := r\<rparr>) (polls s')\<rparr>"
  have m: "mirror_ok ?t \<and> mirrored cl' ?t \<and> local_storage ?t = local_storage (removeStoredJob cl j s)"
    by (rule sync_turn [OF ok]) (simp_all add: that)
  have "polls s' = polls s" using that sync_polls [OF ok] by (simp add: removeStoredJob_def)
  moreover from this have "polls_ok ?t"
    using assms(2,3) list_all_jm_get [of poll_ok "polls s" i p]
    by (auto simp: polls_ok_def poll_ok_def)
  ultimately show ?thesis using m by simp
qed

lemma job_inv_poll:
  assumes "job_inv shared s"
  shows "job_inv shared (pollProductJob cl i reply s)"
proof (cases "jm_get (polls s) i")
  case (Some p)
  have p: "poll_ok (i, p)"
    using assms Some list_all_jm_get [of poll_ok "polls s" i p] by (simp add: job_inv_def polls_ok_def)
  show ?thesis
  proof (cases "po_result p")
    case None
    show ?thesis
    proof (cases "poll_outcome p reply")
      case (Inl d)
      let ?t = "s\<lparr>polls := jm_set i (p\<lparr>po_delay := d\<rparr>) (polls s)\<rparr>"
      have "polls_ok ?t"
        using assms p poll_outcome_delay [OF p Inl]
        by (auto simp: job_inv_def polls_ok_def poll_ok_def)
      moreover have "mirrored c ?t = mirrored c s" for c by (rule mirrored_cong) simp_all
      ultimately show ?thesis
        using assms Some None Inl by (simp add: pollProductJob_def job_inv_def mirror_ok_def)
    next
      case (Inr r)
      let ?u = "syncExternalProductOperations cl (removeStoredJob cl (jobId (po_record p)) s)"
      let ?t = "?u\<lparr>polls := jm_set i (p\<lparr>po_result := Some r\<rparr>) (polls ?u)\<rparr>"
      have ok: "mirror_ok s" "polls_ok s" using assms by (simp_all add: job_inv_def)
      have "mirror_ok ?t \<and> polls_ok ?t \<and> mirrored c ?t" for c
        using job_inv_end_poll [OF ok Some refl] by blast
      then have "job_inv shared ?t" by (simp only: job_inv_def) simp
      moreover have "pollProductJob cl i reply s = ?t"
        by (simp add: pollProductJob_def Some None Inr Let_def)
      ultimately show ?thesis by simp
    qed
  qed (use assms Some in \<open>simp add: pollProductJob_def\<close>)
qed (use assms in \<open>simp add: pollProductJob_def\<close>)

lemma job_inv_jobs_reply:
  assumes "job_inv shared s"
  shows "job_inv shared (active_jobs_reply cl key reply s)"
proof -
  have core: "job_inv shared (snd (synchronizeActiveProductJobsCore cl ds reply s))" for ds
  proof -
    have "job_inv shared (resumeStoredProductJobs cl (syncExternalProductOperations cl
        (writeStoredProductJobsIfChanged cl rs s)))" for rs
      using job_inv_reconcile [of "writeStoredProductJobsIfChanged cl rs s" shared cl] assms
      by (simp add: reconcileStoredProductJobs_def job_inv_def polls_ok_def)
    with assms show ?thesis by (simp add: synchronizeActiveProductJobsCore_def Let_def)
  qed
  show ?thesis
  proof (cases "jm_get (activeSyncRequests s) key")
    case (Some ds)
    from job_inv_same [OF core [of ds]] Some show ?thesis by (simp add: active_jobs_reply_def Let_def)
  qed (use assms in \<open>simp add: active_jobs_reply_def\<close>)
qed

lemma job_reachable_inv: "job_reachable shared s \<Longrightarrow> job_inv shared s"
proof (induction rule: job_reachable.induct)
  case (start cl handler stored full)
  show ?case
    by (rule job_inv_initialize)
      (simp_all add: initial_tracker_def mirror_ok_def polls_ok_def external_keys_def ops_of_def
        initial_op_state_def op_ok_def)
next
  case (again s cl handler)
  then show ?case by (intro job_inv_initialize) (simp_all add: job_inv_def)
next
  case (run s cl ds op target label can_start reply)
  show ?case by (rule job_inv_run [OF run.IH])
next
  case (reconcile s cl)
  then show ?case by (intro job_inv_reconcile) (simp_all add: job_inv_def)
next
  case (poll_reply s cl i reply)
  show ?case by (rule job_inv_poll [OF poll_reply.IH])
next
  case (settle s i)
  have same: "registry (settleProductJob i s) = registry s"
    "syncedDatasetNames (settleProductJob i s) = syncedDatasetNames s"
    "local_storage (settleProductJob i s) = local_storage s"
    by (simp_all add: settleProductJob_def split: option.split)
  have "mirrored c (settleProductJob i s) = mirrored c s" for c using same by (intro mirrored_cong) simp_all
  moreover have "polls_ok (settleProductJob i s)"
    using settle.IH by (auto simp: settleProductJob_def job_inv_def polls_ok_def split: option.split)
  ultimately show ?case using settle.IH same by (simp add: job_inv_def mirror_ok_def)
next
  case (request s ds)
  show ?case by (rule job_inv_same [OF request.IH]) simp_all
next
  case (jobs_reply s cl key reply)
  show ?case by (rule job_inv_jobs_reply [OF jobs_reply.IH])
next
  case (watch s ds)
  show ?case
    by (rule job_inv_same [OF watch.IH]) (simp_all add: watchActiveProductJobs_def Let_def split: option.split)
next
  case (release s key)
  show ?case
    by (rule job_inv_same [OF release.IH]) (simp_all add: releaseRemoteWatch_def split: option.split)
next
  case (remote s)
  show ?case by (rule job_inv_same [OF remote.IH]) (simp_all add: reconcileRemoteWatchedJobs_def)
next
  case (begin_op s now ds ty label oid allow)
  let ?t = "s\<lparr>registry := snd (beginProductOperation now ds ty label oid allow (registry s))\<rparr>"
  have "mirrored c ?t = mirrored c s" for c by (rule mirrored_cong) (simp_all add: external_keys_def)
  with begin_op.IH op_ok_begin show ?case by (simp add: job_inv_def mirror_ok_def polls_ok_def external_keys_def)
next
  case (end_op s okey)
  let ?t = "s\<lparr>registry := endProductOperation okey (registry s)\<rparr>"
  have "mirrored c ?t = mirrored c s" for c by (rule mirrored_cong) (simp_all add: external_keys_def)
  with end_op.IH op_ok_end show ?case by (simp add: job_inv_def mirror_ok_def polls_ok_def external_keys_def)
next
  case (quota s full)
  show ?case by (rule job_inv_same [OF quota.IH]) simp_all
next
  case (other_tab s v)
  then show ?case by (simp add: job_inv_def mirror_ok_def polls_ok_def)
qed

section \<open>Properties\<close>

lemma mirrored_locks:
  assumes "op_ok (registry s)" and "mirrored cl s" and "j \<in> set (getStoredProductJobs cl s)"
  shows "isProductOperationRunning (Str (job_datasetName j)) (registry s) \<and>
    \<not> started (fst (beginProductOperation now (Str (job_datasetName j)) ty label oid False (registry s)))"
proof -
  let ?nds = "to_upper (job_datasetName j)"
  have wf: "normalizeDatasetName (Str (job_datasetName j)) = Some ?nds"
    using getStored_wf [OF assms(3)] by (simp add: normalizeDatasetName_Some job_wf_def)
  have "job_key ?nds j \<in> external_keys (registry s) ?nds" using assms(2,3) by (auto simp: mirrored_def)
  then have ne: "getAllOperationsForDataset (registry s) ?nds \<noteq> []"
    by (auto simp: external_keys_def getAllOperationsForDataset_def)
  have block: "\<exists>p. findBlockingOperation (getAllOperationsForDataset (registry s) ?nds) t False = Some p" for t
    using ne by (cases "getAllOperationsForDataset (registry s) ?nds") auto
  have "\<not> started (fst (beginProductOperation now (Str (job_datasetName j)) ty label oid False (registry s)))"
  proof (cases "normalizeOperationType ty")
    case (Some t)
    from block [of t] show ?thesis by (auto simp: beginProductOperation_def wf Some refused_def)
  qed (simp add: beginProductOperation_def wf refused_def)
  with ne operation_view_fields(2) [OF wf] show ?thesis by simp
qed


definition sample_clock :: clock where
  "sample_clock = \<lparr>now_ms = 0, now_iso = ''now'', parse_ms = (\<lambda>_. None), collation = length\<rparr>"

definition sample_stored :: js where
  "sample_stored = Arr [Obj [(''jobId'', Str ''J1''), (''datasetName'', Str ''101DK''),
     (''operationType'', Str ''ExportEdition'')], Str ''junk'']"

definition sample_tracker :: tracker where
  "sample_tracker = snd (initializeProductJobTracking sample_clock True
     (initial_tracker (Some sample_stored) False))"

lemma sample_reachable: "job_reachable shared sample_tracker"
  unfolding sample_tracker_def by (rule start)


text \<open>
  C5. Whatever another tab has left in the storage, the next reconciliation restores the mirror and
  polls every stored job; it does not touch the storage and drops no poll that runs.
\<close>

theorem reconcile_restores:
  assumes "job_reachable shared s"
  shows "mirrored cl' (reconcileStoredProductJobs cl s) \<and>
         local_storage (reconcileStoredProductJobs cl s) = local_storage s \<and>
         list_all (\<lambda>j. jm_has (polls (reconcileStoredProductJobs cl s)) (jobId j))
           (getStoredProductJobs cl (reconcileStoredProductJobs cl s)) \<and>
         set (jm_keys (polls s)) \<subseteq> set (jm_keys (polls (reconcileStoredProductJobs cl s)))"
proof -
  from job_reachable_inv [OF assms] have ok: "mirror_ok s" by (simp add: job_inv_def)
  note turn = reconcile_turn [OF ok, where cl = cl]
  have "jm_has (polls (reconcileStoredProductJobs cl s)) i" if "jm_has (polls s) i" for i
    unfolding reconcileStoredProductJobs_def resumeStoredProductJobs_def
    using that ok by (intro foldl_track_polled) simp
  then have "set (jm_keys (polls s)) \<subseteq> set (jm_keys (polls (reconcileStoredProductJobs cl s)))"
    by (meson jm_has_keys subsetI)
  with turn stored_cong [OF turn(3), of cl] show ?thesis by (simp add: list_all_iff)
qed

theorem reconcile_restores_witness:
  "mirrored sample_clock (reconcileStoredProductJobs sample_clock
     (sample_tracker\<lparr>local_storage := Some (Arr [])\<rparr>)) \<and>
   external_keys (registry (sample_tracker\<lparr>local_storage := Some (Arr [])\<rparr>)) ''101DK'' \<noteq> {}"
proof -
  have "job_reachable True (sample_tracker\<lparr>local_storage := map_option (\<lambda>_. Arr []) (local_storage sample_tracker)\<rparr>)"
    by (intro job_reachable.other_tab sample_reachable) simp
  moreover have "local_storage sample_tracker \<noteq> None" by code_simp
  ultimately have r: "job_reachable True (sample_tracker\<lparr>local_storage := Some (Arr [])\<rparr>)" by auto
  have "external_keys (registry (sample_tracker\<lparr>local_storage := Some (Arr [])\<rparr>)) ''101DK'' \<noteq> {}"
    by code_simp
  with reconcile_restores [OF r] show ?thesis by blast
qed

text \<open>
  C3. A status reply ends the poll of a job exactly when it reports a terminal status or that the job
  is unknown. It then removes this job from the storage, keeps all others, and unlocks what has no
  other job. Any other reply, an error included, keeps the job stored and its product locked, and the
  next request waits between two and ten seconds.
\<close>

theorem poll_reply_effect:
  assumes "job_reachable shared s" and "jm_get (polls s) i = Some p" and "po_result p = None"
    and "ended = (if truthy (field reply ''success'')
       then isTerminalProductJobStatus (field (field reply ''data'') ''status'')
       else field reply ''status'' = JNum (JInt 404))"
  shows "if ended
    then (if writable s
          then job_core ` set (getStoredProductJobs cl (pollProductJob cl i reply s)) =
               job_core ` {j \<in> set (getStoredProductJobs cl s). jobId j \<noteq> i}
          else local_storage (pollProductJob cl i reply s) = local_storage s) \<and>
         mirrored cl (pollProductJob cl i reply s) \<and>
         (\<exists>r. jm_get (polls (pollProductJob cl i reply s)) i = Some (p\<lparr>po_result := Some r\<rparr>))
    else \<exists>d. pollProductJob cl i reply s = s\<lparr>polls := jm_set i (p\<lparr>po_delay := d\<rparr>) (polls s)\<rparr> \<and>
         POLL_INTERVAL_MS \<le> d \<and> d \<le> MAX_POLL_INTERVAL_MS"
proof -
  from job_reachable_inv [OF assms(1)] have ok: "mirror_ok s" "polls_ok s" by (simp_all add: job_inv_def)
  from ok(2) assms(2) list_all_jm_get [of poll_ok "polls s" i p] have p: "poll_ok (i, p)"
    by (simp add: polls_ok_def)
  show ?thesis
  proof (cases ended)
    case True
    with assms(4) obtain r where r: "poll_outcome p reply = Inr r"
      by (auto simp: poll_outcome_def split: if_splits)
    let ?w = "removeStoredJob cl i s"
    let ?u = "syncExternalProductOperations cl ?w"
    let ?t = "?u\<lparr>polls := jm_set i (p\<lparr>po_result := Some r\<rparr>) (polls ?u)\<rparr>"
    have t: "pollProductJob cl i reply s = ?t"
      using p by (simp add: pollProductJob_def assms(2,3) r Let_def poll_ok_def)
    have m: "mirrored cl ?t" "local_storage ?u = local_storage ?w"
      using job_inv_end_poll [OF ok assms(2) refl] by blast+
    then have store: "local_storage ?t = local_storage ?w" by simp
    have "list_all job_wf (filter (\<lambda>c. jobId c \<noteq> i) (getStoredProductJobs cl s))"
      using getStored_wf by (auto simp: list_all_iff)
    from write_cores [OF this, where cl = cl and cl' = cl and s = s] have
      "if writable s then job_core ` set (getStoredProductJobs cl ?w) =
         job_core ` {j \<in> set (getStoredProductJobs cl s). jobId j \<noteq> i}
       else local_storage ?w = local_storage s"
      by (auto simp: removeStoredJob_def writeStoredProductJobsIfChanged_def writeStoredProductJobs_def
          writable_def)
    moreover have "\<exists>r'. jm_get (polls ?t) i = Some (p\<lparr>po_result := Some r'\<rparr>)"
      by (rule exI [of _ r]) simp
    ultimately show ?thesis
      using m(1) store stored_cong [OF store, of cl] True unfolding t by simp
  next
    case False
    with assms(4) obtain d where d: "poll_outcome p reply = Inl d"
      by (auto simp: poll_outcome_def split: if_splits)
    then have "pollProductJob cl i reply s = s\<lparr>polls := jm_set i (p\<lparr>po_delay := d\<rparr>) (polls s)\<rparr>"
      by (simp add: pollProductJob_def assms(2,3))
    with poll_outcome_delay [OF p d] False show ?thesis unfolding delay_ok_def by auto
  qed
qed

definition done_reply :: js where
  "done_reply = Obj [(''success'', JBool True), (''data'', Obj [(''status'', Str ''Succeeded''),
     (''operationType'', Str ''ExportEdition'')])]"

theorem poll_reply_effect_witness:
  "getStoredProductJobs sample_clock (pollProductJob sample_clock ''J1'' done_reply sample_tracker) = []"
proof -
  have "map_option po_result (jm_get (polls sample_tracker) ''J1'') = Some None" by code_simp
  then obtain p where p: "jm_get (polls sample_tracker) ''J1'' = Some p" "po_result p = None" by auto
  have fin: "True = (if truthy (field done_reply ''success'')
       then isTerminalProductJobStatus (field (field done_reply ''data'') ''status'')
       else field done_reply ''status'' = JNum (JInt 404))" by code_simp
  have w: "writable sample_tracker" by code_simp
  have "map jobId (getStoredProductJobs sample_clock sample_tracker) = [''J1'']" by code_simp
  then have "{j \<in> set (getStoredProductJobs sample_clock sample_tracker). jobId j \<noteq> ''J1''} = {}" by auto
  with poll_reply_effect [OF sample_reachable [of True] p fin, of sample_clock] w show ?thesis by simp
qed

lemma put_record_ids: "jobId ` set (put_record r rs) = insert (jobId r) (jobId ` set rs)"
  by (induction rs) auto

lemma put_records_ids: "jobId ` set (foldl (\<lambda>rs r. put_record r rs) rs js) = jobId ` set rs \<union> jobId ` set js"
  by (induction js arbitrary: rs) (auto simp: put_record_ids)

lemma put_record_wf: "list_all job_wf rs \<Longrightarrow> job_wf r \<Longrightarrow> list_all job_wf (put_record r rs)"
  by (induction rs) auto

lemma put_records_wf:
  "list_all job_wf rs \<Longrightarrow> list_all job_wf js \<Longrightarrow> list_all job_wf (foldl (\<lambda>rs r. put_record r rs) rs js)"
  by (induction js arbitrary: rs) (auto simp: put_record_wf)

lemma cores_ids: "job_core ` A = job_core ` B \<Longrightarrow> jobId ` A = jobId ` B"
proof -
  assume "job_core ` A = job_core ` B"
  then have "fst ` job_core ` A = fst ` job_core ` B" by simp
  then show ?thesis by (simp add: image_comp comp_def job_core_def)
qed

lemma remote_record_wf: "remote_record cl ds response = Some r \<Longrightarrow> job_wf r"
  by (auto simp: remote_record_def split: if_splits dest: createProductJobRecord_wf)


definition active_reply :: js where
  "active_reply = Obj [(''success'', JBool True), (''data'', Arr
     [Obj [(''jobId'', Str ''J2''), (''datasetName'', Str ''102NO''), (''operationType'', Str ''CancelExport'')]])]"


end
