(* ===== verification/AssignmentDraft.thy ===== *)
theory AssignmentDraft
  imports JsJson JsMaps "HOL-Library.Char_ord" "HOL-Library.List_Lexorder"
begin

text \<open>
  \<open>DataCatalogue/src/features/assignments/domain/assignmentDraft.js\<close>: the draft of the work streams a
  feature is assigned to, with the comments not yet saved, against the record the server owns. The
  relations of a record are an ordered map by work stream; the fields the module does not read are kept
  in \<open>rel_rest\<close> and \<open>rec_rest\<close>. \<open>Array.sort\<close> on texts is the order of their characters, \<open>fresh n\<close> is
  the n-th id of \<open>createId\<close>.
\<close>

section \<open>Records and drafts\<close>

record saved_comment =
  sc_id :: string
  sc_text :: string
  sc_author :: string
  sc_createdAt :: string

record relation =
  rel_active :: bool
  rel_comments :: "saved_comment list"
  rel_rest :: js

record assignment_record =
  relations :: "(string, relation) jmap"
  rec_rest :: js

record draft_comment =
  dc_id :: string
  dc_workStreamId :: string
  dc_text :: string

record assignment_draft =
  activeIds :: "string list"
  draft_comments :: "draft_comment list"

definition assignmentStatus :: "assignment_record option \<Rightarrow> string" where
  "assignmentStatus r =
     (if list_ex rel_active (case r of None \<Rightarrow> [] | Some r \<Rightarrow> jm_values (relations r))
      then ''Assigned'' else ''Not assigned'')"

definition createDraft :: "assignment_record \<Rightarrow> assignment_draft" where
  "createDraft r = \<lparr>activeIds = map fst (filter (\<lambda>(k, v). rel_active v) (relations r)), draft_comments = []\<rparr>"

definition ids_text :: "string list \<Rightarrow> string" where
  "ids_text ids = json_text (Arr (map Str ids))"

definition isDirty :: "assignment_record option \<Rightarrow> assignment_draft option \<Rightarrow> bool" where
  "isDirty r d =
     (case (r, d) of
        (Some r, Some d) \<Rightarrow>
          ids_text (sort (activeIds (createDraft r))) \<noteq> ids_text (sort (activeIds d)) \<or>
          0 < length (draft_comments d)
      | _ \<Rightarrow> False)"

definition inactiveCommentWorkStreamIds :: "assignment_draft option \<Rightarrow> string list" where
  "inactiveCommentWorkStreamIds d =
     (case d of
        None \<Rightarrow> []
      | Some d \<Rightarrow>
          set_of_list (filter (\<lambda>i. i \<notin> set (activeIds d)) (map dc_workStreamId (draft_comments d))))"

definition assignmentDraftError :: "assignment_draft option \<Rightarrow> string" where
  "assignmentDraftError d =
     (let ids = inactiveCommentWorkStreamIds d in
      if ids = [] then []
      else ''Assign '' @ join '', '' ids @ '' again or remove its unsaved draft comments before saving.'')"

definition relation_or_new :: "string \<Rightarrow> (string, relation) jmap \<Rightarrow> relation" where
  "relation_or_new k m =
     (case jm_get m k of None \<Rightarrow> \<lparr>rel_active = False, rel_comments = [], rel_rest = Undef\<rparr> | Some v \<Rightarrow> v)"

fun activate_all :: "string list \<Rightarrow> (string, relation) jmap \<Rightarrow> (string, relation) jmap" where
  "activate_all [] m = m"
| "activate_all (i # ids) m = activate_all ids (jm_set i ((relation_or_new i m)\<lparr>rel_active := True\<rparr>) m)"

fun push_comments ::
    "string \<Rightarrow> string \<Rightarrow> (nat \<Rightarrow> string) \<Rightarrow> nat \<Rightarrow> draft_comment list \<Rightarrow> (string, relation) jmap \<Rightarrow>
       (string, relation) jmap" where
  "push_comments author at fresh n [] m = m"
| "push_comments author at fresh n (c # cs) m =
     (if trim (dc_text c) = [] then push_comments author at fresh n cs m
      else let v = relation_or_new (dc_workStreamId c) m;
               new = \<lparr>sc_id = fresh n, sc_text = trim (dc_text c), sc_author = author, sc_createdAt = at\<rparr>
           in push_comments author at fresh (Suc n) cs
                (jm_set (dc_workStreamId c) (v\<lparr>rel_comments := rel_comments v @ [new]\<rparr>) m))"

definition applyDraft ::
    "assignment_record \<Rightarrow> assignment_draft \<Rightarrow> string \<Rightarrow> string \<Rightarrow> (nat \<Rightarrow> string) \<Rightarrow>
       string + assignment_record" where
  "applyDraft r d author at fresh =
     (let e = assignmentDraftError (Some d) in
      if e \<noteq> [] then Inl e
      else
        let cleared = jm_map (\<lambda>v. v\<lparr>rel_active := False\<rparr>) (relations r)
        in Inr (r\<lparr>relations :=
             push_comments author at fresh 0 (draft_comments d) (activate_all (activeIds d) cleared)\<rparr>))"

section \<open>Laws\<close>

lemma ids_join_inj:
  "join '','' (map json_string xs) @ '']'' = join '','' (map json_string ys) @ '']'' \<Longrightarrow> xs = ys"
proof (induction xs arbitrary: ys)
  case Nil
  then show ?case by (cases ys rule: list.exhaust; cases "tl ys") (auto simp: json_string_def)
next
  case (Cons x xs)
  have step: "join '','' (map json_string (g # gs)) @ '']'' =
      json_string g @ (if gs = [] then '']'' else '','' @ join '','' (map json_string gs) @ '']'')" for g gs
    by (cases gs) simp_all
  have "ys \<noteq> []"
  proof
    assume "ys = []"
    moreover have "join '','' (map json_string (x # xs)) \<noteq> []" by (cases xs) (simp_all add: json_string_def)
    ultimately show False using Cons.prems by simp
  qed
  then obtain y ys' where ys: "ys = y # ys'" by (cases ys) auto
  from Cons.prems [unfolded ys, unfolded step] have
    "json_string x @ (if xs = [] then '']'' else '','' @ join '','' (map json_string xs) @ '']'') =
     json_string y @ (if ys' = [] then '']'' else '','' @ join '','' (map json_string ys') @ '']'')" .
  from json_string_inj [OF this] have x: "x = y"
    and rest: "(if xs = [] then '']'' else '','' @ join '','' (map json_string xs) @ '']'') =
      (if ys' = [] then '']'' else '','' @ join '','' (map json_string ys') @ '']'')" by simp_all
  have "xs = ys'"
  proof (cases "xs = []")
    case True
    with rest show ?thesis by (cases "ys' = []") auto
  next
    case False
    with rest have "ys' \<noteq> []" by auto
    with rest False Cons.IH [of ys'] show ?thesis by simp
  qed
  with x ys show ?case by simp
qed

lemma ids_text_inj [simp]: "ids_text xs = ids_text ys \<longleftrightarrow> xs = ys"
  using ids_join_inj [of xs ys] by (auto simp: ids_text_def comp_def)

lemma sort_eq_iff: "sort xs = sort ys \<longleftrightarrow> mset xs = mset (ys :: string list)"
  by (metis mset_sort properties_for_sort sorted_sort)

lemma isDirty_iff:
  "isDirty (Some r) (Some d) \<longleftrightarrow>
     mset (activeIds (createDraft r)) \<noteq> mset (activeIds d) \<or> draft_comments d \<noteq> []"
  by (simp add: isDirty_def sort_eq_iff)

lemma isDirty_None [simp]: "\<not> isDirty None d" "\<not> isDirty r None"
  by (simp_all add: isDirty_def split: option.split)

lemma createDraft_clean [simp]: "\<not> isDirty (Some r) (Some (createDraft r))"
  by (simp add: isDirty_iff) (simp add: createDraft_def)

lemma createDraft_no_error [simp]: "assignmentDraftError (Some (createDraft r)) = []"
  by (simp add: assignmentDraftError_def inactiveCommentWorkStreamIds_def createDraft_def)

lemma assignmentDraftError_iff:
  "assignmentDraftError (Some d) = [] \<longleftrightarrow> dc_workStreamId ` set (draft_comments d) \<subseteq> set (activeIds d)"
proof -
  have "set_of_list xs = [] \<longleftrightarrow> xs = []" for xs :: "string list" by (cases xs) auto
  then have "inactiveCommentWorkStreamIds (Some d) = [] \<longleftrightarrow>
      dc_workStreamId ` set (draft_comments d) \<subseteq> set (activeIds d)"
    by (auto simp: inactiveCommentWorkStreamIds_def filter_empty_conv)
  then show ?thesis by (simp add: assignmentDraftError_def Let_def)
qed

section \<open>Saving a draft\<close>

lemma activate_all_get:
  "jm_get (activate_all ids m) k =
     (if k \<in> set ids then Some ((relation_or_new k m)\<lparr>rel_active := True\<rparr>) else jm_get m k)"
proof (induction ids m rule: activate_all.induct)
  case (2 i ids m)
  have "(relation_or_new k (jm_set i ((relation_or_new i m)\<lparr>rel_active := True\<rparr>) m))\<lparr>rel_active := True\<rparr> =
        (relation_or_new k m)\<lparr>rel_active := True\<rparr>"
    by (cases "i = k") (simp_all add: relation_or_new_def)
  with 2 show ?case by (cases "k = i") simp_all
qed simp

lemma jm_ok_activate: "jm_ok m \<Longrightarrow> jm_ok (activate_all ids m)"
  by (induction ids m rule: activate_all.induct) auto

lemma jm_ok_push: "jm_ok m \<Longrightarrow> jm_ok (push_comments author at fresh n cs m)"
  by (induction author at fresh n cs m rule: push_comments.induct) (auto simp: Let_def)

lemma jm_ok_map [simp]: "jm_ok (jm_map f m) = jm_ok m"
  by (simp add: jm_ok_def jm_map_def comp_def split_beta)

text \<open>The texts a draft adds to a work stream.\<close>

definition added_texts :: "draft_comment list \<Rightarrow> string \<Rightarrow> string list" where
  "added_texts cs k = filter (\<lambda>t. t \<noteq> []) (map (\<lambda>c. trim (dc_text c)) (filter (\<lambda>c. dc_workStreamId c = k) cs))"

lemma push_comments_get:
  assumes "\<And>c. c \<in> set cs \<Longrightarrow> jm_has m (dc_workStreamId c)"
  shows "\<exists>new. jm_get (push_comments author at fresh n cs m) k =
           map_option (\<lambda>v. v\<lparr>rel_comments := rel_comments v @ new\<rparr>) (jm_get m k) \<and>
         map sc_text new = (if jm_has m k then added_texts cs k else [])"
  using assms
proof (induction author at fresh n cs m arbitrary: k rule: push_comments.induct)
  case (1 author at fresh n m)
  have "map_option (\<lambda>v. v\<lparr>rel_comments := rel_comments v @ []\<rparr>) (jm_get m k) = jm_get m k"
    by (cases "jm_get m k") simp_all
  then show ?case by (intro exI [of _ "[]"]) (simp add: added_texts_def)
next
  case (2 author at fresh n c cs m)
  show ?case
  proof (cases "trim (dc_text c) = []")
    case True
    from 2(1) [OF True, of k] 2(3) obtain new where
      "jm_get (push_comments author at fresh n cs m) k =
         map_option (\<lambda>v. v\<lparr>rel_comments := rel_comments v @ new\<rparr>) (jm_get m k)"
      "map sc_text new = (if jm_has m k then added_texts cs k else [])" by auto
    with True show ?thesis by (intro exI [of _ new]) (simp add: added_texts_def)
  next
    case False
    let ?w = "dc_workStreamId c"
    let ?new = "\<lparr>sc_id = fresh n, sc_text = trim (dc_text c), sc_author = author, sc_createdAt = at\<rparr>"
    from 2(3) [of c] obtain v where v: "jm_get m ?w = Some v" by auto
    let ?m = "jm_set ?w (v\<lparr>rel_comments := rel_comments v @ [?new]\<rparr>) m"
    have rel: "relation_or_new ?w m = v" by (simp add: relation_or_new_def v)
    have has: "jm_has ?m x = jm_has m x" for x using v by simp
    have "\<exists>new. jm_get (push_comments author at fresh (Suc n) cs ?m) k =
           map_option (\<lambda>v. v\<lparr>rel_comments := rel_comments v @ new\<rparr>) (jm_get ?m k) \<and>
         map sc_text new = (if jm_has ?m k then added_texts cs k else [])"
      using 2(2) [OF False refl refl, of k] 2(3) unfolding rel has by simp
    then obtain new where new: "jm_get (push_comments author at fresh (Suc n) cs ?m) k =
           map_option (\<lambda>v. v\<lparr>rel_comments := rel_comments v @ new\<rparr>) (jm_get ?m k)"
      "map sc_text new = (if jm_has ?m k then added_texts cs k else [])" by blast
    have step: "push_comments author at fresh n (c # cs) m = push_comments author at fresh (Suc n) cs ?m"
      using False by (simp add: rel Let_def)
    show ?thesis
    proof (cases "k = ?w")
      case True
      with new v False show ?thesis unfolding step
        by (intro exI [of _ "?new # new"]) (simp add: added_texts_def)
    next
      case other: False
      with new False show ?thesis unfolding step
        by (intro exI [of _ new]) (simp add: added_texts_def)
    qed
  qed
qed

lemma createDraft_ids:
  assumes "jm_ok (relations r)"
  shows "distinct (activeIds (createDraft r))"
    and "k \<in> set (activeIds (createDraft r)) \<longleftrightarrow> (\<exists>v. jm_get (relations r) k = Some v \<and> rel_active v)"
proof -
  let ?f = "filter (\<lambda>(k, v). rel_active v) (relations r)"
  have "jm_ok ?f" using assms by (rule jm_ok_filter)
  then show "distinct (activeIds (createDraft r))" by (simp add: createDraft_def jm_ok_def)
  show "k \<in> set (activeIds (createDraft r)) \<longleftrightarrow> (\<exists>v. jm_get (relations r) k = Some v \<and> rel_active v)"
    using assms by (force simp: createDraft_def jm_get_mem)
qed

text \<open>
  C35. A draft is saved unless it comments on a work stream it does not assign. Saving makes exactly the
  work streams of the draft active, keeps every saved comment, appends to each work stream the texts of
  its draft comments that are not blank, and leaves nothing unsaved: a new draft of the result, and the
  old one without its comments, are clean.
\<close>

theorem apply_draft_exact:
  assumes "jm_ok (relations r)" and "distinct (activeIds d)"
  shows "case applyDraft r d author at fresh of
      Inl e \<Rightarrow> \<exists>c \<in> set (draft_comments d). dc_workStreamId c \<notin> set (activeIds d)
    | Inr r' \<Rightarrow>
        dc_workStreamId ` set (draft_comments d) \<subseteq> set (activeIds d) \<and>
        (\<forall>k. (k \<in> set (activeIds (createDraft r'))) = (k \<in> set (activeIds d))) \<and>
        (\<forall>k. map sc_text (rel_comments (relation_or_new k (relations r'))) =
             map sc_text (rel_comments (relation_or_new k (relations r))) @ added_texts (draft_comments d) k \<and>
             take (length (rel_comments (relation_or_new k (relations r))))
               (rel_comments (relation_or_new k (relations r'))) =
             rel_comments (relation_or_new k (relations r))) \<and>
        isDirty (Some r') (Some (d\<lparr>draft_comments := []\<rparr>)) = False"
proof (cases "assignmentDraftError (Some d) = []")
  case False
  then show ?thesis by (auto simp: applyDraft_def assignmentDraftError_iff)
next
  case True
  then have sub: "dc_workStreamId ` set (draft_comments d) \<subseteq> set (activeIds d)"
    by (simp add: assignmentDraftError_iff)
  let ?m = "jm_map (\<lambda>v. v\<lparr>rel_active := False\<rparr>) (relations r)"
  let ?a = "activate_all (activeIds d) ?m"
  let ?r = "r\<lparr>relations := push_comments author at fresh 0 (draft_comments d) ?a\<rparr>"
  have run: "applyDraft r d author at fresh = Inr ?r" using True by (simp add: applyDraft_def)
  have ok: "jm_ok (relations ?r)" using assms(1) by (simp add: jm_ok_push jm_ok_activate)
  have a: "jm_get ?a k = (if k \<in> set (activeIds d) then Some ((relation_or_new k (relations r))\<lparr>rel_active := True\<rparr>)
      else map_option (\<lambda>v. v\<lparr>rel_active := False\<rparr>) (jm_get (relations r) k))" for k
    by (cases "jm_get (relations r) k") (simp_all add: activate_all_get jm_get_map relation_or_new_def)
  have has: "jm_has ?a (dc_workStreamId c)" if "c \<in> set (draft_comments d)" for c
    using that sub by (auto simp: a)
  have eff: "rel_active (relation_or_new k (relations ?r)) = (k \<in> set (activeIds d)) \<and>
      (\<exists>new. rel_comments (relation_or_new k (relations ?r)) =
         rel_comments (relation_or_new k (relations r)) @ new \<and> map sc_text new = added_texts (draft_comments d) k)" for k
  proof -
    from push_comments_get [OF has] obtain new where new: "jm_get (relations ?r) k =
        map_option (\<lambda>v. v\<lparr>rel_comments := rel_comments v @ new\<rparr>) (jm_get ?a k)"
      "map sc_text new = (if jm_has ?a k then added_texts (draft_comments d) k else [])" by fastforce
    show ?thesis
    proof (cases "k \<in> set (activeIds d)")
      case True
      with new(1) have "relation_or_new k (relations ?r) = (relation_or_new k (relations r))
          \<lparr>rel_active := True, rel_comments := rel_comments (relation_or_new k (relations r)) @ new\<rparr>"
        unfolding relation_or_new_def [of k "relations ?r"] new(1) by (simp add: a)
      with new(2) True show ?thesis by (simp add: a)
    next
      case False
      with sub have none: "added_texts (draft_comments d) k = []"
        by (auto simp: added_texts_def filter_empty_conv)
      with new False show ?thesis
        by (cases "jm_get (relations r) k") (simp_all add: a relation_or_new_def)
    qed
  qed
  have ids: "k \<in> set (activeIds (createDraft ?r)) \<longleftrightarrow> k \<in> set (activeIds d)" for k
    using createDraft_ids(2) [OF ok, of k] eff [of k]
    by (cases "jm_get (relations ?r) k") (auto simp: relation_or_new_def)
  then have "set (activeIds (createDraft ?r)) = set (activeIds d)" by blast
  with createDraft_ids(1) [OF ok] assms(2) have "mset (activeIds (createDraft ?r)) = mset (activeIds d)"
    by (simp add: set_eq_iff_mset_eq_distinct)
  then have clean: "\<not> isDirty (Some ?r) (Some (d\<lparr>draft_comments := []\<rparr>))" by (simp add: isDirty_iff)
  have comments: "map sc_text (rel_comments (relation_or_new k (relations ?r))) =
      map sc_text (rel_comments (relation_or_new k (relations r))) @ added_texts (draft_comments d) k \<and>
      take (length (rel_comments (relation_or_new k (relations r))))
        (rel_comments (relation_or_new k (relations ?r))) =
      rel_comments (relation_or_new k (relations r))" for k
    using eff [of k] by auto
  show ?thesis unfolding run sum.case using sub ids comments clean by blast
qed

definition sample_record :: assignment_record where
  "sample_record = \<lparr>relations = [(''DK2'', \<lparr>rel_active = True, rel_comments = [], rel_rest = Undef\<rparr>)],
     rec_rest = Undef\<rparr>"

definition sample_draft :: assignment_draft where
  "sample_draft = \<lparr>activeIds = [''DK1''],
     draft_comments = [\<lparr>dc_id = ''c'', dc_workStreamId = ''DK1'', dc_text = '' ok ''\<rparr>]\<rparr>"

theorem apply_draft_exact_witness:
  "case applyDraft sample_record sample_draft ''me'' ''now'' (\<lambda>_. ''id'') of
     Inl e \<Rightarrow> False
   | Inr r' \<Rightarrow> ''DK1'' \<in> set (activeIds (createDraft r')) \<and> ''DK2'' \<notin> set (activeIds (createDraft r'))"
proof -
  have h: "jm_ok (relations sample_record)" "distinct (activeIds sample_draft)"
    by (simp_all add: sample_record_def sample_draft_def)
  have c: "\<not> (\<exists>c \<in> set (draft_comments sample_draft). dc_workStreamId c \<notin> set (activeIds sample_draft))"
    and i: "''DK1'' \<in> set (activeIds sample_draft)" "''DK2'' \<notin> set (activeIds sample_draft)"
    by (simp_all add: sample_draft_def)
  from apply_draft_exact [OF h, of "''me''" "''now''" "\<lambda>_. ''id''"] c i
  show ?thesis by (simp split: sum.splits)
qed

end
