(* ===== verification/AssignmentSession.thy ===== *)
theory AssignmentSession
  imports AssignmentDraft
begin

text \<open>
  \<open>DataCatalogue/src/features/assignments/state/createAssignmentSession.js\<close>: the editing session of the
  assignments of one selected feature. The closure's variables are the record \<open>session\<close>; its \<open>view\<close> is
  the \<open>state\<close> object the page sees, and \<open>published\<close> lists the snapshots the listeners were given.

  A promise of the services is an entry of \<open>inflight\<close>, which names the generation, the feature and the
  draft its continuation has captured; what it settles to is the argument of the \<open>_reply\<close> functions,
  each of which runs the \<open>then\<close>, \<open>catch\<close> and \<open>finally\<close> of one promise. \<open>sent\<close> is the log of all
  requests. A promise is identified by its generation; no two selections share one.
\<close>

section \<open>State\<close>

record feature =
  fe_id :: string
  fe_rest :: js

record service_error =
  err_message :: string
  err_record :: "assignment_record option"
  err_requiresReconciliation :: bool

record session_view =
  sv_feature :: "feature option"
  sv_record :: "assignment_record option"
  sv_draft :: "assignment_draft option"
  sv_loading :: bool
  sv_saving :: bool
  sv_reconciliationRequired :: bool
  sv_error :: string
  sv_selectionError :: string
  sv_validationError :: string
  sv_dirty :: bool

datatype request =
    SelectRequest nat string
  | SaveRequest nat string assignment_draft
  | ReconcileRequest nat string

fun request_generation :: "request \<Rightarrow> nat" where
  "request_generation (SelectRequest g i) = g"
| "request_generation (SaveRequest g i d) = g"
| "request_generation (ReconcileRequest g i) = g"

fun is_write :: "request \<Rightarrow> bool" where
  "is_write (SaveRequest g i d) = True"
| "is_write _ = False"

fun is_select :: "request \<Rightarrow> bool" where
  "is_select (SelectRequest g i) = True"
| "is_select _ = False"

record session =
  view :: session_view
  generation :: nat
  alive :: bool
  pendingSave :: "request option"
  pendingSelection :: "(string \<times> nat) option"
  inflight :: "request list"
  sent :: "request list"
  published :: "session_view list"

definition empty_view :: session_view where
  "empty_view =
     \<lparr>sv_feature = None, sv_record = None, sv_draft = None, sv_loading = False, sv_saving = False,
      sv_reconciliationRequired = False, sv_error = [], sv_selectionError = [], sv_validationError = [],
      sv_dirty = False\<rparr>"

definition initial_session :: session where
  "initial_session =
     \<lparr>view = empty_view, generation = 0, alive = True, pendingSave = None, pendingSelection = None,
      inflight = [], sent = [], published = []\<rparr>"

text \<open>The answer of a call: a promise that is resolved, one that was pending, or a new one.\<close>

datatype call_result = Resolved bool | Joined | Started

definition emit_session :: "session \<Rightarrow> session" where
  "emit_session s =
     (let v = (view s)
           \<lparr>sv_dirty := isDirty (sv_record (view s)) (sv_draft (view s)),
            sv_validationError := assignmentDraftError (sv_draft (view s))\<rparr>
      in s\<lparr>view := v, published := published s @ [v]\<rparr>)"

definition editable :: "session \<Rightarrow> bool" where
  "editable s = (alive s \<and> sv_draft (view s) \<noteq> None \<and> \<not> sv_loading (view s) \<and> \<not> sv_saving (view s))"

definition send_request :: "request \<Rightarrow> session \<Rightarrow> session" where
  "send_request q s = s\<lparr>inflight := inflight s @ [q], sent := sent s @ [q]\<rparr>"

definition settled :: "request \<Rightarrow> session \<Rightarrow> session" where
  "settled q s = s\<lparr>inflight := remove1 q (inflight s)\<rparr>"

section \<open>Selection\<close>

definition select_feature :: "string \<Rightarrow> session \<Rightarrow> call_result \<times> session" where
  "select_feature i s =
     (if \<not> alive s \<or> sv_saving (view s) \<or> sv_dirty (view s) \<or> sv_reconciliationRequired (view s)
      then (Resolved False, s)
      else if (case pendingSelection s of None \<Rightarrow> False | Some (j, _) \<Rightarrow> j = i) then (Joined, s)
      else
        let g = Suc (generation s);
            s1 = emit_session (s\<lparr>generation := g, view := (view s)
                   \<lparr>sv_loading := True, sv_error := [], sv_selectionError := []\<rparr>\<rparr>)
        in (Started, send_request (SelectRequest g i) (s1\<lparr>pendingSelection := Some (i, g)\<rparr>)))"

definition committed_view :: "feature \<Rightarrow> assignment_record \<Rightarrow> session_view" where
  "committed_view f r = empty_view\<lparr>sv_feature := Some f, sv_record := Some r, sv_draft := Some (createDraft r)\<rparr>"

definition clear_selection :: "nat \<Rightarrow> session \<Rightarrow> session" where
  "clear_selection g s =
     (case pendingSelection s of
        None \<Rightarrow> s | Some (i, h) \<Rightarrow> if h = g then s\<lparr>pendingSelection := None\<rparr> else s)"

definition select_reply ::
    "nat \<Rightarrow> string \<Rightarrow> service_error + (feature \<times> assignment_record) \<Rightarrow> session \<Rightarrow> session" where
  "select_reply g i result s =
     clear_selection g (settled (SelectRequest g i)
       (if \<not> alive s \<or> g \<noteq> generation s then s
        else (case result of
                Inr (f, r) \<Rightarrow> emit_session (s\<lparr>view := committed_view f r\<rparr>)
              | Inl e \<Rightarrow> emit_session (s\<lparr>view := (view s)
                  \<lparr>sv_loading := False, sv_error := err_message e, sv_selectionError := err_message e\<rparr>\<rparr>))))"

section \<open>Saving\<close>

definition save_session :: "session \<Rightarrow> call_result \<times> session" where
  "save_session s =
     (let v = view s in
      if pendingSave s \<noteq> None then (Joined, s)
      else if \<not> editable s \<or> sv_reconciliationRequired v then (Resolved False, s)
      else if \<not> sv_dirty v then (Resolved (sv_error v = []), s)
      else if sv_validationError v \<noteq> [] then (Resolved False, s)
      else (case (sv_feature v, sv_draft v) of
              (Some f, Some d) \<Rightarrow>
                (let q = SaveRequest (generation s) (fe_id f) d;
                     s1 = emit_session (s\<lparr>view := v
                            \<lparr>sv_saving := True, sv_error := [], sv_selectionError := []\<rparr>\<rparr>)
                 in (Started, send_request q (s1\<lparr>pendingSave := Some q\<rparr>)))
            | _ \<Rightarrow> (Resolved False, s)))"

definition finish_save :: "request \<Rightarrow> session \<Rightarrow> session" where
  "finish_save q s =
     (let s1 = settled q (s\<lparr>pendingSave := None\<rparr>) in
      if alive s1 \<and> generation s1 = request_generation q
      then emit_session (s1\<lparr>view := (view s1)\<lparr>sv_saving := False\<rparr>\<rparr>)
      else s1)"

definition save_reply ::
    "nat \<Rightarrow> string \<Rightarrow> assignment_draft \<Rightarrow> service_error + assignment_record \<Rightarrow> session \<Rightarrow> session" where
  "save_reply g i d result s =
     finish_save (SaveRequest g i d)
       (if \<not> alive s \<or> generation s \<noteq> g then s
        else (case result of
                Inr r \<Rightarrow> s\<lparr>view := (view s)
                  \<lparr>sv_record := Some r, sv_draft := Some (createDraft r), sv_reconciliationRequired := False\<rparr>\<rparr>
              | Inl e \<Rightarrow> s\<lparr>view := (view s)
                  \<lparr>sv_record := (case err_record e of None \<Rightarrow> sv_record (view s) | Some r \<Rightarrow> Some r),
                   sv_reconciliationRequired := err_requiresReconciliation e,
                   sv_error := err_message e\<rparr>\<rparr>))"

definition reconcile_session :: "session \<Rightarrow> call_result \<times> session" where
  "reconcile_session s =
     (let v = view s in
      if pendingSave s \<noteq> None then (Joined, s)
      else if \<not> editable s \<or> \<not> sv_reconciliationRequired v then (Resolved False, s)
      else (case sv_feature v of
              None \<Rightarrow> (Resolved False, s)
            | Some f \<Rightarrow>
                (let q = ReconcileRequest (generation s) (fe_id f);
                     s1 = emit_session (s\<lparr>view := v\<lparr>sv_saving := True, sv_error := []\<rparr>\<rparr>)
                 in (Started, send_request q (s1\<lparr>pendingSave := Some q\<rparr>)))))"

definition reconcile_reply ::
    "nat \<Rightarrow> string \<Rightarrow> service_error + assignment_record \<Rightarrow> session \<Rightarrow> session" where
  "reconcile_reply g i result s =
     finish_save (ReconcileRequest g i)
       (if \<not> alive s \<or> generation s \<noteq> g then s
        else (case result of
                Inr r \<Rightarrow> s\<lparr>view := (view s)
                  \<lparr>sv_record := Some r, sv_reconciliationRequired := False,
                   sv_error := ''Saved bindings reloaded. Review your draft before another Save. A timed-out request may still complete on the server.''\<rparr>\<rparr>
              | Inl e \<Rightarrow> s\<lparr>view := (view s)
                  \<lparr>sv_error := ''Could not verify saved bindings: '' @ err_message e @
                     '' Check again before saving.''\<rparr>\<rparr>))"

definition reset_session :: "session \<Rightarrow> session" where
  "reset_session s = emit_session (s\<lparr>generation := Suc (generation s), view := empty_view\<rparr>)"

definition abandonUncertainDraft :: "session \<Rightarrow> bool \<times> session" where
  "abandonUncertainDraft s =
     (if \<not> alive s \<or> sv_saving (view s) \<or> \<not> sv_reconciliationRequired (view s) then (False, s)
      else (True, reset_session s))"

definition clear_session :: "session \<Rightarrow> bool \<times> session" where
  "clear_session s =
     (if \<not> alive s \<or> sv_saving (view s) \<or> sv_dirty (view s) \<or> sv_reconciliationRequired (view s)
      then (False, s)
      else (True, reset_session (s\<lparr>pendingSelection := None\<rparr>)))"

definition destroy_session :: "session \<Rightarrow> session" where
  "destroy_session s = s\<lparr>alive := False, generation := Suc (generation s), pendingSelection := None\<rparr>"

section \<open>Editing\<close>

definition update_draft :: "(assignment_draft \<Rightarrow> assignment_draft) \<Rightarrow> session \<Rightarrow> session" where
  "update_draft f s = emit_session (s\<lparr>view := (view s)\<lparr>sv_draft := map_option f (sv_draft (view s))\<rparr>\<rparr>)"

definition setAssigned :: "string \<Rightarrow> bool \<Rightarrow> session \<Rightarrow> session" where
  "setAssigned i active s =
     (if \<not> editable s then s
      else update_draft (\<lambda>d. d\<lparr>activeIds :=
             filter (\<lambda>j. j \<noteq> i) (activeIds d) @ (if active then [i] else [])\<rparr>) s)"

definition addComment :: "string \<Rightarrow> string \<Rightarrow> session \<Rightarrow> bool \<times> session" where
  "addComment uuid ws s =
     (if \<not> editable s \<or> (case sv_draft (view s) of None \<Rightarrow> True | Some d \<Rightarrow> ws \<notin> set (activeIds d))
      then (False, s)
      else (True, update_draft (\<lambda>d. d\<lparr>draft_comments := draft_comments d @
             [\<lparr>dc_id = uuid, dc_workStreamId = ws, dc_text = []\<rparr>]\<rparr>) s))"

fun edit_first :: "string \<Rightarrow> string \<Rightarrow> draft_comment list \<Rightarrow> draft_comment list" where
  "edit_first i t [] = []"
| "edit_first i t (c # cs) = (if dc_id c = i then c\<lparr>dc_text := t\<rparr> # cs else c # edit_first i t cs)"

definition editComment :: "string \<Rightarrow> string \<Rightarrow> session \<Rightarrow> session" where
  "editComment i t s =
     (if \<not> editable s \<or>
         (case sv_draft (view s) of None \<Rightarrow> True | Some d \<Rightarrow> i \<notin> dc_id ` set (draft_comments d))
      then s
      else update_draft (\<lambda>d. d\<lparr>draft_comments := edit_first i t (draft_comments d)\<rparr>) s)"

definition removeComment :: "string \<Rightarrow> session \<Rightarrow> session" where
  "removeComment i s =
     (if \<not> editable s then s
      else update_draft (\<lambda>d. d\<lparr>draft_comments := filter (\<lambda>c. dc_id c \<noteq> i) (draft_comments d)\<rparr>) s)"

definition discard_session :: "session \<Rightarrow> session" where
  "discard_session s =
     (if editable s \<and> \<not> sv_reconciliationRequired (view s)
      then emit_session (s\<lparr>view := (view s)
             \<lparr>sv_draft := map_option createDraft (sv_record (view s)), sv_error := []\<rparr>\<rparr>)
      else s)"

section \<open>Events\<close>

datatype session_event =
    Select string
  | SelectReply nat string "service_error + (feature \<times> assignment_record)"
  | Save
  | SaveReply nat string assignment_draft "service_error + assignment_record"
  | Reconcile
  | ReconcileReply nat string "service_error + assignment_record"
  | Abandon
  | Clear
  | Destroy
  | SetAssigned string bool
  | AddComment string string
  | EditComment string string
  | RemoveComment string
  | Discard

fun session_step :: "session_event \<Rightarrow> session \<Rightarrow> session" where
  "session_step (Select i) s = snd (select_feature i s)"
| "session_step (SelectReply g i r) s = select_reply g i r s"
| "session_step Save s = snd (save_session s)"
| "session_step (SaveReply g i d r) s = save_reply g i d r s"
| "session_step Reconcile s = snd (reconcile_session s)"
| "session_step (ReconcileReply g i r) s = reconcile_reply g i r s"
| "session_step Abandon s = snd (abandonUncertainDraft s)"
| "session_step Clear s = snd (clear_session s)"
| "session_step Destroy s = destroy_session s"
| "session_step (SetAssigned i b) s = setAssigned i b s"
| "session_step (AddComment u w) s = snd (addComment u w s)"
| "session_step (EditComment i t) s = editComment i t s"
| "session_step (RemoveComment i) s = removeComment i s"
| "session_step Discard s = discard_session s"

text \<open>A reply answers a request that is in flight; any other event can happen at any time.\<close>

fun event_request :: "session_event \<Rightarrow> request option" where
  "event_request (SelectReply g i r) = Some (SelectRequest g i)"
| "event_request (SaveReply g i d r) = Some (SaveRequest g i d)"
| "event_request (ReconcileReply g i r) = Some (ReconcileRequest g i)"
| "event_request _ = None"

definition enabled :: "session_event \<Rightarrow> session \<Rightarrow> bool" where
  "enabled e s = (case event_request e of None \<Rightarrow> True | Some q \<Rightarrow> q \<in> set (inflight s))"

inductive session_reachable :: "session \<Rightarrow> bool" where
  initial: "session_reachable initial_session"
| step: "session_reachable s \<Longrightarrow> enabled e s \<Longrightarrow> session_reachable (session_step e s)"

section \<open>The invariant\<close>

definition requests_ok :: "session \<Rightarrow> bool" where
  "requests_ok s =
     (filter (\<lambda>q. \<not> is_select q) (inflight s) = (case pendingSave s of None \<Rightarrow> [] | Some q \<Rightarrow> [q]) \<and>
      distinct (map request_generation (filter is_select (inflight s))) \<and>
      (\<forall>q \<in> set (inflight s). request_generation q \<le> generation s))"

definition view_ok :: "session_view \<Rightarrow> bool" where
  "view_ok v =
     ((sv_record v = None) = (sv_draft v = None) \<and> (sv_feature v = None) = (sv_draft v = None) \<and>
      (sv_reconciliationRequired v \<longrightarrow> sv_draft v \<noteq> None) \<and>
      (sv_loading v \<longrightarrow> \<not> sv_saving v \<and> \<not> sv_reconciliationRequired v \<and>
         \<not> isDirty (sv_record v) (sv_draft v)))"

definition pending_ok :: "session \<Rightarrow> bool" where
  "pending_ok s =
     (sv_saving (view s) = (pendingSave s \<noteq> None) \<and>
      sv_loading (view s) = (pendingSelection s \<noteq> None) \<and>
      (\<forall>i g. pendingSelection s = Some (i, g) \<longrightarrow> g = generation s \<and> SelectRequest g i \<in> set (inflight s)) \<and>
      (\<forall>i. SelectRequest (generation s) i \<in> set (inflight s) \<longrightarrow> pendingSelection s = Some (i, generation s)) \<and>
      (\<forall>q. pendingSave s = Some q \<longrightarrow> request_generation q = generation s \<and> sv_draft (view s) \<noteq> None) \<and>
      (\<forall>g i d. pendingSave s = Some (SaveRequest g i d) \<longrightarrow>
         sv_draft (view s) = Some d \<and> map_option fe_id (sv_feature (view s)) = Some i \<and>
         \<not> sv_reconciliationRequired (view s)))"

definition in_step :: "session_view \<Rightarrow> bool" where
  "in_step v = (sv_dirty v = isDirty (sv_record v) (sv_draft v) \<and>
                sv_validationError v = assignmentDraftError (sv_draft v))"

definition session_inv :: "session \<Rightarrow> bool" where
  "session_inv s =
     (requests_ok s \<and> view_ok (view s) \<and> (alive s \<longrightarrow> pending_ok s \<and> in_step (view s)))"

lemma no_pair [simp]: "(\<forall>a b. x \<noteq> Some (a, b)) \<longleftrightarrow> x = None"
  by (cases x) auto

lemma pending_okI:
  assumes "sv_saving (view s) = (pendingSave s \<noteq> None)" and "sv_loading (view s) = (pendingSelection s \<noteq> None)"
    and "\<And>i g. pendingSelection s = Some (i, g) \<Longrightarrow> g = generation s \<and> SelectRequest g i \<in> set (inflight s)"
    and "\<And>i. SelectRequest (generation s) i \<in> set (inflight s) \<Longrightarrow> pendingSelection s = Some (i, generation s)"
    and "\<And>q. pendingSave s = Some q \<Longrightarrow> request_generation q = generation s \<and> sv_draft (view s) \<noteq> None"
    and "\<And>g i d. pendingSave s = Some (SaveRequest g i d) \<Longrightarrow>
           sv_draft (view s) = Some d \<and> map_option fe_id (sv_feature (view s)) = Some i \<and>
           \<not> sv_reconciliationRequired (view s)"
  shows "pending_ok s"
  unfolding pending_ok_def using assms by blast

lemma pending_okD:
  assumes "pending_ok s"
  shows "sv_saving (view s) = (pendingSave s \<noteq> None)" "sv_loading (view s) = (pendingSelection s \<noteq> None)"
    "pendingSelection s = Some (i, g) \<Longrightarrow> g = generation s \<and> SelectRequest g i \<in> set (inflight s)"
    "SelectRequest (generation s) i \<in> set (inflight s) \<Longrightarrow> pendingSelection s = Some (i, generation s)"
    "pendingSave s = Some q \<Longrightarrow> request_generation q = generation s \<and> sv_draft (view s) \<noteq> None"
    "pendingSave s = Some (SaveRequest h i d) \<Longrightarrow>
           sv_draft (view s) = Some d \<and> map_option fe_id (sv_feature (view s)) = Some i \<and>
           \<not> sv_reconciliationRequired (view s)"
  using assms unfolding pending_ok_def by blast+

lemma pending_ok_idle:
  "\<lbrakk>\<not> sv_saving (view s); \<not> sv_loading (view s); pendingSave s = None; pendingSelection s = None;
    \<And>i. SelectRequest (generation s) i \<notin> set (inflight s)\<rbrakk> \<Longrightarrow> pending_ok s"
  by (intro pending_okI) simp_all

lemma emit_session_fields [simp]:
  "generation (emit_session s) = generation s" "alive (emit_session s) = alive s"
  "pendingSave (emit_session s) = pendingSave s" "pendingSelection (emit_session s) = pendingSelection s"
  "inflight (emit_session s) = inflight s" "sent (emit_session s) = sent s"
  "sv_feature (view (emit_session s)) = sv_feature (view s)" "sv_record (view (emit_session s)) = sv_record (view s)"
  "sv_draft (view (emit_session s)) = sv_draft (view s)" "sv_loading (view (emit_session s)) = sv_loading (view s)"
  "sv_saving (view (emit_session s)) = sv_saving (view s)" "sv_error (view (emit_session s)) = sv_error (view s)"
  "sv_reconciliationRequired (view (emit_session s)) = sv_reconciliationRequired (view s)"
  "sv_dirty (view (emit_session s)) = isDirty (sv_record (view s)) (sv_draft (view s))"
  "sv_validationError (view (emit_session s)) = assignmentDraftError (sv_draft (view s))"
  by (simp_all add: emit_session_def Let_def)

lemma empty_view_fields [simp]:
  "sv_feature empty_view = None" "sv_record empty_view = None" "sv_draft empty_view = None"
  "sv_loading empty_view = False" "sv_saving empty_view = False"
  "sv_reconciliationRequired empty_view = False" "sv_dirty empty_view = False"
  by (simp_all add: empty_view_def)

lemma committed_view_fields [simp]:
  "sv_feature (committed_view f r) = Some f" "sv_record (committed_view f r) = Some r"
  "sv_draft (committed_view f r) = Some (createDraft r)" "sv_loading (committed_view f r) = False"
  "sv_saving (committed_view f r) = False" "sv_reconciliationRequired (committed_view f r) = False"
  by (simp_all add: committed_view_def)

lemma emit_in_step [simp]: "in_step (view (emit_session s))"
  by (simp add: in_step_def)

lemma send_request_fields [simp]:
  "view (send_request q s) = view s" "generation (send_request q s) = generation s"
  "alive (send_request q s) = alive s" "pendingSave (send_request q s) = pendingSave s"
  "pendingSelection (send_request q s) = pendingSelection s"
  "inflight (send_request q s) = inflight s @ [q]" "sent (send_request q s) = sent s @ [q]"
  by (simp_all add: send_request_def)

lemma settled_fields [simp]:
  "view (settled q s) = view s" "generation (settled q s) = generation s"
  "alive (settled q s) = alive s" "pendingSave (settled q s) = pendingSave s"
  "pendingSelection (settled q s) = pendingSelection s"
  "inflight (settled q s) = remove1 q (inflight s)" "sent (settled q s) = sent s"
  by (simp_all add: settled_def)

lemma clear_selection_fields [simp]:
  "view (clear_selection g s) = view s" "generation (clear_selection g s) = generation s"
  "alive (clear_selection g s) = alive s" "pendingSave (clear_selection g s) = pendingSave s"
  "inflight (clear_selection g s) = inflight s" "sent (clear_selection g s) = sent s"
  "pendingSelection (clear_selection g s) =
     (case pendingSelection s of None \<Rightarrow> None | Some (i, h) \<Rightarrow> if h = g then None else Some (i, h))"
  by (simp_all add: clear_selection_def split: option.split prod.split)

lemma requests_ok_cong:
  "inflight s' = inflight s \<Longrightarrow> pendingSave s' = pendingSave s \<Longrightarrow> generation s \<le> generation s' \<Longrightarrow>
   requests_ok s \<Longrightarrow> requests_ok s'"
  by (auto simp: requests_ok_def intro: le_trans)

lemma session_invI:
  "requests_ok s \<Longrightarrow> view_ok (view s) \<Longrightarrow> (alive s \<Longrightarrow> pending_ok s) \<Longrightarrow> (alive s \<Longrightarrow> in_step (view s)) \<Longrightarrow> session_inv s"
  by (simp add: session_inv_def)

lemma session_invD:
  assumes "session_inv s"
  shows "requests_ok s" "view_ok (view s)" "alive s \<Longrightarrow> pending_ok s" "alive s \<Longrightarrow> in_step (view s)"
  using assms by (simp_all add: session_inv_def)

lemma idle_when_editable:
  assumes "session_inv s" and "editable s"
  shows "alive s" "\<not> sv_loading (view s)" "\<not> sv_saving (view s)" "pendingSave s = None"
    "pendingSelection s = None" "sv_draft (view s) \<noteq> None" "sv_record (view s) \<noteq> None" "sv_feature (view s) \<noteq> None"
  using session_invD(2) [OF assms(1)] assms(2) pending_okD(1,2) [OF session_invD(3) [OF assms(1)]]
  by (auto simp: editable_def view_ok_def)

lemma none_selected:
  assumes "session_inv s" and "alive s" and "pendingSelection s = None"
  shows "SelectRequest (generation s) i \<notin> set (inflight s)"
  using pending_okD(4) [OF session_invD(3) [OF assms(1,2)]] assms(3) by auto

text \<open>A change of the view while nothing is pending.\<close>

lemma session_inv_edit:
  assumes "session_inv s" and "editable s" and "view_ok v"
    and "sv_loading v = False" and "sv_saving v = False"
  shows "session_inv (emit_session (s\<lparr>view := v\<rparr>))"
proof (rule session_invI)
  let ?t = "emit_session (s\<lparr>view := v\<rparr>)"
  note idle = idle_when_editable [OF assms(1,2)]
  show "requests_ok ?t"
    by (rule requests_ok_cong [OF _ _ _ session_invD(1) [OF assms(1)]]) simp_all
  show "view_ok (view ?t)" using assms(3) by (simp add: view_ok_def)
  show "pending_ok ?t"
    by (rule pending_ok_idle) (use idle assms(4,5) none_selected [OF assms(1)] in simp_all)
qed simp

lemma session_inv_update:
  assumes "session_inv s" and "editable s"
  shows "session_inv (update_draft f s)"
  unfolding update_draft_def
  by (rule session_inv_edit [OF assms])
    (use idle_when_editable [OF assms] in \<open>auto simp: view_ok_def\<close>)

lemma session_inv_discard:
  assumes "session_inv s"
  shows "session_inv (discard_session s)"
proof (cases "editable s \<and> \<not> sv_reconciliationRequired (view s)")
  case True
  then have e: "editable s" by simp
  have "session_inv (emit_session (s\<lparr>view := (view s)
             \<lparr>sv_draft := map_option createDraft (sv_record (view s)), sv_error := []\<rparr>\<rparr>))"
    by (rule session_inv_edit [OF assms e])
      (use idle_when_editable [OF assms e] True in \<open>auto simp: view_ok_def\<close>)
  with True show ?thesis by (simp add: discard_session_def)
next
  case False
  with assms show ?thesis unfolding discard_session_def by (simp only: if_False)
qed

lemma session_inv_select:
  assumes "session_inv s"
  shows "session_inv (snd (select_feature i s))"
proof -
  let ?g = "Suc (generation s)"
  let ?t = "send_request (SelectRequest ?g i)
    ((emit_session (s\<lparr>generation := ?g, view := (view s)\<lparr>sv_loading := True, sv_error := [],
       sv_selectionError := []\<rparr>\<rparr>))\<lparr>pendingSelection := Some (i, ?g)\<rparr>)"
  note inv = session_invD [OF assms]
  have "session_inv ?t" if live: "alive s" "\<not> sv_saving (view s)" "\<not> sv_dirty (view s)"
    "\<not> sv_reconciliationRequired (view s)"
  proof (rule session_invI)
    show "requests_ok ?t"
      using inv(1) by (auto simp: requests_ok_def intro: le_SucI)
    show "view_ok (view ?t)"
      using inv(2,4) live by (simp add: view_ok_def in_step_def)
    have "SelectRequest ?g j \<notin> set (inflight s)" for j
      using inv(1) by (auto simp: requests_ok_def)
    then show "pending_ok ?t"
      by (intro pending_okI) (use live pending_okD(1) [OF inv(3)] in auto)
    show "in_step (view ?t)" by (simp add: in_step_def)
  qed
  with assms show ?thesis by (simp add: select_feature_def Let_def)
qed

lemma distinct_map_remove1: "distinct (map f xs) \<Longrightarrow> distinct (map f (remove1 x xs))"
  using set_remove1_subset by (induction xs) (auto, fastforce)

lemma filter_remove1_other: "\<not> P x \<Longrightarrow> filter P (remove1 x xs) = filter P xs"
  by (induction xs) auto

lemma requests_ok_settled_select:
  assumes "requests_ok s"
  shows "requests_ok (clear_selection h (settled (SelectRequest g i) s))"
proof -
  have "distinct (map request_generation (filter is_select (remove1 (SelectRequest g i) (inflight s))))"
    using assms by (simp add: requests_ok_def filter_remove1 distinct_map_remove1)
  with assms show ?thesis
    by (auto simp: requests_ok_def filter_remove1_other dest: notin_set_remove1)
qed

text \<open>A reply of a selection that was overtaken changes nothing that is pending.\<close>

lemma pending_ok_settled_stale:
  assumes p: "pending_ok s" and g: "g \<noteq> generation s"
  shows "pending_ok (clear_selection g (settled (SelectRequest g i) s))" (is "pending_ok ?t")
proof (rule pending_okI)
  have sel: "pendingSelection ?t = pendingSelection s"
    using g pending_okD(3) [OF p] by (cases "pendingSelection s") auto
  have mem: "SelectRequest (generation s) j \<in> set (inflight ?t) \<longleftrightarrow>
      SelectRequest (generation s) j \<in> set (inflight s)" for j
    using g in_set_remove1 [of "SelectRequest (generation s) j" "SelectRequest g i"] by simp
  show "sv_saving (view ?t) = (pendingSave ?t \<noteq> None)" using pending_okD(1) [OF p] by simp
  show "sv_loading (view ?t) = (pendingSelection ?t \<noteq> None)"
    unfolding sel using pending_okD(2) [OF p] by simp
  show "h = generation ?t \<and> SelectRequest h j \<in> set (inflight ?t)" if "pendingSelection ?t = Some (j, h)" for j h
    using pending_okD(3) [OF p, of j h] that mem [of j] unfolding sel by auto
  show "pendingSelection ?t = Some (j, generation ?t)" if "SelectRequest (generation ?t) j \<in> set (inflight ?t)" for j
    using pending_okD(4) [OF p, of j] that mem [of j] unfolding sel by simp
  show "request_generation q = generation ?t \<and> sv_draft (view ?t) \<noteq> None" if "pendingSave ?t = Some q" for q
    using pending_okD(5) [OF p, of q] that by simp
  show "sv_draft (view ?t) = Some d \<and> map_option fe_id (sv_feature (view ?t)) = Some j \<and>
      \<not> sv_reconciliationRequired (view ?t)"
    if "pendingSave ?t = Some (SaveRequest h j d)" for h j d
    using pending_okD(6) [OF p, of h j d] that by simp
qed

lemma session_inv_select_reply:
  assumes "session_inv s" and q: "SelectRequest g i \<in> set (inflight s)"
  shows "session_inv (select_reply g i result s)"
proof (cases "alive s \<and> g = generation s")
  case True
  note inv = session_invD [OF assms(1)]
  have sel: "pendingSelection s = Some (i, g)" "sv_loading (view s)" "\<not> sv_saving (view s)" "pendingSave s = None"
    using inv(2) True q pending_okD(1,2,4) [OF inv(3)] by (auto simp: view_ok_def)
  have one: "SelectRequest g j \<notin> set (remove1 (SelectRequest g i) (inflight s))" for j
  proof
    assume j: "SelectRequest g j \<in> set (remove1 (SelectRequest g i) (inflight s))"
    then have "SelectRequest g j \<in> set (inflight s)" using notin_set_remove1 by fastforce
    with pending_okD(4) [OF inv(3), of j] True sel(1) have "j = i" by simp
    with j have two: "SelectRequest g i \<in> set (remove1 (SelectRequest g i) (filter is_select (inflight s)))"
      by (simp add: filter_remove1 [symmetric])
    have "distinct (filter is_select (inflight s))"
      using inv(1) by (auto simp: requests_ok_def distinct_map)
    with two show False by simp
  qed
  let ?u = "\<lambda>v. clear_selection g (settled (SelectRequest g i) (emit_session (s\<lparr>view := v\<rparr>)))"
  have "session_inv (?u v)" if v: "view_ok v" "\<not> sv_loading v" "\<not> sv_saving v" for v
  proof (rule session_invI)
    have "requests_ok (emit_session (s\<lparr>view := v\<rparr>))"
      by (rule requests_ok_cong [OF _ _ _ inv(1)]) simp_all
    then show "requests_ok (?u v)" by (rule requests_ok_settled_select)
    show "view_ok (view (?u v))" using v by (simp add: view_ok_def)
    show "pending_ok (?u v)"
      by (rule pending_ok_idle) (use v sel one True in simp_all)
    show "in_step (view (?u v))" by simp
  qed
  moreover have "view_ok (committed_view f r)" for f r by (simp add: view_ok_def)
  moreover have "view_ok ((view s)\<lparr>sv_loading := False, sv_error := m, sv_selectionError := m\<rparr>)" for m
    using inv(2) by (simp add: view_ok_def)
  ultimately show ?thesis using True sel(3)
    by (cases result) (auto simp: select_reply_def)
next
  case False
  note inv = session_invD [OF assms(1)]
  let ?t = "clear_selection g (settled (SelectRequest g i) s)"
  have "session_inv ?t"
  proof (rule session_invI)
    show "requests_ok ?t" using inv(1) by (rule requests_ok_settled_select)
    show "view_ok (view ?t)" using inv(2) by simp
    assume "alive ?t"
    then have live: "alive s" by simp
    with False have "g \<noteq> generation s" by simp
    with inv(3) [OF live] show "pending_ok ?t" by (rule pending_ok_settled_stale)
    show "in_step (view ?t)" using inv(4) live by simp
  qed
  moreover have "\<not> alive s \<or> g \<noteq> generation s" using False by simp
  ultimately show ?thesis by (simp only: select_reply_def if_True)
qed

text \<open>The end of a request of a save or a reconciliation.\<close>

lemma write_in_flight:
  assumes "session_inv s" and "q \<in> set (inflight s)" and "\<not> is_select q"
  shows "pendingSave s = Some q" "filter (\<lambda>q. \<not> is_select q) (remove1 q (inflight s)) = []"
    "alive s \<Longrightarrow> request_generation q = generation s \<and> sv_saving (view s) \<and> \<not> sv_loading (view s) \<and>
       pendingSelection s = None \<and> sv_draft (view s) \<noteq> None"
proof -
  note inv = session_invD [OF assms(1)]
  have "q \<in> set (filter (\<lambda>q. \<not> is_select q) (inflight s))" using assms(2,3) by simp
  with inv(1) show p: "pendingSave s = Some q"
    unfolding requests_ok_def by (cases "pendingSave s") auto
  with inv(1) show "filter (\<lambda>q. \<not> is_select q) (remove1 q (inflight s)) = []"
    by (simp add: requests_ok_def filter_remove1)
  show "request_generation q = generation s \<and> sv_saving (view s) \<and> \<not> sv_loading (view s) \<and>
       pendingSelection s = None \<and> sv_draft (view s) \<noteq> None" if "alive s"
    using inv(2) pending_okD(1,2,5) [OF inv(3) [OF that]] p by (auto simp: view_ok_def)
qed

lemma requests_ok_finish:
  assumes "session_inv s" and "q \<in> set (inflight s)" and "\<not> is_select q"
    and "inflight s' = remove1 q (inflight s)" and "pendingSave s' = None" and "generation s' = generation s"
  shows "requests_ok s'"
proof -
  note inv = session_invD(1) [OF assms(1)]
  have "filter is_select (remove1 q (inflight s)) = filter is_select (inflight s)"
    using assms(3) by (simp add: filter_remove1_other)
  with inv write_in_flight(2) [OF assms(1-3)] assms(4-6) show ?thesis
    by (auto simp: requests_ok_def dest: notin_set_remove1)
qed

lemma session_inv_finish:
  assumes "session_inv s" and "q \<in> set (inflight s)" and "\<not> is_select q"
    and "alive s" and "view_ok v" and "\<not> sv_loading v"
  shows "session_inv (finish_save q (s\<lparr>view := v\<rparr>))"
proof -
  note w = write_in_flight [OF assms(1-3)]
  let ?s1 = "settled q (s\<lparr>view := v, pendingSave := None\<rparr>)"
  let ?t = "emit_session (?s1\<lparr>view := v\<lparr>sv_saving := False\<rparr>\<rparr>)"
  have "session_inv ?t"
  proof (rule session_invI)
    show "requests_ok ?t" by (rule requests_ok_finish [OF assms(1-3)]) simp_all
    show "view_ok (view ?t)" using assms(5,6) by (simp add: view_ok_def)
    have "SelectRequest (generation s) i \<notin> set (remove1 q (inflight s))" for i
      using none_selected [OF assms(1,4)] w(3) [OF assms(4)] notin_set_remove1 by fastforce
    then show "pending_ok ?t"
      by (intro pending_ok_idle) (use w(3) [OF assms(4)] assms(6) in simp_all)
    show "in_step (view ?t)" by simp
  qed
  moreover have "finish_save q (s\<lparr>view := v\<rparr>) = ?t"
    using w(3) [OF assms(4)] assms(4) by (simp add: finish_save_def Let_def)
  ultimately show ?thesis by simp
qed

lemma session_inv_finish_dead:
  assumes "session_inv s" and "q \<in> set (inflight s)" and "\<not> is_select q" and "\<not> alive s"
  shows "session_inv (finish_save q s)"
proof (rule session_invI)
  show "requests_ok (finish_save q s)"
    by (rule requests_ok_finish [OF assms(1-3)]) (use assms(4) in \<open>simp_all add: finish_save_def Let_def\<close>)
qed (use assms(4) session_invD(2) [OF assms(1)] in \<open>simp_all add: finish_save_def Let_def\<close>)

lemma session_inv_save_reply:
  assumes "session_inv s" and q: "SaveRequest g i d \<in> set (inflight s)"
  shows "session_inv (save_reply g i d result s)"
proof (cases "alive s")
  case True
  have nw: "\<not> is_select (SaveRequest g i d)" by simp
  note w = write_in_flight [OF assms nw]
  have g: "generation s = g" using w(3) [OF True] by simp
  have dr: "sv_draft (view s) \<noteq> None" "sv_record (view s) \<noteq> None" "sv_feature (view s) \<noteq> None"
    using session_invD(2) [OF assms(1)] pending_okD(6) [OF session_invD(3) [OF assms(1) True] w(1)]
    by (auto simp: view_ok_def)
  show ?thesis
  proof (cases result)
    case (Inl e)
    let ?v = "(view s)\<lparr>sv_record := (case err_record e of None \<Rightarrow> sv_record (view s) | Some r \<Rightarrow> Some r),
                   sv_reconciliationRequired := err_requiresReconciliation e, sv_error := err_message e\<rparr>"
    have "session_inv (finish_save (SaveRequest g i d) (s\<lparr>view := ?v\<rparr>))"
      by (rule session_inv_finish [OF assms nw True])
        (use dr w(3) [OF True] in \<open>auto simp: view_ok_def split: option.splits\<close>)
    with True g Inl show ?thesis by (simp add: save_reply_def)
  next
    case (Inr r)
    let ?v = "(view s)\<lparr>sv_record := Some r, sv_draft := Some (createDraft r), sv_reconciliationRequired := False\<rparr>"
    have "session_inv (finish_save (SaveRequest g i d) (s\<lparr>view := ?v\<rparr>))"
      by (rule session_inv_finish [OF assms nw True])
        (use dr w(3) [OF True] in \<open>auto simp: view_ok_def\<close>)
    with True g Inr show ?thesis by (simp add: save_reply_def)
  qed
next
  case False
  with session_inv_finish_dead [OF assms] show ?thesis by (simp add: save_reply_def)
qed

lemma session_inv_reconcile_reply:
  assumes "session_inv s" and q: "ReconcileRequest g i \<in> set (inflight s)"
  shows "session_inv (reconcile_reply g i result s)"
proof (cases "alive s")
  case True
  have nw: "\<not> is_select (ReconcileRequest g i)" by simp
  note w = write_in_flight [OF assms(1,2) nw]
  have g: "generation s = g" using w(3) [OF True] by simp
  have dr: "sv_draft (view s) \<noteq> None" using w(3) [OF True] by simp
  have fe: "sv_record (view s) \<noteq> None" "sv_feature (view s) \<noteq> None"
    using session_invD(2) [OF assms(1)] dr by (auto simp: view_ok_def)
  have fin: "session_inv (finish_save (ReconcileRequest g i) (s\<lparr>view := v\<rparr>))"
    if "view_ok v" "\<not> sv_loading v" for v
    by (rule session_inv_finish [OF assms(1,2) nw True that])
  have ok: "view_ok ((view s)\<lparr>sv_record := Some r, sv_reconciliationRequired := False, sv_error := m\<rparr>)"
    "view_ok ((view s)\<lparr>sv_error := m\<rparr>)" for r m
    using fe dr w(3) [OF True] by (auto simp: view_ok_def)
  show ?thesis
  proof (cases result)
    case (Inl e)
    from fin [OF ok(2)] w(3) [OF True] show ?thesis
      using True g Inl by (simp add: reconcile_reply_def)
  next
    case (Inr r)
    from fin [OF ok(1)] w(3) [OF True] show ?thesis
      using True g Inr by (simp add: reconcile_reply_def)
  qed
next
  case False
  with session_inv_finish_dead [OF assms(1,2)] show ?thesis by (simp add: reconcile_reply_def)
qed

lemma session_inv_save:
  assumes "session_inv s"
  shows "session_inv (snd (save_session s))"
proof (cases "pendingSave s = None \<and> editable s \<and> \<not> sv_reconciliationRequired (view s) \<and>
    sv_dirty (view s) \<and> sv_validationError (view s) = []")
  case True
  then have e: "editable s" by simp
  note idle = idle_when_editable [OF assms e] and inv = session_invD [OF assms]
  from idle obtain f d where fd: "sv_feature (view s) = Some f" "sv_draft (view s) = Some d" by auto
  let ?q = "SaveRequest (generation s) (fe_id f) d"
  let ?t = "send_request ?q ((emit_session (s\<lparr>view := (view s)
              \<lparr>sv_saving := True, sv_error := [], sv_selectionError := []\<rparr>\<rparr>))\<lparr>pendingSave := Some ?q\<rparr>)"
  have "session_inv ?t"
  proof (rule session_invI)
    show "requests_ok ?t" using inv(1) idle by (auto simp: requests_ok_def)
    show "view_ok (view ?t)" using inv(2) idle by (auto simp: view_ok_def)
    show "pending_ok ?t"
      by (rule pending_okI) (use idle fd none_selected [OF assms] True in auto)
    show "in_step (view ?t)" by (simp add: in_step_def)
  qed
  with True fd show ?thesis by (simp add: save_session_def Let_def)
next
  case False
  with assms show ?thesis by (auto simp: save_session_def Let_def)
qed

lemma session_inv_reconcile:
  assumes "session_inv s"
  shows "session_inv (snd (reconcile_session s))"
proof (cases "pendingSave s = None \<and> editable s \<and> sv_reconciliationRequired (view s)")
  case True
  then have e: "editable s" by simp
  note idle = idle_when_editable [OF assms e] and inv = session_invD [OF assms]
  from idle obtain f where f: "sv_feature (view s) = Some f" by auto
  let ?q = "ReconcileRequest (generation s) (fe_id f)"
  let ?t = "send_request ?q ((emit_session (s\<lparr>view := (view s)
              \<lparr>sv_saving := True, sv_error := []\<rparr>\<rparr>))\<lparr>pendingSave := Some ?q\<rparr>)"
  have "session_inv ?t"
  proof (rule session_invI)
    show "requests_ok ?t" using inv(1) idle by (auto simp: requests_ok_def)
    show "view_ok (view ?t)" using inv(2) idle by (auto simp: view_ok_def)
    show "pending_ok ?t"
      by (rule pending_okI) (use idle none_selected [OF assms] in auto)
    show "in_step (view ?t)" by (simp add: in_step_def)
  qed
  with True f show ?thesis by (simp add: reconcile_session_def Let_def)
next
  case False
  with assms show ?thesis by (auto simp: reconcile_session_def Let_def)
qed

lemma session_inv_reset:
  assumes "session_inv s" and "alive s" and "pendingSave s = None" and "pendingSelection s = None"
  shows "session_inv (reset_session s)"
proof (rule session_invI)
  let ?t = "reset_session s"
  note inv = session_invD(1) [OF assms(1)]
  show "requests_ok ?t"
    by (rule requests_ok_cong [OF _ _ _ inv]) (simp_all add: reset_session_def)
  show "view_ok (view ?t)" by (simp add: reset_session_def view_ok_def)
  have "SelectRequest (Suc (generation s)) i \<notin> set (inflight s)" for i
    using inv by (auto simp: requests_ok_def)
  then show "pending_ok ?t"
    by (intro pending_ok_idle) (use assms(3,4) in \<open>simp_all add: reset_session_def\<close>)
  show "in_step (view ?t)" by (simp add: reset_session_def)
qed

lemma session_inv_abandon:
  assumes "session_inv s"
  shows "session_inv (snd (abandonUncertainDraft s))"
proof (cases "alive s \<and> \<not> sv_saving (view s) \<and> sv_reconciliationRequired (view s)")
  case True
  have "pendingSave s = None" "pendingSelection s = None"
    using True session_invD(2) [OF assms] pending_okD(1,2) [OF session_invD(3) [OF assms]]
    by (auto simp: view_ok_def)
  with session_inv_reset [OF assms] True show ?thesis by (simp add: abandonUncertainDraft_def)
qed (use assms in \<open>auto simp: abandonUncertainDraft_def\<close>)

lemma session_inv_clear:
  assumes "session_inv s"
  shows "session_inv (snd (clear_session s))"
proof (cases "alive s \<and> \<not> sv_saving (view s) \<and> \<not> sv_dirty (view s) \<and> \<not> sv_reconciliationRequired (view s)")
  case True
  let ?t = "reset_session (s\<lparr>pendingSelection := None\<rparr>)"
  note inv = session_invD(1) [OF assms]
  have p: "pendingSave s = None" using True pending_okD(1) [OF session_invD(3) [OF assms]] by auto
  have "session_inv ?t"
  proof (rule session_invI)
    show "requests_ok ?t"
      by (rule requests_ok_cong [OF _ _ _ inv]) (simp_all add: reset_session_def)
    show "view_ok (view ?t)" by (simp add: reset_session_def view_ok_def)
    have "SelectRequest (Suc (generation s)) i \<notin> set (inflight s)" for i
      using inv by (auto simp: requests_ok_def)
    then show "pending_ok ?t"
      by (intro pending_ok_idle) (use p in \<open>simp_all add: reset_session_def\<close>)
    show "in_step (view ?t)" by (simp add: reset_session_def)
  qed
  with True show ?thesis by (simp add: clear_session_def)
qed (use assms in \<open>auto simp: clear_session_def\<close>)

lemma session_inv_destroy: "session_inv s \<Longrightarrow> session_inv (destroy_session s)"
  by (auto simp: session_inv_def destroy_session_def requests_ok_def intro: le_SucI)

lemma session_inv_step:
  assumes "session_inv s" and "enabled e s"
  shows "session_inv (session_step e s)"
proof (cases e)
  case (SelectReply g i r)
  with assms session_inv_select_reply [OF assms(1)] show ?thesis by (simp add: enabled_def)
next
  case (SaveReply g i d r)
  with assms session_inv_save_reply [OF assms(1)] show ?thesis by (simp add: enabled_def)
next
  case (ReconcileReply g i r)
  with assms session_inv_reconcile_reply [OF assms(1)] show ?thesis by (simp add: enabled_def)
next
  case (SetAssigned i b)
  with assms session_inv_update [OF assms(1)] show ?thesis by (simp add: setAssigned_def)
next
  case (AddComment u w)
  with assms session_inv_update [OF assms(1)] show ?thesis by (simp add: addComment_def)
next
  case (EditComment i t)
  with assms session_inv_update [OF assms(1)] show ?thesis by (simp add: editComment_def)
next
  case (RemoveComment i)
  with assms session_inv_update [OF assms(1)] show ?thesis by (simp add: removeComment_def)
qed (use assms in \<open>simp_all add: session_inv_select session_inv_save session_inv_reconcile session_inv_abandon
       session_inv_clear session_inv_destroy session_inv_discard\<close>)

lemma session_inv_initial: "session_inv initial_session"
  by (simp add: session_inv_def requests_ok_def view_ok_def pending_ok_def in_step_def isDirty_def
      initial_session_def empty_view_def assignmentDraftError_def inactiveCommentWorkStreamIds_def)

lemma session_reachable_inv: "session_reachable s \<Longrightarrow> session_inv s"
  by (induction rule: session_reachable.induct) (simp_all add: session_inv_initial session_inv_step)

section \<open>What a step may do\<close>

lemma reply_effect:
  assumes "event_request e = Some q"
  shows "inflight (session_step e s) = remove1 q (inflight s)" "sent (session_step e s) = sent s"
    "alive (session_step e s) = alive s"
  using assms
  by (cases e; auto simp: select_reply_def save_reply_def reconcile_reply_def finish_save_def Let_def
      split: sum.splits)+

lemma update_draft_fields [simp]:
  "sent (update_draft f s) = sent s" "inflight (update_draft f s) = inflight s"
  "sv_reconciliationRequired (view (update_draft f s)) = sv_reconciliationRequired (view s)"
  by (simp_all add: update_draft_def)

fun is_edit :: "session_event \<Rightarrow> bool" where
  "is_edit (SetAssigned i b) = True"
| "is_edit (AddComment u w) = True"
| "is_edit (EditComment i t) = True"
| "is_edit (RemoveComment i) = True"
| "is_edit _ = False"

lemma edit_needs_editable:
  assumes "is_edit e" and "sv_draft (view (session_step e s)) \<noteq> sv_draft (view s)"
  shows "editable s"
  by (rule ccontr, use assms in \<open>cases e\<close>) (simp_all add: setAssigned_def addComment_def editComment_def removeComment_def)

lemma edit_sends_nothing:
  "is_edit e \<Longrightarrow> sent (session_step e s) = sent s \<and>
     sv_reconciliationRequired (view (session_step e s)) = sv_reconciliationRequired (view s)"
  by (cases e) (simp_all add: setAssigned_def addComment_def editComment_def removeComment_def)

lemma no_select_reply_when_dirty:
  assumes "session_inv s" and "alive s" and "sv_dirty (view s)" and "SelectRequest g i \<in> set (inflight s)"
  shows "g \<noteq> generation s"
proof
  assume "g = generation s"
  with assms(4) pending_okD(2,4) [OF session_invD(3) [OF assms(1,2)]] have "sv_loading (view s)" by auto
  with session_invD(2) [OF assms(1)] session_invD(4) [OF assms(1,2)] assms(3) show False
    by (simp add: view_ok_def in_step_def)
qed

section \<open>Properties\<close>

text \<open>
  C31. In every reachable state of a session at most one save or reconciliation is in flight. While the session
  lives, \<open>saving\<close> is set exactly while one is, \<open>loading\<close> exactly while the newest selection is, never both;
  a selection loads only over a draft without changes, the draft a save was given is the one shown, for
  the feature shown, and \<open>dirty\<close> and \<open>validationError\<close> are those of the draft.
\<close>

theorem session_flags_exact:
  assumes "session_reachable s"
  shows "length (filter (\<lambda>q. \<not> is_select q) (inflight s)) \<le> 1 \<and>
    (alive s \<longrightarrow>
      sv_saving (view s) = (\<exists>q \<in> set (inflight s). \<not> is_select q) \<and>
      sv_loading (view s) = (\<exists>i. SelectRequest (generation s) i \<in> set (inflight s)) \<and>
      \<not> (sv_saving (view s) \<and> sv_loading (view s)) \<and>
      \<not> (sv_loading (view s) \<and> sv_dirty (view s)) \<and>
      (\<forall>g i d. SaveRequest g i d \<in> set (inflight s) \<longrightarrow>
         sv_draft (view s) = Some d \<and> map_option fe_id (sv_feature (view s)) = Some i) \<and>
      sv_dirty (view s) = isDirty (sv_record (view s)) (sv_draft (view s)) \<and>
      sv_validationError (view s) = assignmentDraftError (sv_draft (view s)))" (is "_ \<and> (_ \<longrightarrow> ?live)")
proof -
  note inv = session_reachable_inv [OF assms]
  note I = session_invD [OF inv]
  have one: "length (filter (\<lambda>q. \<not> is_select q) (inflight s)) \<le> 1"
    using I(1) by (auto simp: requests_ok_def split: option.splits)
  have alive: "alive s \<longrightarrow> ?live"
  proof (intro impI conjI)
  assume live: "alive s"
  note p = pending_okD [OF I(3) [OF live]]
  have save: "sv_saving (view s) = (\<exists>q \<in> set (inflight s). \<not> is_select q)"
  proof -
    have "(\<exists>q \<in> set (inflight s). \<not> is_select q) \<longleftrightarrow> filter (\<lambda>q. \<not> is_select q) (inflight s) \<noteq> []"
      by (simp add: filter_empty_conv)
    with I(1) p(1) show ?thesis by (simp add: requests_ok_def split: option.split)
  qed
  have load: "sv_loading (view s) = (\<exists>i. SelectRequest (generation s) i \<in> set (inflight s))"
  proof
    assume "sv_loading (view s)"
    then obtain i g where "pendingSelection s = Some (i, g)" using p(2) by auto
    with p(3) [of i g] show "\<exists>i. SelectRequest (generation s) i \<in> set (inflight s)" by auto
  next
    assume "\<exists>i. SelectRequest (generation s) i \<in> set (inflight s)"
    then obtain i where "SelectRequest (generation s) i \<in> set (inflight s)" by blast
    with p(2) p(4) [of i] show "sv_loading (view s)" by simp
  qed
  have draft: "sv_draft (view s) = Some d \<and> map_option fe_id (sv_feature (view s)) = Some i"
    if "SaveRequest g i d \<in> set (inflight s)" for g i d
    using p(6) write_in_flight(1) [OF inv that] by simp
  show "sv_saving (view s) = (\<exists>q \<in> set (inflight s). \<not> is_select q)" by (rule save)
  show "sv_loading (view s) = (\<exists>i. SelectRequest (generation s) i \<in> set (inflight s))" by (rule load)
  show "\<not> (sv_saving (view s) \<and> sv_loading (view s))" "\<not> (sv_loading (view s) \<and> sv_dirty (view s))"
    "sv_dirty (view s) = isDirty (sv_record (view s)) (sv_draft (view s))"
    "sv_validationError (view s) = assignmentDraftError (sv_draft (view s))"
    using I(2) I(4) [OF live] by (auto simp: view_ok_def in_step_def)
  show "\<forall>g i d. SaveRequest g i d \<in> set (inflight s) \<longrightarrow>
      sv_draft (view s) = Some d \<and> map_option fe_id (sv_feature (view s)) = Some i"
    using draft by blast
qed
  from one alive show ?thesis by (rule conjI)
qed

text \<open>
  C32. Unsaved work is not lost: in a living session whose draft has changes, an event that changes the draft is
  an edit or a discard by the user while the draft is editable, the abandonment of a draft whose save has an
  uncertain outcome, or the successful reply to a save of exactly that draft. In particular no selection,
  no late or failed reply and no reconciliation replaces it.
\<close>

theorem unsaved_changes_kept:
  assumes "session_reachable s" and "enabled e s" and "alive s" and "sv_dirty (view s)"
    and "sv_draft (view (session_step e s)) \<noteq> sv_draft (view s)"
  shows "is_edit e \<and> editable s \<or>
    e = Discard \<and> editable s \<and> \<not> sv_reconciliationRequired (view s) \<or>
    e = Abandon \<and> \<not> sv_saving (view s) \<and> sv_reconciliationRequired (view s) \<or>
    (\<exists>g i d r. e = SaveReply g i d (Inr r) \<and> sv_draft (view s) = Some d \<and>
       sv_draft (view (session_step e s)) = Some (createDraft r) \<and>
       sv_record (view (session_step e s)) = Some r)"
proof -
  note inv = session_reachable_inv [OF assms(1)]
  show ?thesis
  proof (cases e)
    case (SelectReply g i r)
    with assms(2) have "g \<noteq> generation s"
      by (intro no_select_reply_when_dirty [OF inv assms(3,4)]) (simp add: enabled_def)
    with assms(5) SelectReply show ?thesis by (simp add: select_reply_def)
  next
    case (SaveReply g i d r)
    with assms(2) have q: "SaveRequest g i d \<in> set (inflight s)" by (simp add: enabled_def)
    have w: "pendingSave s = Some (SaveRequest g i d)" "generation s = g"
      using write_in_flight(1,3) [OF inv q] assms(3) by simp_all
    have d: "sv_draft (view s) = Some d"
      using pending_okD(6) [OF session_invD(3) [OF inv assms(3)] w(1)] by simp
    from assms(3,5) SaveReply w(2) d show ?thesis
      by (cases r) (simp_all add: save_reply_def finish_save_def Let_def)
  next
    case (ReconcileReply g i r)
    with assms(5) show ?thesis
      by (simp add: reconcile_reply_def finish_save_def Let_def split: if_splits sum.splits)
  next
    case Save
    with assms(5) show ?thesis
      by (simp add: save_session_def Let_def split: if_splits option.splits)
  next
    case Reconcile
    with assms(5) show ?thesis
      by (simp add: reconcile_session_def Let_def split: if_splits option.splits)
  next
    case Abandon
    with assms(3,5) show ?thesis by (simp add: abandonUncertainDraft_def split: if_splits)
  next
    case Discard
    with assms(5) show ?thesis by (simp add: discard_session_def split: if_splits)
  next
    case (SetAssigned i b)
    with edit_needs_editable [OF _ assms(5)] show ?thesis by simp
  next
    case (AddComment u w)
    with edit_needs_editable [OF _ assms(5)] show ?thesis by simp
  next
    case (EditComment i t)
    with edit_needs_editable [OF _ assms(5)] show ?thesis by simp
  next
    case (RemoveComment i)
    with edit_needs_editable [OF _ assms(5)] show ?thesis by simp
  qed (use assms(4,5) in \<open>simp_all add: select_feature_def clear_session_def destroy_session_def\<close>)
qed

text \<open>
  C33. After a save whose outcome is uncertain nothing more is written: while a reconciliation is required no event
  sends a save request, and the requirement is lifted only by a successful reconciliation or by abandoning the draft.
\<close>

theorem uncertain_outcome_blocks_writes:
  assumes "session_reachable s" and "enabled e s" and "alive s" and "sv_reconciliationRequired (view s)"
  shows "filter is_write (sent (session_step e s)) = filter is_write (sent s) \<and>
    (sv_reconciliationRequired (view (session_step e s)) \<or> (e = Abandon \<and> \<not> sv_saving (view s)) \<or>
      (\<exists>g i r. e = ReconcileReply g i (Inr r) \<and> sv_record (view (session_step e s)) = Some r \<and>
         sv_draft (view (session_step e s)) = sv_draft (view s)))"
proof -
  note inv = session_reachable_inv [OF assms(1)]
  show ?thesis
  proof (cases e)
    case (SelectReply g i r)
    have "g \<noteq> generation s"
    proof
      assume "g = generation s"
      with assms(2) SelectReply pending_okD(2,4) [OF session_invD(3) [OF inv assms(3)]] have "sv_loading (view s)"
        by (auto simp: enabled_def)
      with session_invD(2) [OF inv] assms(4) show False by (simp add: view_ok_def)
    qed
    with assms(4) SelectReply show ?thesis by (simp add: select_reply_def)
  next
    case (SaveReply g i d r)
    with assms(2) have q: "SaveRequest g i d \<in> set (inflight s)" by (simp add: enabled_def)
    have "pendingSave s = Some (SaveRequest g i d)"
      using write_in_flight(1) [OF inv q] by simp
    with pending_okD(6) [OF session_invD(3) [OF inv assms(3)]] assms(4) show ?thesis by simp
  next
    case (ReconcileReply g i r)
    with assms(2) have q: "ReconcileRequest g i \<in> set (inflight s)" by (simp add: enabled_def)
    have "generation s = g" using write_in_flight(3) [OF inv q _ assms(3)] by simp
    with assms(3,4) ReconcileReply show ?thesis
      by (cases r) (simp_all add: reconcile_reply_def finish_save_def Let_def)
  next
    case Reconcile
    with assms(4) show ?thesis by (simp add: reconcile_session_def Let_def split: option.split)
  next
    case (SetAssigned i b)
    with assms(4) edit_sends_nothing [of e s] show ?thesis by simp
  next
    case (AddComment u w)
    with assms(4) edit_sends_nothing [of e s] show ?thesis by simp
  next
    case (EditComment i t)
    with assms(4) edit_sends_nothing [of e s] show ?thesis by simp
  next
    case (RemoveComment i)
    with assms(4) edit_sends_nothing [of e s] show ?thesis by simp
  next
    case Abandon
    with assms(3,4) show ?thesis by (simp add: abandonUncertainDraft_def reset_session_def)
  qed (use assms(4) in \<open>simp_all add: select_feature_def clear_session_def destroy_session_def
         save_session_def Let_def discard_session_def\<close>)
qed

lemma replies_enabled:
  assumes "session_reachable s" and "mset (map event_request es) = mset (map Some (inflight s))"
  shows "session_reachable (fold session_step es s) \<and> inflight (fold session_step es s) = [] \<and>
    sent (fold session_step es s) = sent s \<and> alive (fold session_step es s) = alive s"
  using assms
proof (induction es arbitrary: s)
  case Nil
  then show ?case by simp
next
  case (Cons e es)
  from Cons.prems(2) have "event_request e \<in># mset (map Some (inflight s))"
    by (metis list.simps(9) mset.simps(2) union_single_eq_member)
  then obtain q where q: "event_request e = Some q" "q \<in> set (inflight s)" by auto
  note r = reply_effect [OF q(1), of s]
  have "session_reachable (session_step e s)"
    using Cons.prems(1) q by (intro session_reachable.step) (simp_all add: enabled_def)
  moreover have "mset (map event_request es) = mset (map Some (inflight (session_step e s)))"
  proof -
    have "mset (map Some (inflight s)) = image_mset Some (mset (remove1 q (inflight s))) + {#Some q#}"
      using q(2) by (metis add_mset_add_single image_mset_add_mset insert_DiffM mset_map mset_remove1 set_mset_mset)
    with Cons.prems(2) q(1) r(1) show ?thesis by simp
  qed
  ultimately show ?case using Cons.IH r by simp
qed

text \<open>
  C34. A session settles: when the requests in flight are answered, in whatever order and with whatever results,
  nothing is in flight, no further request was sent, and a session that lived still lives, is neither loading nor saving, and
  can be edited when it shows a draft.
\<close>

theorem session_settles:
  assumes "session_reachable s" and "mset (map event_request es) = mset (map Some (inflight s))"
  shows "let t = fold session_step es s in
    session_reachable t \<and> inflight t = [] \<and> sent t = sent s \<and> alive t = alive s \<and>
    (alive t \<longrightarrow> \<not> sv_loading (view t) \<and> \<not> sv_saving (view t) \<and> editable t = (sv_draft (view t) \<noteq> None))"
proof -
  let ?t = "fold session_step es s"
  note r = replies_enabled [OF assms]
  have "\<not> sv_loading (view ?t) \<and> \<not> sv_saving (view ?t)" if live: "alive ?t"
  proof -
    note inv = session_reachable_inv [of ?t]
    note p = pending_okD [OF session_invD(3) [OF inv live]] and q = session_invD(1) [OF inv]
    from r have "session_reachable ?t" "inflight ?t = []" by simp_all
    with p(1-3) q show ?thesis
      by (cases "pendingSelection ?t") (auto simp: requests_ok_def split: option.splits)
  qed
  with r show ?thesis by (auto simp: Let_def editable_def)
qed

section \<open>Witnesses\<close>

fun runs :: "session_event list \<Rightarrow> session \<Rightarrow> bool" where
  "runs [] s = True"
| "runs (e # es) s = (enabled e s \<and> runs es (session_step e s))"

lemma reachable_run: "session_reachable s \<Longrightarrow> runs es s \<Longrightarrow> session_reachable (fold session_step es s)"
  by (induction es arbitrary: s) (auto intro: session_reachable.step)

definition sample_feature :: feature where
  "sample_feature = \<lparr>fe_id = ''f'', fe_rest = Undef\<rparr>"

definition edited_draft :: assignment_draft where
  "edited_draft = \<lparr>activeIds = [''DK2'', ''DK1''], draft_comments = []\<rparr>"

definition saving_trace :: "session_event list" where
  "saving_trace =
     [Select ''f'', SelectReply 1 ''f'' (Inr (sample_feature, sample_record)), SetAssigned ''DK1'' True, Save]"

definition uncertain_trace :: "session_event list" where
  "uncertain_trace = saving_trace @ [SaveReply 1 ''f'' edited_draft
     (Inl \<lparr>err_message = ''timeout'', err_record = None, err_requiresReconciliation = True\<rparr>)]"

lemma runs_saving: "runs saving_trace initial_session" by code_simp

lemma runs_uncertain: "runs uncertain_trace initial_session" by code_simp

lemmas saving_reachable = reachable_run [OF session_reachable.initial runs_saving]
lemmas uncertain_reachable = reachable_run [OF session_reachable.initial runs_uncertain]

theorem session_flags_exact_witness:
  "sv_saving (view (fold session_step saving_trace initial_session)) \<and>
   sv_dirty (view (fold session_step saving_trace initial_session)) \<and>
   length (filter (\<lambda>q. \<not> is_select q) (inflight (fold session_step saving_trace initial_session))) \<le> 1"
proof -
  have "alive (fold session_step saving_trace initial_session)"
    "\<exists>q \<in> set (inflight (fold session_step saving_trace initial_session)). \<not> is_select q"
    "isDirty (sv_record (view (fold session_step saving_trace initial_session)))
       (sv_draft (view (fold session_step saving_trace initial_session)))"
    by code_simp+
  with session_flags_exact [OF saving_reachable] show ?thesis by blast
qed

theorem unsaved_changes_kept_witness:
  "editable (fold session_step uncertain_trace initial_session)"
proof -
  have "enabled (SetAssigned ''DK1'' False) (fold session_step uncertain_trace initial_session)"
    "alive (fold session_step uncertain_trace initial_session)"
    "sv_dirty (view (fold session_step uncertain_trace initial_session))"
    "sv_draft (view (session_step (SetAssigned ''DK1'' False) (fold session_step uncertain_trace initial_session))) \<noteq>
     sv_draft (view (fold session_step uncertain_trace initial_session))"
    by code_simp+
  from unsaved_changes_kept [OF uncertain_reachable this] show ?thesis by simp
qed

theorem uncertain_outcome_blocks_writes_witness:
  "sv_reconciliationRequired (view (session_step Save (fold session_step uncertain_trace initial_session)))"
proof -
  have "enabled Save (fold session_step uncertain_trace initial_session)"
    "alive (fold session_step uncertain_trace initial_session)"
    "sv_reconciliationRequired (view (fold session_step uncertain_trace initial_session))"
    by code_simp+
  from uncertain_outcome_blocks_writes [OF uncertain_reachable this] show ?thesis by simp
qed

theorem session_settles_witness:
  "editable (fold session_step
     [SaveReply 1 ''f'' edited_draft (Inl \<lparr>err_message = ''no'', err_record = None, err_requiresReconciliation = False\<rparr>)]
     (fold session_step saving_trace initial_session))"
proof -
  have "inflight (fold session_step saving_trace initial_session) = [SaveRequest 1 ''f'' edited_draft]" by code_simp
  then have "mset (map event_request [SaveReply 1 ''f'' edited_draft
      (Inl \<lparr>err_message = ''no'', err_record = None, err_requiresReconciliation = False\<rparr>)]) =
    mset (map Some (inflight (fold session_step saving_trace initial_session)))" by simp
  note t = session_settles [OF saving_reachable this, unfolded Let_def]
  have "alive (fold session_step saving_trace initial_session)"
    "sv_draft (view (fold session_step [SaveReply 1 ''f'' edited_draft
      (Inl \<lparr>err_message = ''no'', err_record = None, err_requiresReconciliation = False\<rparr>)]
      (fold session_step saving_trace initial_session))) \<noteq> None"
    by code_simp+
  with t show ?thesis by blast
qed

end
