(* ===== verification/AssignmentServices.thy ===== *)
theory AssignmentServices
  imports AssignmentSession
begin

text \<open>
  \<open>DataCatalogue/src/features/assignments/services/liveAssignmentServices.js\<close> and
  \<open>withBindingRequestDeadline.js\<close>: saving the work streams of a feature as single bindings of the
  catalogue service. The service is a parameter: \<open>reads\<close> and \<open>writes\<close> give its reply to the last request of
  the list of all requests sent so far, so it may answer the same request differently each time. A save is
  the function \<open>saveBindings\<close>, whose second result is the list of the requests it sent.
\<close>

section \<open>Replies\<close>

record bind_error =
  be_message :: string
  be_timeout :: bool
  be_name :: js
  be_kind :: js
  be_status :: js

record binding =
  bd_id :: string
  bd_pipelineId :: string
  bd_workspaces :: js

definition BindingRequestTimeoutError :: "string \<Rightarrow> nat \<Rightarrow> bind_error" where
  "BindingRequestTimeoutError stage ms =
     \<lparr>be_message = stage @ '' timed out after '' @ nat_text ((ms + 999) div 1000) @ '' seconds.'', be_timeout = True,
      be_name = Str ''BindingRequestTimeoutError'', be_kind = Undef, be_status = Undef\<rparr>"

text \<open>What can end the wait for a request, in the order it happens.\<close>

datatype 'a deadline_event = Settles "bind_error + 'a" | DeadlineReached | AbortedBy bind_error

fun finish_request :: "string \<Rightarrow> nat \<Rightarrow> 'a deadline_event \<Rightarrow> bind_error + 'a" where
  "finish_request stage ms (Settles r) = r"
| "finish_request stage ms DeadlineReached = Inl (BindingRequestTimeoutError stage ms)"
| "finish_request stage ms (AbortedBy e) = Inl e"

fun race_request ::
    "string \<Rightarrow> nat \<Rightarrow> (bind_error + 'a) option \<Rightarrow> 'a deadline_event list \<Rightarrow> (bind_error + 'a) option" where
  "race_request stage ms finished [] = finished"
| "race_request stage ms finished (e # es) =
     race_request stage ms
       (case finished of None \<Rightarrow> Some (finish_request stage ms e) | Some r \<Rightarrow> Some r) es"

definition withBindingRequestDeadline ::
    "string \<Rightarrow> int \<Rightarrow> 'a deadline_event list \<Rightarrow> string + (bind_error + 'a) option" where
  "withBindingRequestDeadline stage ms es =
     (if ms < 1 \<or> 9007199254740991 < ms
      then Inl ''Binding request deadline must be a positive integer in milliseconds.''
      else Inr (race_request stage (nat ms) None es))"

lemma race_request_first: "race_request stage ms None (e # es) = Some (finish_request stage ms e)"
proof -
  have "race_request stage ms (Some r) es = Some r" for r :: "bind_error + 'a"
    by (induction es) simp_all
  then show ?thesis by simp
qed

fun is_integer_from :: "int \<Rightarrow> js \<Rightarrow> bool" where
  "is_integer_from n (JNum (JInt i)) = (n \<le> i)"
| "is_integer_from n _ = False"

definition hasUncertainOutcome :: "bind_error \<Rightarrow> bool" where
  "hasUncertainOutcome e =
     (be_timeout e \<or> be_name e = Str ''AbortError'' \<or> be_kind e = Str ''network'' \<or> is_integer_from 500 (be_status e))"

definition bindingRecord :: "binding list \<Rightarrow> assignment_record" where
  "bindingRecord bs =
     \<lparr>relations = jm_of (map (\<lambda>b. (bd_pipelineId b,
        \<lparr>rel_active = True, rel_comments = [],
         rel_rest = Obj [(''bindingId'', Str (bd_id b)), (''workspaces'', bd_workspaces b)]\<rparr>)) bs),
      rec_rest = Undef\<rparr>"

section \<open>Changes\<close>

datatype bind_request = ReadBindings string | Bind string string | Unbind string

fun is_bind_write :: "bind_request \<Rightarrow> bool" where
  "is_bind_write (ReadBindings i) = False"
| "is_bind_write _ = True"

record change =
  ch_pipelineId :: string
  ch_action :: string
  ch_request :: bind_request

record outcome =
  oc_pipelineId :: string
  oc_action :: string
  oc_ok :: bool
  oc_message :: string

definition binding_changes :: "string \<Rightarrow> string list \<Rightarrow> binding list \<Rightarrow> change list" where
  "binding_changes i desired existing =
     map (\<lambda>p. \<lparr>ch_pipelineId = p, ch_action = ''Add'', ch_request = Bind i p\<rparr>)
       (filter (\<lambda>p. p \<notin> set (map bd_pipelineId existing)) desired) @
     map (\<lambda>b. \<lparr>ch_pipelineId = bd_pipelineId b, ch_action = ''Remove'', ch_request = Unbind (bd_id b)\<rparr>)
       (filter (\<lambda>b. bd_pipelineId b \<notin> set desired) existing)"

text \<open>
  The loop over the changes: the first result is the change with an uncertain outcome that ended it, then the
  outcomes, the requests sent and the number of successful writes.
\<close>

fun run_changes ::
    "(bind_request list \<Rightarrow> bind_error option) \<Rightarrow> change list \<Rightarrow> outcome list \<Rightarrow> bind_request list \<Rightarrow> nat \<Rightarrow>
       (change \<times> bind_error) option \<times> outcome list \<times> bind_request list \<times> nat" where
  "run_changes writes [] oc log n = (None, oc, log, n)"
| "run_changes writes (c # cs) oc log n =
     (let log' = log @ [ch_request c] in
      case writes log' of
        None \<Rightarrow> run_changes writes cs
          (oc @ [\<lparr>oc_pipelineId = ch_pipelineId c, oc_action = ch_action c, oc_ok = True, oc_message = []\<rparr>]) log' (Suc n)
      | Some e \<Rightarrow>
          (let oc' = oc @ [\<lparr>oc_pipelineId = ch_pipelineId c, oc_action = ch_action c, oc_ok = False,
                            oc_message = be_message e\<rparr>]
           in if hasUncertainOutcome e then (Some (c, e), oc', log', n)
              else run_changes writes cs oc' log' n))"

definition outcome_summary :: "outcome list \<Rightarrow> string" where
  "outcome_summary oc =
     join ''; '' (map (\<lambda>o'. oc_action o' @ '' '' @ oc_pipelineId o' @ '': '' @
       (if oc_ok o' then ''succeeded'' else ''failed ('' @ oc_message o' @ '')'')) oc)"

definition plain_error :: "string \<Rightarrow> service_error \<times> outcome list" where
  "plain_error m = (\<lparr>err_message = m, err_record = None, err_requiresReconciliation = False\<rparr>, [])"

definition BindingSaveError ::
    "string \<Rightarrow> assignment_record option \<Rightarrow> outcome list \<Rightarrow> bool \<Rightarrow> service_error \<times> outcome list" where
  "BindingSaveError m r oc u = (\<lparr>err_message = m, err_record = r, err_requiresReconciliation = u\<rparr>, oc)"

definition saveBindings ::
    "(bind_request list \<Rightarrow> bind_error + binding list) \<Rightarrow> (bind_request list \<Rightarrow> bind_error option) \<Rightarrow>
       string \<Rightarrow> string list \<Rightarrow> draft_comment list \<Rightarrow>
       ((service_error \<times> outcome list) + assignment_record) \<times> bind_request list" where
  "saveBindings reads writes i desired comments =
     (if comments \<noteq> [] then (Inl (plain_error ''Comments are available only in demo mode.''), [])
      else case reads [ReadBindings i] of
        Inl e \<Rightarrow> (Inl (plain_error (be_message e)), [ReadBindings i])
      | Inr existing \<Rightarrow>
          (case run_changes writes (binding_changes i desired existing) [] [ReadBindings i] 0 of
             (Some (c, e), oc, log, n) \<Rightarrow>
               (Inl (BindingSaveError
                  (ch_action c @ '' '' @ ch_pipelineId c @ '': '' @ be_message e @
                   '' The server outcome is unknown. Check saved bindings before another Save. No remaining changes were sent.'')
                  None oc True), log)
           | (None, oc, log, n) \<Rightarrow>
               (let summary = outcome_summary oc; log' = log @ [ReadBindings i] in
                case reads log' of
                  Inl e \<Rightarrow>
                    (Inl (BindingSaveError
                       ((if summary = [] then [] else summary @ ''. '') @ ''Authoritative reload failed: '' @
                        be_message e @ '' '' @
                        (if n \<noteq> 0 then ''Check saved bindings before another Save.''
                         else ''Retry Save to read the current bindings.''))
                       None oc (0 < n)), log')
                | Inr bs \<Rightarrow>
                    (let record = bindingRecord bs;
                         ok = (ids_text (sort (jm_keys (relations record))) = ids_text (sort desired))
                     in if list_ex (\<lambda>o'. \<not> oc_ok o') oc \<or> \<not> ok
                        then (Inl (BindingSaveError
                          (summary @ ''. Bindings reloaded.'' @
                           (if ok then '' Requested bindings are now present.''
                            else '' Requested changes remain in the draft; review and retry.''))
                          (Some record) oc False), log')
                        else (Inr (record\<lparr>rec_rest := Obj [(''saveMessage'',
                          Str (if summary = [] then ''Bindings reloaded; no changes required.'' else summary))]\<rparr>), log')))))"

text \<open>\<open>save\<close> of the services: at most one save of a feature runs, a second call joins it.\<close>

definition start_save ::
    "string \<Rightarrow> assignment_draft \<Rightarrow> string list \<Rightarrow> (string \<times> string list \<times> draft_comment list) option \<times> string list" where
  "start_save i d pending =
     (if i \<in> set pending then (None, pending)
      else (Some (i, set_of_list (activeIds d), draft_comments d), pending @ [i]))"

definition end_save :: "string \<Rightarrow> string list \<Rightarrow> string list" where
  "end_save i pending = removeAll i pending"

section \<open>The loop over the changes\<close>

text \<open>The reply to the \<open>m\<close>-th of the writes \<open>qs\<close> sent after \<open>log\<close>.\<close>

abbreviation reply_to :: "(bind_request list \<Rightarrow> 'a) \<Rightarrow> bind_request list \<Rightarrow> bind_request list \<Rightarrow> nat \<Rightarrow> 'a" where
  "reply_to writes log qs m \<equiv> writes (log @ take (Suc m) qs)"

definition uncertain_reply :: "bind_error option \<Rightarrow> bool" where
  "uncertain_reply r = (case r of None \<Rightarrow> False | Some e \<Rightarrow> hasUncertainOutcome e)"

lemma all_less_Suc_first: "(\<forall>m<Suc k. P m) \<longleftrightarrow> P 0 \<and> (\<forall>m<k. P (Suc m))"
  using less_Suc_eq_0_disj by auto

lemma ex_less_Suc_first: "(\<exists>m<Suc k. P m) \<longleftrightarrow> P 0 \<or> (\<exists>m<k. P (Suc m))"
  using less_Suc_eq_0_disj by auto

definition ran ::
    "nat \<Rightarrow> (bind_request list \<Rightarrow> bind_error option) \<Rightarrow> bind_request list \<Rightarrow> bind_request list \<Rightarrow> bool \<Rightarrow>
       bool \<Rightarrow> bool \<Rightarrow> nat \<Rightarrow> nat \<Rightarrow> bool" where
  "ran k writes log qs stopped all_ok all_ok' n n' =
     (k \<le> length qs \<and>
      (if stopped
       then \<exists>j. k = Suc j \<and> uncertain_reply (reply_to writes log qs j) \<and>
         (\<forall>m<j. \<not> uncertain_reply (reply_to writes log qs m))
       else k = length qs \<and> (\<forall>m<k. \<not> uncertain_reply (reply_to writes log qs m))) \<and>
      n \<le> n' \<and> (n < n') = (\<exists>m<k. reply_to writes log qs m = None) \<and>
      all_ok' = (all_ok \<and> (\<forall>m<k. reply_to writes log qs m = None)))"

lemma ran_Cons:
  assumes "ran k writes (log @ [q]) qs stopped ok' ok'' n'' n'" and "\<not> uncertain_reply (writes (log @ [q]))"
    and "ok' = (ok \<and> writes (log @ [q]) = None)"
    and "n'' = (if writes (log @ [q]) = None then Suc n else n)"
  shows "ran (Suc k) writes log (q # qs) stopped ok ok'' n n'"
proof (cases stopped)
  case True
  with assms(1) obtain j where "k = Suc j" "uncertain_reply (reply_to writes (log @ [q]) qs j)"
    "\<forall>m<j. \<not> uncertain_reply (reply_to writes (log @ [q]) qs m)" by (auto simp: ran_def)
  with assms True show ?thesis
    by (cases "writes (log @ [q])") (simp_all add: ran_def all_less_Suc_first ex_less_Suc_first)
next
  case False
  with assms show ?thesis
    by (cases "writes (log @ [q])") (simp_all add: ran_def all_less_Suc_first ex_less_Suc_first)
qed

lemma run_changes_exact:
  assumes "run_changes writes cs oc log n = (u, oc', log', n')"
  shows "\<exists>k. log' = log @ take k (map ch_request cs) \<and>
    ran k writes log (map ch_request cs) (u \<noteq> None) (list_all oc_ok oc) (list_all oc_ok oc') n n'"
  using assms
proof (induction writes cs oc log n arbitrary: oc' log' n' rule: run_changes.induct)
  case (1 writes oc log n)
  then show ?case by (simp add: ran_def)
next
  case (2 writes c cs oc log n)
  let ?w = "writes (log @ [ch_request c])"
  let ?oc = "oc @ [\<lparr>oc_pipelineId = ch_pipelineId c, oc_action = ch_action c, oc_ok = (?w = None),
     oc_message = (case ?w of None \<Rightarrow> [] | Some e \<Rightarrow> be_message e)\<rparr>]"
  show ?case
  proof (cases "uncertain_reply ?w")
    case True
    then obtain e where "?w = Some e" "hasUncertainOutcome e"
      by (auto simp: uncertain_reply_def split: option.splits)
    with 2(3) True show ?thesis
      by (intro exI [of _ 1]) (auto simp: ran_def Let_def)
  next
    case False
    let ?n = "if ?w = None then Suc n else n"
    have "\<exists>k. log' = (log @ [ch_request c]) @ take k (map ch_request cs) \<and>
      ran k writes (log @ [ch_request c]) (map ch_request cs) (u \<noteq> None) (list_all oc_ok ?oc) (list_all oc_ok oc') ?n n'"
    proof (cases ?w)
      case None
      show ?thesis using 2(1) [OF refl None] 2(3) None by (simp add: Let_def)
    next
      case (Some e)
      have "\<not> hasUncertainOutcome e" using Some False by (simp add: uncertain_reply_def)
      with 2(2) [OF refl Some refl this] 2(3) Some show ?thesis by (simp add: Let_def)
    qed
    then obtain k where k: "log' = (log @ [ch_request c]) @ take k (map ch_request cs)"
      "ran k writes (log @ [ch_request c]) (map ch_request cs) (u \<noteq> None) (list_all oc_ok ?oc) (list_all oc_ok oc') ?n n'"
      by blast
    have "ran (Suc k) writes log (map ch_request (c # cs)) (u \<noteq> None) (list_all oc_ok oc) (list_all oc_ok oc') n n'"
      unfolding list.map by (rule ran_Cons [OF k(2) False]) simp_all
    with k(1) show ?thesis by (intro exI [of _ "Suc k"]) simp
  qed
qed

lemma bindingRecord_keys:
  "distinct (jm_keys (relations (bindingRecord bs)))"
  "set (jm_keys (relations (bindingRecord bs))) = set (map bd_pipelineId bs)"
proof -
  let ?es = "map (\<lambda>b. (bd_pipelineId b, \<lparr>rel_active = True, rel_comments = [],
         rel_rest = Obj [(''bindingId'', Str (bd_id b)), (''workspaces'', bd_workspaces b)]\<rparr>)) bs"
  have ok: "jm_ok (relations (bindingRecord bs))" by (simp add: bindingRecord_def)
  then show "distinct (jm_keys (relations (bindingRecord bs)))" by (simp add: jm_ok_def)
  have "k \<in> set (jm_keys (jm_of ?es)) \<longleftrightarrow> map_of (rev ?es) k \<noteq> None" for k
    by (simp only: jm_of_get [symmetric] jm_has_keys)
  then have "k \<in> set (jm_keys (jm_of ?es)) \<longleftrightarrow> k \<in> fst ` set ?es" for k
    by (simp only: map_of_eq_None_iff set_rev not_not)
  then show "set (jm_keys (relations (bindingRecord bs))) = set (map bd_pipelineId bs)"
    by (auto simp: bindingRecord_def image_image)
qed

lemma bindings_match:
  assumes "distinct desired"
  shows "sort (jm_keys (relations (bindingRecord bs))) = sort desired \<longleftrightarrow> bd_pipelineId ` set bs = set desired"
proof -
  have "mset (jm_keys (relations (bindingRecord bs))) = mset desired \<longleftrightarrow>
      set (jm_keys (relations (bindingRecord bs))) = set desired"
    by (rule set_eq_iff_mset_eq_distinct [OF bindingRecord_keys(1) assms, symmetric])
  then show ?thesis using bindingRecord_keys(2) [of bs] by (simp only: sort_eq_iff set_map)
qed

lemma not_all_ok: "list_ex (\<lambda>o'. \<not> oc_ok o') oc \<longleftrightarrow> \<not> list_all oc_ok oc"
  by (auto simp: list_ex_iff list_all_iff)


text \<open>A service that accepts one change and then does not answer.\<close>

definition sample_reads :: "bind_request list \<Rightarrow> bind_error + binding list" where
  "sample_reads qs = Inr [\<lparr>bd_id = ''b'', bd_pipelineId = ''p'', bd_workspaces = Null\<rparr>]"

definition sample_writes :: "bind_request list \<Rightarrow> bind_error option" where
  "sample_writes qs = (if length qs = 2 then None else Some (BindingRequestTimeoutError ''Binding remove'' 30000))"


end
