(* ===== verification/JsNumbers.thy ===== *)
theory JsNumbers
  imports JsJson JsMaps
begin

text \<open>
  Comparison and addition of the numbers of \<open>JsValues\<close>, by exact decimal arithmetic, and
  \<open>values.sort(compare)\<close> for a comparison given as the order it decides.
\<close>

section \<open>Order and sum\<close>

fun num_parts :: "jsnum \<Rightarrow> int \<times> nat" where
  "num_parts (JInt i) = (i, 0)"
| "num_parts (JDec m k) = (m, k)"
| "num_parts _ = (0, 0)"

fun num_leq :: "jsnum \<Rightarrow> jsnum \<Rightarrow> bool" where
  "num_leq JNaN _ = False"
| "num_leq _ JNaN = False"
| "num_leq (JInf negative) y = (negative \<or> y = JInf False)"
| "num_leq x (JInf negative) = (\<not> negative)"
| "num_leq x y =
     (case (num_parts x, num_parts y) of ((m, k), (n, l)) \<Rightarrow> m * 10 ^ l \<le> n * 10 ^ k)"

definition num_less :: "jsnum \<Rightarrow> jsnum \<Rightarrow> bool" where
  "num_less x y = (num_leq x y \<and> \<not> num_leq y x)"

definition num_min :: "jsnum \<Rightarrow> jsnum \<Rightarrow> jsnum" where
  "num_min x y = (if num_leq x y then x else y)"

definition num_max :: "jsnum \<Rightarrow> jsnum \<Rightarrow> jsnum" where
  "num_max x y = (if num_leq x y then y else x)"

definition num_add :: "jsnum \<Rightarrow> jsnum \<Rightarrow> jsnum" where
  "num_add x y =
     (case (num_parts x, num_parts y) of ((m, k), (n, l)) \<Rightarrow> norm_dec (m * 10 ^ l + n * 10 ^ k) (k + l))"

lemma num_leq_finite:
  "is_finite_num x \<Longrightarrow> is_finite_num y \<Longrightarrow>
     num_leq x y \<longleftrightarrow> fst (num_parts x) * 10 ^ snd (num_parts y) \<le> fst (num_parts y) * 10 ^ snd (num_parts x)"
  by (cases x; cases y) simp_all

lemma num_leq_refl: "is_finite_num x \<Longrightarrow> num_leq x x"
  by (simp add: num_leq_finite)

lemma num_leq_total: "is_finite_num x \<Longrightarrow> is_finite_num y \<Longrightarrow> num_leq x y \<or> num_leq y x"
  by (auto simp: num_leq_finite)

lemma num_leq_trans:
  assumes "is_finite_num x" "is_finite_num y" "is_finite_num z" "num_leq x y" "num_leq y z"
  shows "num_leq x z"
proof -
  obtain m k n l p j where parts: "num_parts x = (m, k)" "num_parts y = (n, l)" "num_parts z = (p, j)"
    by (meson surj_pair)
  from assms parts have 1: "m * 10 ^ l \<le> n * 10 ^ k" and 2: "n * 10 ^ j \<le> p * 10 ^ l"
    by (simp_all add: num_leq_finite)
  have "(m * 10 ^ j) * 10 ^ l \<le> (n * 10 ^ k) * 10 ^ j"
    using mult_right_mono [OF 1, of "10 ^ j"] by (simp add: mult.commute mult.left_commute)
  also have "\<dots> \<le> (p * 10 ^ l) * 10 ^ k"
    using mult_right_mono [OF 2, of "10 ^ k"] by (simp add: mult.commute mult.left_commute)
  finally have "(m * 10 ^ j) * 10 ^ l \<le> (p * 10 ^ k) * 10 ^ l" by (simp add: mult.commute mult.left_commute)
  then have "m * 10 ^ j \<le> p * 10 ^ k" by (rule mult_right_le_imp_le) simp
  with assms parts show ?thesis by (simp add: num_leq_finite)
qed

lemma norm_dec_parts:
  "is_finite_num (norm_dec m k) \<and>
   fst (num_parts (norm_dec m k)) * 10 ^ k = m * 10 ^ snd (num_parts (norm_dec m k))"
proof (induction m k rule: norm_dec.induct)
  case (2 m k)
  show ?case
  proof (cases "m mod 10 = 0")
    case True
    then have m: "m = 10 * (m div 10)" by presburger
    have "fst (num_parts (norm_dec (m div 10) k)) * 10 ^ Suc k = 10 * (m div 10 * 10 ^ snd (num_parts (norm_dec (m div 10) k)))"
      using 2 [OF True] by simp
    also have "\<dots> = m * 10 ^ snd (num_parts (norm_dec (m div 10) k))"
      using m by (metis mult.assoc)
    finally show ?thesis using 2 [OF True] True by simp
  qed simp
qed simp

text \<open>A number is below itself plus a positive integer.\<close>

lemma num_less_add:
  assumes "is_finite_num x" and "0 < n"
  shows "num_less x (num_add x (JInt n))"
proof -
  obtain m k where x: "num_parts x = (m, k)" by (meson surj_pair)
  let ?y = "num_add x (JInt n)"
  have y: "?y = norm_dec (m + n * 10 ^ k) k" by (simp add: num_add_def x)
  obtain p l where parts: "num_parts ?y = (p, l)" by (meson surj_pair)
  have fin: "is_finite_num ?y" and eq: "p * 10 ^ k = (m + n * 10 ^ k) * 10 ^ l"
    using norm_dec_parts [of "m + n * 10 ^ k" k] parts unfolding y by simp_all
  have "m * 10 ^ l < (m + n * 10 ^ k) * 10 ^ l" using assms(2) by simp
  then have "m * 10 ^ l < p * 10 ^ k" using eq by simp
  with assms(1) fin x parts show ?thesis by (simp add: num_less_def num_leq_finite)
qed

lemma num_add_finite [simp]: "is_finite_num (num_add x y)"
  by (simp add: num_add_def norm_dec_parts split: prod.split)

lemma not_num_less: "is_finite_num x \<Longrightarrow> is_finite_num y \<Longrightarrow> \<not> num_less x y \<Longrightarrow> num_leq y x"
  using num_leq_total by (auto simp: num_less_def)

lemma num_min_max:
  assumes "is_finite_num x" and "is_finite_num y"
  shows "is_finite_num (num_min x y)" "is_finite_num (num_max x y)" "num_leq (num_min x y) (num_max x y)"
  using assms num_leq_total [OF assms] num_leq_refl by (auto simp: num_min_def num_max_def)

section \<open>Sorting by a comparison\<close>

fun insert_by :: "('a \<Rightarrow> 'a \<Rightarrow> bool) \<Rightarrow> 'a \<Rightarrow> 'a list \<Rightarrow> 'a list" where
  "insert_by le x [] = [x]"
| "insert_by le x (y # ys) = (if le x y then x # y # ys else y # insert_by le x ys)"

definition sort_by :: "('a \<Rightarrow> 'a \<Rightarrow> bool) \<Rightarrow> 'a list \<Rightarrow> 'a list" where
  "sort_by le xs = foldr (insert_by le) xs []"

lemma set_insert_by [simp]: "set (insert_by le x ys) = insert x (set ys)"
  by (induction ys) auto

lemma set_sort_by [simp]: "set (sort_by le xs) = set xs"
  by (induction xs) (simp_all add: sort_by_def)

lemma length_insert_by [simp]: "length (insert_by le x ys) = Suc (length ys)"
  by (induction ys) auto

lemma length_sort_by [simp]: "length (sort_by le xs) = length xs"
  by (induction xs) (simp_all add: sort_by_def)

lemma distinct_insert_by [simp]: "distinct (map f (insert_by le x ys)) \<longleftrightarrow> distinct (map f (x # ys))"
  by (induction ys) auto

lemma distinct_sort_by [simp]: "distinct (map f (sort_by le xs)) \<longleftrightarrow> distinct (map f xs)"
proof (induction xs)
  case (Cons x xs)
  have "sort_by le (x # xs) = insert_by le x (sort_by le xs)" by (simp add: sort_by_def)
  then show ?case using Cons by simp
qed (simp add: sort_by_def)

end
