(* ===== verification/AttributeFilters.thy ===== *)
theory AttributeFilters
  imports JsNumbers DataSourceRegistry
begin

text \<open>
  \<open>ProductCatalogue/src/features/map/filters\<close>: \<open>attributeFilterConfig.js\<close>, the fields that can be
  filtered, and \<open>attributeFilterService.js\<close>, the filters of every layer provider, with the generations that
  keep a late provider from replacing a newer one and the snapshot the filters are saved as.

  The closure's maps are the fields of \<open>filter_state\<close>; \<open>fs_events\<close> lists the details the listeners were
  given. A layer is a reference with its own properties and its graphics; a graphic is a value and the
  layer it points back to. The parameters of the service are the record \<open>filter_env\<close>: the two lookup lists, the
  readers that a definition names in \<open>readValues\<close>, and \<open>localeCompare\<close> (plain and numeric) as the order it decides.
\<close>

section \<open>Configuration\<close>

definition ATTRIBUTE_FILTER_FIELD_DEFINITIONS :: "js list" where
  "ATTRIBUTE_FILTER_FIELD_DEFINITIONS =
     [Obj [(''fieldName'', Str ''displayScale''), (''label'', Str ''Display scale''), (''mode'', Str ''range''),
           (''aliases'', Arr [Str ''displayScale'', Str ''DisplayScale''])],
      Obj [(''fieldName'', Str ''status''), (''label'', Str ''Status''), (''mode'', Str ''values''),
           (''optionSource'', Str ''productStates''), (''aliases'', Arr [Str ''status'', Str ''Status''])],
      Obj [(''fieldName'', Str ''packageStatus''), (''label'', Str ''Package status''), (''mode'', Str ''values''),
           (''optionSource'', Str ''packageStatuses''),
           (''aliases'', Arr [Str ''packageStatus'', Str ''PackageStatus''])],
      Obj [(''fieldName'', Str ''usageBand''), (''label'', Str ''Usage band''), (''mode'', Str ''values''),
           (''aliases'', Arr [Str ''usageBand'', Str ''UsageBand''])]]"

definition legacySnapshotProviderId :: string where
  "legacySnapshotProviderId = ''aoi''"

definition normalizeAttributeFilterFieldKey :: "js \<Rightarrow> string" where
  "normalizeAttributeFilterFieldKey v = to_lower (strip_separators (text_of v))"

definition definitionsByKey :: "(string, js) jmap" where
  "definitionsByKey =
     foldl (\<lambda>m d. foldl (\<lambda>m a. jm_set (normalizeAttributeFilterFieldKey a) d m) m (elements (field d ''aliases'')))
       (jm_of (map (\<lambda>d. (normalizeAttributeFilterFieldKey (field d ''fieldName''), d)) ATTRIBUTE_FILTER_FIELD_DEFINITIONS))
       ATTRIBUTE_FILTER_FIELD_DEFINITIONS"

text \<open>The four fields under their normalised names, for evaluation.\<close>

lemma definitionsByKey_eval [code]:
  "definitionsByKey =
     zip [''displayscale'', ''status'', ''packagestatus'', ''usageband''] ATTRIBUTE_FILTER_FIELD_DEFINITIONS"
  by code_simp

definition getAttributeFilterFieldDefinition :: "js \<Rightarrow> js option" where
  "getAttributeFilterFieldDefinition v = jm_get definitionsByKey (normalizeAttributeFilterFieldKey v)"

definition getCanonicalAttributeFilterFieldName :: "js \<Rightarrow> string option" where
  "getCanonicalAttributeFilterFieldName v =
     map_option (\<lambda>d. js_str (field d ''fieldName'')) (getAttributeFilterFieldDefinition v)"

definition getAttributeFilterFieldLabel :: "js \<Rightarrow> string" where
  "getAttributeFilterFieldLabel v =
     (case getAttributeFilterFieldDefinition v of
        Some d \<Rightarrow> js_str (field d ''label'') | None \<Rightarrow> js_str (nullish v (Str [])))"

definition isConfiguredAttributeFilterField :: "js \<Rightarrow> bool" where
  "isConfiguredAttributeFilterField v = (getAttributeFilterFieldDefinition v \<noteq> None)"

definition canonicalField :: "js \<Rightarrow> string option" where
  "canonicalField v = getCanonicalAttributeFilterFieldName v"

section \<open>Values\<close>

definition EMPTY_FILTER_VALUE :: string where
  "EMPTY_FILTER_VALUE = ''__pm_empty_value__''"

definition isEmptyAttributeValue :: "js \<Rightarrow> bool" where
  "isEmptyAttributeValue v = (v = Null \<or> v = Undef \<or> v = Str [])"

definition normalizeFilterValue :: "js \<Rightarrow> string" where
  "normalizeFilterValue v = (if isEmptyAttributeValue v then EMPTY_FILTER_VALUE else js_str v)"

definition toFiniteNumber :: "js \<Rightarrow> jsnum option" where
  "toFiniteNumber v =
     (if isEmptyAttributeValue v then None
      else if is_finite_num (to_number v) then Some (to_number v) else None)"

definition normalizeGeneration :: "js \<Rightarrow> jsnum" where
  "normalizeGeneration v =
     (let g = to_number v in if is_finite_num g \<and> num_leq (JInt 0) g then g else JInt 0)"

definition createFallbackValueLabel :: "string \<Rightarrow> string" where
  "createFallbackValueLabel v = (if v = EMPTY_FILTER_VALUE then ''(empty)'' else v)"

section \<open>State\<close>

record layer_ref =
  lr_id :: nat
  lr_props :: js

record graphic =
  gr_value :: js
  gr_layer :: "layer_ref option"

record layer =
  ly_ref :: layer_ref
  ly_graphics :: "graphic list"

datatype attribute_filter = ValuesFilter "string list" | RangeFilter jsnum jsnum

type_synonym filter_map = "(string, attribute_filter) jmap"

record facet_entry =
  ft_value :: string
  ft_label :: string
  ft_count :: nat
  ft_sortIndex :: "nat option"

record field_definition =
  fd_fieldName :: string
  fd_object :: js

record provider =
  pv_id :: string
  pv_sourceId :: "string option"
  pv_label :: string
  pv_generation :: jsnum
  pv_layers :: "layer list"
  pv_definitions :: "field_definition list"
  pv_facets :: "(string, facet_entry list) jmap"
  pv_defaultExcludedValues :: "(js \<times> js list) list"
  pv_order :: jsnum

datatype filter_event = ProviderEvent string string jsnum | FilterEvent string "string option"

record filter_state =
  fs_providers :: "(string, provider) jmap"
  fs_filters :: "(string, filter_map) jmap"
  fs_pending :: "(string, filter_map) jmap"
  fs_snapshotIds :: "string list"
  fs_layers :: "(nat, string) jmap"
  fs_generations :: "(string, jsnum) jmap"
  fs_applied :: bool
  fs_events :: "filter_event list"

record filter_env =
  fe_statuses :: js
  fe_usages :: js
  fe_readers :: "string \<Rightarrow> js \<Rightarrow> (string \<Rightarrow> js) \<Rightarrow> js"
  fe_collate :: "string \<Rightarrow> string \<Rightarrow> bool"
  fe_collate_numeric :: "string \<Rightarrow> string \<Rightarrow> bool"
  fe_compatibilityProviderId :: string

definition initial_filters :: filter_state where
  "initial_filters =
     \<lparr>fs_providers = [], fs_filters = [], fs_pending = [], fs_snapshotIds = [], fs_layers = [],
      fs_generations = [], fs_applied = False, fs_events = []\<rparr>"

definition emit_filters :: "filter_event \<Rightarrow> filter_state \<Rightarrow> filter_state" where
  "emit_filters e s = s\<lparr>fs_events := fs_events s @ [e]\<rparr>"

section \<open>Reading graphics\<close>

definition candidate_names :: "string \<Rightarrow> string list" where
  "candidate_names f =
     filter (\<lambda>n. n \<noteq> [])
       (f # (case getAttributeFilterFieldDefinition (Str f) of
               None \<Rightarrow> []
             | Some d \<Rightarrow> js_str (field d ''fieldName'') # map js_str (elements (field d ''aliases''))))"

definition readAttributeValue :: "js \<Rightarrow> string \<Rightarrow> js" where
  "readAttributeValue g f =
     (let attributes = nullish (field g ''attributes'') (Obj []) in
      case List.find (has_own attributes) (candidate_names f) of
        Some n \<Rightarrow> field attributes n
      | None \<Rightarrow>
          (case List.find (\<lambda>(n, v). normalizeAttributeFilterFieldKey (Str n) = normalizeAttributeFilterFieldKey (Str f))
                  (own_entries attributes) of
             Some (n, v) \<Rightarrow> v
           | None \<Rightarrow> Undef))"

definition readFilterValues :: "filter_env \<Rightarrow> js \<Rightarrow> field_definition option \<Rightarrow> string list" where
  "readFilterValues env g d =
     (case d of
        None \<Rightarrow> []
      | Some d \<Rightarrow>
          (let raw = (case (field (fd_object d) ''mode'', field (fd_object d) ''readValues'') of
                        (Str m, Str reader) \<Rightarrow>
                          if m = ''values'' then fe_readers env reader g (readAttributeValue g)
                          else Arr [readAttributeValue g (fd_fieldName d)]
                      | _ \<Rightarrow> Arr [readAttributeValue g (fd_fieldName d)])
           in set_of_list (map normalizeFilterValue (if is_array raw then elements raw else [raw]))))"

section \<open>Facets\<close>

fun addLookupEntries :: "nat \<Rightarrow> js list \<Rightarrow> (string, facet_entry) jmap \<Rightarrow> (string, facet_entry) jmap" where
  "addLookupEntries n [] m = m"
| "addLookupEntries n (e # es) m =
     (let v = normalizeFilterValue (field e ''Id'') in
      addLookupEntries (Suc n) es
        (jm_set v \<lparr>ft_value = v, ft_label = js_str (nullish (field e ''Name'') (nullish (field e ''Id'') (Str []))),
                    ft_count = 0, ft_sortIndex = Some n\<rparr> m))"

definition package_status_entries :: "js list" where
  "package_status_entries =
     map (\<lambda>(i, l). Obj [(''Id'', JNum (JInt i)), (''Name'', Str l)]) ENC_PACKAGE_STATUSES"

definition createLookupOptionEntries :: "filter_env \<Rightarrow> bool \<Rightarrow> field_definition \<Rightarrow> (string, facet_entry) jmap" where
  "createLookupOptionEntries env use d =
     (let source = field (fd_object d) ''optionSource'' in
      if \<not> use then []
      else if source = Str ''productStates'' then addLookupEntries 0 (elements (fe_statuses env)) []
      else if source = Str ''packageStatuses'' then addLookupEntries 0 package_status_entries []
      else if source = Str ''specificUsages'' then addLookupEntries 0 (elements (fe_usages env)) []
      else [])"

definition count_value :: "string \<Rightarrow> (string, facet_entry) jmap \<Rightarrow> (string, facet_entry) jmap" where
  "count_value v m =
     (let e = (case jm_get m v of
                 Some e \<Rightarrow> e
               | None \<Rightarrow> \<lparr>ft_value = v, ft_label = createFallbackValueLabel v, ft_count = 0, ft_sortIndex = None\<rparr>)
      in jm_set v (e\<lparr>ft_count := Suc (ft_count e)\<rparr>) m)"

definition value_leq :: "filter_env \<Rightarrow> facet_entry \<Rightarrow> facet_entry \<Rightarrow> bool" where
  "value_leq env l r =
     (case (ft_sortIndex l, ft_sortIndex r) of
        (Some i, Some j) \<Rightarrow> i \<le> j
      | (Some i, None) \<Rightarrow> True
      | (None, Some j) \<Rightarrow> False
      | (None, None) \<Rightarrow>
          (let a = text_number (ft_value l); b = text_number (ft_value r) in
           if is_finite_num a \<and> is_finite_num b then num_leq a b
           else fe_collate_numeric env (ft_label l) (ft_label r)))"

definition facet_of :: "filter_env \<Rightarrow> graphic list \<Rightarrow> bool \<Rightarrow> field_definition \<Rightarrow> facet_entry list option" where
  "facet_of env graphics use d =
     (let options = createLookupOptionEntries env use d;
          configured = list_ex (\<lambda>g. list_ex (\<lambda>v. v \<noteq> EMPTY_FILTER_VALUE) (readFilterValues env (gr_value g) (Some d))) graphics
      in if \<not> configured \<and> options = [] then None
         else Some (sort_by (value_leq env) (jm_values
           (foldl (\<lambda>m g. foldl (\<lambda>m v. count_value v m) m (readFilterValues env (gr_value g) (Some d))) options graphics))))"

fun build_facets ::
    "filter_env \<Rightarrow> graphic list \<Rightarrow> bool \<Rightarrow> field_definition list \<Rightarrow> (string, facet_entry list) jmap \<Rightarrow>
       (string, facet_entry list) jmap" where
  "build_facets env graphics use [] m = m"
| "build_facets env graphics use (d # ds) m =
     build_facets env graphics use ds
       (case facet_of env graphics use d of None \<Rightarrow> m | Some es \<Rightarrow> jm_set (fd_fieldName d) es m)"

definition buildFacets ::
    "filter_env \<Rightarrow> layer list \<Rightarrow> bool \<Rightarrow> field_definition list \<Rightarrow> (string, facet_entry list) jmap" where
  "buildFacets env layers use ds = build_facets env (concat (map ly_graphics layers)) use ds []"

fun normalize_definitions :: "field_definition list \<Rightarrow> js list \<Rightarrow> field_definition list" where
  "normalize_definitions acc [] = acc"
| "normalize_definitions acc (item # items) =
     (case canonicalField (if is_string item then item else field item ''fieldName'') of
        None \<Rightarrow> normalize_definitions acc items
      | Some f \<Rightarrow>
          if f \<in> fd_fieldName ` set acc then normalize_definitions acc items
          else normalize_definitions
            (acc @ [\<lparr>fd_fieldName = f, fd_object =
               spread (spread (case getAttributeFilterFieldDefinition (Str f) of None \<Rightarrow> Obj [] | Some d \<Rightarrow> d)
                         (if is_object item then item else Obj []))
                 (Obj [(''fieldName'', Str f)])\<rparr>]) items)"

definition normalizeProviderDefinitions :: "js \<Rightarrow> field_definition list" where
  "normalizeProviderDefinitions v = normalize_definitions [] (elements v)"

definition cloneDefaultExcludedValues :: "js \<Rightarrow> (js \<times> js list) list" where
  "cloneDefaultExcludedValues v =
     map (\<lambda>e. (field e ''fieldName'', elements (field e ''values''))) (elements v)"

section \<open>Filters of a provider\<close>

definition latest_generation :: "filter_state \<Rightarrow> string \<Rightarrow> jsnum" where
  "latest_generation s i =
     (case jm_get (fs_generations s) i of
        Some g \<Rightarrow> g
      | None \<Rightarrow> (case jm_get (fs_providers s) i of Some p \<Rightarrow> pv_generation p | None \<Rightarrow> JInt 0))"

definition ensureProviderFilters :: "string \<Rightarrow> filter_state \<Rightarrow> filter_map" where
  "ensureProviderFilters i s = (case jm_get (fs_filters s) i of Some m \<Rightarrow> m | None \<Rightarrow> [])"

text \<open>Storing the changed filters of a provider: \<open>cleanupProviderFilters\<close> drops an empty map.\<close>

definition put_filters :: "string \<Rightarrow> filter_map \<Rightarrow> filter_state \<Rightarrow> filter_state" where
  "put_filters i m s =
     s\<lparr>fs_filters := (if m = [] then jm_delete i (fs_filters s) else jm_set i m (fs_filters s))\<rparr>"

definition total_count :: "js \<Rightarrow> jsnum" where
  "total_count v =
     (let n = to_number v in if n = JNaN \<or> \<not> num_leq (JInt 0) n then JInt 0 else n)"

definition setFilter :: "js \<Rightarrow> js \<Rightarrow> js list \<Rightarrow> js \<Rightarrow> filter_state \<Rightarrow> bool \<times> filter_state" where
  "setFilter providerId fieldName selectedValues totalValuesCount s =
     (case (opt_text providerId, canonicalField fieldName) of
        (Some i, Some f) \<Rightarrow>
          if \<not> jm_has (fs_providers s) i then (False, s)
          else
            let selected = set_of_list (map normalizeFilterValue selectedValues);
                m = ensureProviderFilters i s;
                m' = (if JInt (int (length selected)) = total_count totalValuesCount then jm_delete f m
                      else jm_set f (ValuesFilter selected) m)
            in (True, emit_filters (FilterEvent ''filter-changed'' (Some i)) (put_filters i m' s))
      | _ \<Rightarrow> (False, s))"

definition clearFilter :: "js \<Rightarrow> js \<Rightarrow> filter_state \<Rightarrow> bool \<times> filter_state" where
  "clearFilter providerId fieldName s =
     (case (opt_text providerId, canonicalField fieldName) of
        (Some i, Some f) \<Rightarrow>
          (case jm_get (fs_filters s) i of
             None \<Rightarrow> (False, s)
           | Some m \<Rightarrow>
               (let s' = put_filters i (jm_delete f m) s in
                if jm_has m f then (True, emit_filters (FilterEvent ''filter-changed'' (Some i)) s')
                else (False, s')))
      | _ \<Rightarrow> (False, s))"

definition setRangeFilter :: "js \<Rightarrow> js \<Rightarrow> js \<Rightarrow> js \<Rightarrow> js \<Rightarrow> js \<Rightarrow> filter_state \<Rightarrow> bool \<times> filter_state" where
  "setRangeFilter providerId fieldName minValue maxValue fullMinValue fullMaxValue s =
     (case (opt_text providerId, canonicalField fieldName) of
        (Some i, Some f) \<Rightarrow>
          if \<not> jm_has (fs_providers s) i then (False, s)
          else (case (toFiniteNumber minValue, toFiniteNumber maxValue,
                      toFiniteNumber fullMinValue, toFiniteNumber fullMaxValue) of
             (Some a, Some b, Some full_min, Some full_max) \<Rightarrow>
               (let m = ensureProviderFilters i s;
                    m' = (if num_leq (num_min a b) full_min \<and> num_leq full_max (num_max a b) then jm_delete f m
                          else jm_set f (RangeFilter (num_min a b) (num_max a b)) m)
                in (True, emit_filters (FilterEvent ''filter-changed'' (Some i)) (put_filters i m' s)))
           | _ \<Rightarrow> clearFilter (Str i) (Str f) s)
      | _ \<Rightarrow> (False, s))"

definition clearProvider :: "js \<Rightarrow> filter_state \<Rightarrow> bool \<times> filter_state" where
  "clearProvider providerId s =
     (case opt_text providerId of
        None \<Rightarrow> (False, s)
      | Some i \<Rightarrow>
          if jm_has (fs_filters s) i
          then (True, emit_filters (FilterEvent ''filter-changed'' (Some i)) (s\<lparr>fs_filters := jm_delete i (fs_filters s)\<rparr>))
          else (False, s))"

text \<open>\<open>sanitizeProviderFilters\<close>: only the fields a provider has values for stay filtered.\<close>

definition supported_fields :: "provider \<Rightarrow> string list" where
  "supported_fields p = filter (jm_has (pv_facets p)) (map fd_fieldName (pv_definitions p))"

definition supported_filters :: "provider \<Rightarrow> filter_map \<Rightarrow> filter_map" where
  "supported_filters p m = filter (\<lambda>(f, _). f \<in> set (supported_fields p)) m"

definition sanitizeProviderFilters :: "string \<Rightarrow> filter_state \<Rightarrow> filter_state" where
  "sanitizeProviderFilters i s =
     (case (jm_get (fs_providers s) i, jm_get (fs_filters s) i) of
        (Some p, Some m) \<Rightarrow> put_filters i (supported_filters p m) s
      | _ \<Rightarrow> s)"

definition apply_default :: "string \<Rightarrow> js \<times> js list \<Rightarrow> filter_state \<Rightarrow> filter_state" where
  "apply_default i d s =
     (case (jm_get (fs_providers s) i, canonicalField (fst d)) of
        (Some p, Some f) \<Rightarrow>
          (case jm_get (pv_facets p) f of
             Some (e # es) \<Rightarrow>
               (let excluded = map normalizeFilterValue (snd d);
                    selected = filter (\<lambda>v. normalizeFilterValue (Str v) \<notin> set excluded) (map ft_value (e # es))
                in snd (setFilter (Str i) (Str f) (map Str selected) (JNum (JInt (int (length (e # es))))) s))
           | _ \<Rightarrow> s)
      | _ \<Rightarrow> s)"

definition applyDefaultExcludedValues :: "string \<Rightarrow> (js \<times> js list) list \<Rightarrow> filter_state \<Rightarrow> filter_state" where
  "applyDefaultExcludedValues i ds s = foldl (\<lambda>s d. apply_default i d s) s ds"

section \<open>Providers\<close>

record provider_input =
  pi_providerId :: js
  pi_sourceId :: js
  pi_label :: js
  pi_generation :: js
  pi_layers :: "layer list"
  pi_filterDefinitions :: js
  pi_defaultExcludedValues :: js
  pi_useLookupOptions :: bool
  pi_order :: js

datatype publication = Published | Stale

definition make_provider :: "filter_env \<Rightarrow> provider_input \<Rightarrow> string \<Rightarrow> provider" where
  "make_provider env p i =
     (let definitions = normalizeProviderDefinitions (pi_filterDefinitions p) in
      \<lparr>pv_id = i, pv_sourceId = opt_text (pi_sourceId p),
       pv_label = (case opt_text (pi_label p) of Some l \<Rightarrow> l | None \<Rightarrow> i),
       pv_generation = normalizeGeneration (pi_generation p), pv_layers = pi_layers p,
       pv_definitions = definitions,
       pv_facets = buildFacets env (pi_layers p) (pi_useLookupOptions p) definitions,
       pv_defaultExcludedValues = cloneDefaultExcludedValues (pi_defaultExcludedValues p),
       pv_order = (if to_number (pi_order p) = JNaN then JInt 0 else to_number (pi_order p))\<rparr>)"

definition is_stale :: "string \<Rightarrow> jsnum \<Rightarrow> filter_state \<Rightarrow> bool" where
  "is_stale i g s =
     (case jm_get (fs_generations s) i of
        None \<Rightarrow> False
      | Some l \<Rightarrow> num_less g l \<or> \<not> jm_has (fs_providers s) i \<and> num_leq g l \<and> num_leq l g)"

text \<open>The filters a provider starts with when it is added: those it was suspended with, or the defaults.\<close>

definition start_filters :: "string \<Rightarrow> provider \<Rightarrow> filter_state \<Rightarrow> filter_state" where
  "start_filters i p s =
     (case jm_get (fs_pending s) i of
        Some m \<Rightarrow> s\<lparr>fs_pending := jm_delete i (fs_pending s), fs_filters := jm_set i m (fs_filters s)\<rparr>
      | None \<Rightarrow>
          if fs_applied s \<and> i \<in> set (fs_snapshotIds s) then s\<lparr>fs_filters := jm_delete i (fs_filters s)\<rparr>
          else applyDefaultExcludedValues i (pv_defaultExcludedValues p) s)"

definition register_provider :: "string \<Rightarrow> provider \<Rightarrow> filter_state \<Rightarrow> filter_state" where
  "register_provider i p s =
     s\<lparr>fs_providers := jm_set i p (fs_providers s), fs_generations := jm_set i (pv_generation p) (fs_generations s),
       fs_layers := foldl (\<lambda>m l. jm_set (lr_id (ly_ref l)) i m) (fs_layers s) (pv_layers p)\<rparr>"

definition replaceProvider :: "filter_env \<Rightarrow> provider_input \<Rightarrow> filter_state \<Rightarrow> string + (publication \<times> filter_state)" where
  "replaceProvider env input s =
     (case opt_text (pi_providerId input) of
        None \<Rightarrow> Inl ''providerId is required.''
      | Some i \<Rightarrow>
          (let g = normalizeGeneration (pi_generation input); added = (\<not> jm_has (fs_providers s) i) in
           if is_stale i g s then Inr (Stale, s)
           else
             let p = make_provider env input i;
                 s1 = register_provider i p s;
                 s2 = (if added then start_filters i p s1 else s1);
                 s3 = sanitizeProviderFilters i s2
             in Inr (Published, emit_filters
                  (ProviderEvent (if added then ''provider-added'' else ''provider-replaced'') i g) s3)))"

definition next_generation :: "js \<Rightarrow> string \<Rightarrow> filter_state \<Rightarrow> jsnum" where
  "next_generation v i s =
     (if is_nullish v then num_add (latest_generation s i) (JInt 1) else normalizeGeneration v)"

text \<open>\<open>clearProviderFilterState\<close>, without and with \<open>retainSnapshotIntent\<close>.\<close>

definition drop_filter_state :: "string \<Rightarrow> filter_state \<Rightarrow> bool \<times> filter_state" where
  "drop_filter_state i s =
     (jm_has (fs_filters s) i \<or> jm_has (fs_pending s) i \<or> i \<in> set (fs_snapshotIds s),
      s\<lparr>fs_filters := jm_delete i (fs_filters s), fs_pending := jm_delete i (fs_pending s),
        fs_snapshotIds := removeAll i (fs_snapshotIds s)\<rparr>)"

definition retain_filter_state :: "string \<Rightarrow> filter_state \<Rightarrow> bool \<times> filter_state" where
  "retain_filter_state i s =
     (let active = jm_has (fs_filters s) i; known = (i \<in> set (fs_snapshotIds s));
          present = jm_has (fs_providers s) i; pending = jm_get (fs_pending s) i;
          stored = (if present then pending \<noteq> None else (case pending of None \<Rightarrow> True | Some m \<Rightarrow> m \<noteq> []))
      in (active \<or> \<not> known \<or> stored,
          s\<lparr>fs_filters := jm_delete i (fs_filters s),
            fs_snapshotIds := (if known then fs_snapshotIds s else fs_snapshotIds s @ [i]),
            fs_pending := (if \<not> stored then fs_pending s
                           else if present then jm_delete i (fs_pending s) else jm_set i [] (fs_pending s))\<rparr>))"

definition removeProvider :: "js \<Rightarrow> js \<Rightarrow> filter_state \<Rightarrow> bool \<times> bool \<times> filter_state" where
  "removeProvider providerId generation s =
     (case opt_text providerId of
        None \<Rightarrow> (False, False, s)
      | Some i \<Rightarrow>
          (let g = next_generation generation i s in
           if num_less g (latest_generation s i) then (False, True, s)
           else
             let (dropped, s1) = drop_filter_state i (s\<lparr>fs_generations := jm_set i g (fs_generations s),
                                                        fs_providers := jm_delete i (fs_providers s)\<rparr>);
                 removed = (jm_has (fs_providers s) i \<or> dropped)
             in (removed, False, if removed then emit_filters (ProviderEvent ''provider-removed'' i g) s1 else s1)))"

definition suspendProvider :: "js \<Rightarrow> js \<Rightarrow> filter_state \<Rightarrow> bool \<times> bool \<times> filter_state" where
  "suspendProvider providerId generation s =
     (case opt_text providerId of
        None \<Rightarrow> (False, False, s)
      | Some i \<Rightarrow>
          (let g = next_generation generation i s in
           if num_less g (latest_generation s i) then (False, True, s)
           else
             let s1 = s\<lparr>fs_generations := jm_set i g (fs_generations s)\<rparr> in
             if \<not> jm_has (fs_providers s) i then (False, False, s1)
             else (True, False, emit_filters (ProviderEvent ''provider-suspended'' i g)
                    (s1\<lparr>fs_providers := jm_delete i (fs_providers s), fs_filters := jm_delete i (fs_filters s),
                       fs_pending := jm_set i (ensureProviderFilters i s) (fs_pending s),
                       fs_snapshotIds := (if i \<in> set (fs_snapshotIds s) then fs_snapshotIds s
                                          else fs_snapshotIds s @ [i])\<rparr>))))"

definition getProviderGeneration :: "js \<Rightarrow> filter_state \<Rightarrow> jsnum option" where
  "getProviderGeneration providerId s =
     (case opt_text providerId of
        None \<Rightarrow> None
      | Some i \<Rightarrow> (case jm_get (fs_generations s) i of
                    Some g \<Rightarrow> Some g | None \<Rightarrow> map_option pv_generation (jm_get (fs_providers s) i)))"

section \<open>Views\<close>

definition getSelectedValues :: "js \<Rightarrow> js \<Rightarrow> filter_state \<Rightarrow> string list option" where
  "getSelectedValues providerId fieldName s =
     (case (opt_text providerId, canonicalField fieldName) of
        (Some i, Some f) \<Rightarrow> (case jm_get (ensureProviderFilters i s) f of Some (ValuesFilter vs) \<Rightarrow> Some vs | _ \<Rightarrow> None)
      | _ \<Rightarrow> None)"

definition getRangeFilter :: "js \<Rightarrow> js \<Rightarrow> filter_state \<Rightarrow> (jsnum \<times> jsnum) option" where
  "getRangeFilter providerId fieldName s =
     (case (opt_text providerId, canonicalField fieldName) of
        (Some i, Some f) \<Rightarrow> (case jm_get (ensureProviderFilters i s) f of Some (RangeFilter a b) \<Rightarrow> Some (a, b) | _ \<Rightarrow> None)
      | _ \<Rightarrow> None)"

definition getActiveFilterCount :: "js \<Rightarrow> filter_state \<Rightarrow> nat" where
  "getActiveFilterCount providerId s =
     (case opt_text providerId of
        Some i \<Rightarrow> length (ensureProviderFilters i s)
      | None \<Rightarrow> sum_list (map length (jm_values (fs_filters s))))"

definition hasActiveDisplayScaleFilter :: "filter_state \<Rightarrow> bool" where
  "hasActiveDisplayScaleFilter s =
     list_ex (list_ex (\<lambda>f. normalizeAttributeFilterFieldKey (Str f) = ''displayscale'') \<circ> jm_keys) (jm_values (fs_filters s))"

definition provider_leq :: "filter_env \<Rightarrow> provider \<Rightarrow> provider \<Rightarrow> bool" where
  "provider_leq env l r =
     (if pv_order l = pv_order r then fe_collate env (pv_label l) (pv_label r)
      else num_leq (pv_order l) (pv_order r))"

definition getLayerIds :: "filter_env \<Rightarrow> filter_state \<Rightarrow> string list" where
  "getLayerIds env s = map pv_id (sort_by (provider_leq env) (jm_values (fs_providers s)))"

definition getFilterableFields :: "js \<Rightarrow> filter_state \<Rightarrow> string list" where
  "getFilterableFields providerId s =
     (case opt_text providerId of
        None \<Rightarrow> []
      | Some i \<Rightarrow> (case jm_get (fs_providers s) i of None \<Rightarrow> [] | Some p \<Rightarrow> supported_fields p))"

definition matches_filter :: "filter_env \<Rightarrow> js \<Rightarrow> provider option \<Rightarrow> string \<Rightarrow> attribute_filter \<Rightarrow> bool" where
  "matches_filter env g p f flt =
     (case flt of
        RangeFilter a b \<Rightarrow>
          (case toFiniteNumber (readAttributeValue g f) of
             None \<Rightarrow> False | Some n \<Rightarrow> \<not> num_less n a \<and> \<not> num_less b n)
      | ValuesFilter vs \<Rightarrow>
          list_ex (\<lambda>v. v \<in> set vs)
            (readFilterValues env g (case p of None \<Rightarrow> None
               | Some p \<Rightarrow> List.find (\<lambda>d. fd_fieldName d = f) (pv_definitions p))))"

definition matchesProviderFilters ::
    "filter_env \<Rightarrow> js \<Rightarrow> provider option \<Rightarrow> filter_map option \<Rightarrow> string option \<Rightarrow> bool" where
  "matchesProviderFilters env g p m excluded =
     (case m of
        None \<Rightarrow> True
      | Some m \<Rightarrow> list_all (\<lambda>(f, flt). Some f = excluded \<or> matches_filter env g p f flt) m)"

definition resolveProviderId :: "graphic \<Rightarrow> layer_ref option \<Rightarrow> filter_state \<Rightarrow> string option" where
  "resolveProviderId g l s =
     (let source = (case l of Some r \<Rightarrow> Some r | None \<Rightarrow> gr_layer g);
          props = (case source of Some r \<Rightarrow> lr_props r | None \<Rightarrow> Undef);
          direct = (case source of Some r \<Rightarrow> jm_get (fs_layers s) (lr_id r) | None \<Rightarrow> None)
      in case direct of
           Some i \<Rightarrow> Some i
         | None \<Rightarrow>
             (case opt_text (nullish (field (field (gr_value g) ''attributes'') ''sourceId'')
                     (nullish (field props ''appSourceId'')
                       (nullish (field props ''dataSourceId'') (field props ''sourceId'')))) of
                None \<Rightarrow> None
              | Some sid \<Rightarrow> map_option pv_id (List.find (\<lambda>p. pv_sourceId p = Some sid) (jm_values (fs_providers s)))))"

definition matchesGraphic :: "filter_env \<Rightarrow> graphic \<Rightarrow> layer_ref option \<Rightarrow> filter_state \<Rightarrow> bool" where
  "matchesGraphic env g l s =
     (case resolveProviderId g l s of
        None \<Rightarrow> True
      | Some i \<Rightarrow> matchesProviderFilters env (gr_value g) (jm_get (fs_providers s) i) (jm_get (fs_filters s) i) None)"

definition getValuesForField :: "filter_env \<Rightarrow> js \<Rightarrow> js \<Rightarrow> filter_state \<Rightarrow> facet_entry list" where
  "getValuesForField env providerId fieldName s =
     (case (opt_text providerId, canonicalField fieldName) of
        (Some i, Some f) \<Rightarrow>
          (case jm_get (fs_providers s) i of
             None \<Rightarrow> []
           | Some p \<Rightarrow>
               (case jm_get (pv_facets p) f of
                  None \<Rightarrow> []
                | Some values \<Rightarrow>
                    (let d = List.find (\<lambda>d. fd_fieldName d = f) (pv_definitions p);
                         shown = filter (\<lambda>g. matchesProviderFilters env (gr_value g) (Some p)
                                   (jm_get (fs_filters s) (pv_id p)) (Some f)) (concat (map ly_graphics (pv_layers p)))
                     in map (\<lambda>e. e\<lparr>ft_count :=
                          length (filter (\<lambda>g. ft_value e \<in> set (readFilterValues env (gr_value g) d)) shown)\<rparr>) values)))
      | _ \<Rightarrow> [])"

definition countProviderGraphics :: "provider \<Rightarrow> nat" where
  "countProviderGraphics p = sum_list (map (length \<circ> ly_graphics) (pv_layers p))"

definition countMatchingProviderGraphics :: "filter_env \<Rightarrow> provider \<Rightarrow> filter_state \<Rightarrow> nat" where
  "countMatchingProviderGraphics env p s =
     sum_list (map (\<lambda>l. length (filter (\<lambda>g. matchesGraphic env g (Some (ly_ref l)) s) (ly_graphics l))) (pv_layers p))"

record layer_metadata =
  lm_providerId :: string
  lm_sourceId :: "string option"
  lm_label :: string
  lm_generation :: jsnum
  lm_totalCount :: nat
  lm_visibleCount :: nat

definition getLayerMetadata :: "filter_env \<Rightarrow> js \<Rightarrow> filter_state \<Rightarrow> layer_metadata option" where
  "getLayerMetadata env providerId s =
     (case opt_text providerId of
        None \<Rightarrow> None
      | Some i \<Rightarrow> map_option (\<lambda>p.
          \<lparr>lm_providerId = pv_id p, lm_sourceId = pv_sourceId p, lm_label = pv_label p,
           lm_generation = pv_generation p, lm_totalCount = countProviderGraphics p,
           lm_visibleCount = countMatchingProviderGraphics env p s\<rparr>) (jm_get (fs_providers s) i))"

section \<open>Snapshots\<close>

definition serialize_filter :: "string \<times> attribute_filter \<Rightarrow> js" where
  "serialize_filter e =
     (case e of
        (f, RangeFilter a b) \<Rightarrow>
          Obj [(''fieldName'', Str f), (''mode'', Str ''range''), (''min'', JNum a), (''max'', JNum b)]
      | (f, ValuesFilter vs) \<Rightarrow>
          Obj [(''fieldName'', Str f), (''mode'', Str ''values''), (''values'', Arr (map Str vs))])"

definition serializeFilterMap :: "filter_map \<Rightarrow> js" where
  "serializeFilterMap m = Arr (map serialize_filter m)"

definition getSnapshotProviderIds :: "filter_env \<Rightarrow> filter_state \<Rightarrow> string list" where
  "getSnapshotProviderIds env s =
     getLayerIds env s @
     sort_by (fe_collate env) (filter (\<lambda>i. \<not> jm_has (fs_providers s) i) (jm_keys (fs_pending s)))"

definition saved_filters :: "string \<Rightarrow> filter_state \<Rightarrow> filter_map" where
  "saved_filters i s =
     (case jm_get (fs_filters s) i of
        Some m \<Rightarrow> m
      | None \<Rightarrow> (case jm_get (fs_pending s) i of Some m \<Rightarrow> m | None \<Rightarrow> []))"

definition getFilterSnapshot :: "filter_env \<Rightarrow> filter_state \<Rightarrow> js" where
  "getFilterSnapshot env s =
     Obj [(''version'', JNum (JInt 2)),
          (''sources'', Arr (map (\<lambda>i.
             Obj [(''providerId'', Str i), (''fields'', serializeFilterMap (saved_filters i s))])
             (getSnapshotProviderIds env s)))]"

definition valid_field_entry :: "js \<Rightarrow> bool" where
  "valid_field_entry e =
     (canonicalField (field e ''fieldName'') \<noteq> None \<and>
      (if field e ''mode'' = Str ''values'' then is_array (field e ''values'')
       else field e ''mode'' = Str ''range'' \<and> toFiniteNumber (field e ''min'') \<noteq> None \<and>
         toFiniteNumber (field e ''max'') \<noteq> None))"

definition isValidSnapshotFieldEntries :: "js \<Rightarrow> bool" where
  "isValidSnapshotFieldEntries v = (is_array v \<and> list_all valid_field_entry (elements v))"

fun snapshot_entries :: "(string \<times> js list) list \<Rightarrow> js list \<Rightarrow> (string \<times> js list) list option" where
  "snapshot_entries acc [] = Some acc"
| "snapshot_entries acc (e # es) =
     (case opt_text (field e ''providerId'') of
        None \<Rightarrow> None
      | Some i \<Rightarrow>
          if i \<in> fst ` set acc \<or> \<not> isValidSnapshotFieldEntries (field e ''fields'') then None
          else snapshot_entries (acc @ [(i, elements (field e ''fields''))]) es)"

fun legacy_fields :: "string \<Rightarrow> js list \<Rightarrow> js list \<Rightarrow> js list option" where
  "legacy_fields own acc [] = Some acc"
| "legacy_fields own acc (e # es) =
     (if opt_text (field e ''layerId'') \<noteq> Some own \<or> \<not> isValidSnapshotFieldEntries (field e ''fields'') then None
      else legacy_fields own (acc @ elements (field e ''fields'')) es)"

definition normalizeFilterSnapshot :: "filter_env \<Rightarrow> js \<Rightarrow> (nat \<times> (string \<times> js list) list) option" where
  "normalizeFilterSnapshot env v =
     (if field v ''version'' = JNum (JInt 2) \<and> is_array (field v ''sources'')
      then map_option (Pair 2) (snapshot_entries [] (elements (field v ''sources'')))
      else if field v ''version'' = JNum (JInt 1) \<and> is_array (field v ''layers'')
      then map_option (\<lambda>fs. (1, [(fe_compatibilityProviderId env, fs)]))
             (legacy_fields (fe_compatibilityProviderId env) [] (elements (field v ''layers'')))
      else None)"

definition deserialize_filter :: "js \<Rightarrow> (string \<times> attribute_filter) option" where
  "deserialize_filter e =
     (case canonicalField (field e ''fieldName'') of
        None \<Rightarrow> None
      | Some f \<Rightarrow>
          if field e ''mode'' = Str ''range''
          then (case (toFiniteNumber (field e ''min''), toFiniteNumber (field e ''max'')) of
                  (Some a, Some b) \<Rightarrow> Some (f, RangeFilter (num_min a b) (num_max a b)) | _ \<Rightarrow> None)
          else if field e ''mode'' = Str ''values'' \<and> is_array (field e ''values'')
          then Some (f, ValuesFilter (set_of_list (map normalizeFilterValue (elements (field e ''values'')))))
          else None)"

fun deserializeFilterEntries :: "filter_map \<Rightarrow> js list \<Rightarrow> filter_map" where
  "deserializeFilterEntries m [] = m"
| "deserializeFilterEntries m (e # es) =
     deserializeFilterEntries (case deserialize_filter e of None \<Rightarrow> m | Some (f, flt) \<Rightarrow> jm_set f flt m) es"

definition apply_entry :: "string \<times> js list \<Rightarrow> filter_state \<Rightarrow> filter_state" where
  "apply_entry e s =
     (case e of (i, fs) \<Rightarrow>
        (let m = deserializeFilterEntries [] fs;
             s1 = s\<lparr>fs_snapshotIds := (if i \<in> set (fs_snapshotIds s) then fs_snapshotIds s else fs_snapshotIds s @ [i])\<rparr>
         in if jm_has (fs_providers s) i
            then sanitizeProviderFilters i (if m = [] then s1 else s1\<lparr>fs_filters := jm_set i m (fs_filters s1)\<rparr>)
            else s1\<lparr>fs_pending := jm_set i m (fs_pending s1)\<rparr>))"

definition applyFilterSnapshot :: "filter_env \<Rightarrow> js \<Rightarrow> filter_state \<Rightarrow> bool \<times> filter_state" where
  "applyFilterSnapshot env v s =
     (case normalizeFilterSnapshot env v of
        None \<Rightarrow> (False, s)
      | Some (version, entries) \<Rightarrow>
          (let s1 = s\<lparr>fs_pending := [], fs_snapshotIds := [], fs_applied := True,
                      fs_filters := (if version = 2 then []
                                     else jm_delete (fe_compatibilityProviderId env) (fs_filters s))\<rparr>
           in (True, emit_filters (FilterEvent ''snapshot-applied'' None) (foldl (\<lambda>s e. apply_entry e s) s1 entries))))"

section \<open>All providers\<close>

definition known_provider_ids :: "filter_state \<Rightarrow> string list" where
  "known_provider_ids s =
     set_of_list (jm_keys (fs_providers s) @ jm_keys (fs_filters s) @ jm_keys (fs_pending s) @ fs_snapshotIds s)"

fun clear_each :: "string list \<Rightarrow> bool \<Rightarrow> filter_state \<Rightarrow> bool \<times> filter_state" where
  "clear_each [] changed s = (changed, s)"
| "clear_each (i # ids) changed s =
     (case retain_filter_state i s of (c, s') \<Rightarrow> clear_each ids (c \<or> changed) s')"

definition clearAll :: "filter_state \<Rightarrow> bool \<times> filter_state" where
  "clearAll s =
     (let ids = known_provider_ids s; (changed, s1) = clear_each ids False s;
          s2 = (if ids \<noteq> [] then s1\<lparr>fs_applied := True\<rparr> else s1)
      in if \<not> changed then (False, s2) else (True, emit_filters (FilterEvent ''filters-cleared'' None) s2))"

definition resetToDefaults :: "filter_env \<Rightarrow> filter_state \<Rightarrow> bool \<times> filter_state" where
  "resetToDefaults env s =
     (let before = json_text (getFilterSnapshot env s);
          s1 = s\<lparr>fs_filters := [], fs_pending := [], fs_snapshotIds := [], fs_applied := False\<rparr>;
          s2 = foldl (\<lambda>s p. applyDefaultExcludedValues (pv_id p) (pv_defaultExcludedValues p) s) s1 (jm_values (fs_providers s));
          changed = (json_text (getFilterSnapshot env s2) \<noteq> before)
      in (changed, if changed then emit_filters (FilterEvent ''filters-reset'' None) s2 else s2))"

end
