(* ===== verification/AttributeFilterLaws.thy ===== *)
theory AttributeFilterLaws
  imports AttributeFilters
begin

text \<open>
  What \<open>attributeFilterService.js\<close> keeps: the operations as steps, the invariant of the maps of the service,
  that the generation of a provider never goes back, and that a snapshot carries the filters of one state to another.
\<close>

section \<open>Steps\<close>

datatype filter_op =
    Replace provider_input
  | Remove js js
  | Suspend js js
  | SetFilter js js "js list" js
  | SetRange js js js js js js
  | ClearFilter js js
  | ClearProvider js
  | ClearAll
  | ResetToDefaults
  | ApplySnapshot js

fun filter_step :: "filter_env \<Rightarrow> filter_op \<Rightarrow> filter_state \<Rightarrow> filter_state" where
  "filter_step env (Replace p) s = (case replaceProvider env p s of Inl e \<Rightarrow> s | Inr (r, s') \<Rightarrow> s')"
| "filter_step env (Remove i g) s = snd (snd (removeProvider i g s))"
| "filter_step env (Suspend i g) s = snd (snd (suspendProvider i g s))"
| "filter_step env (SetFilter i f vs n) s = snd (setFilter i f vs n s)"
| "filter_step env (SetRange i f a b c d) s = snd (setRangeFilter i f a b c d s)"
| "filter_step env (ClearFilter i f) s = snd (clearFilter i f s)"
| "filter_step env (ClearProvider i) s = snd (clearProvider i s)"
| "filter_step env ClearAll s = snd (clearAll s)"
| "filter_step env ResetToDefaults s = snd (resetToDefaults env s)"
| "filter_step env (ApplySnapshot v) s = snd (applyFilterSnapshot env v s)"

inductive filter_reachable :: "filter_env \<Rightarrow> filter_state \<Rightarrow> bool" for env where
  initial: "filter_reachable env initial_filters"
| step: "filter_reachable env s \<Longrightarrow> filter_reachable env (filter_step env op s)"

section \<open>The invariant\<close>

fun filter_ok :: "attribute_filter \<Rightarrow> bool" where
  "filter_ok (ValuesFilter vs) = distinct vs"
| "filter_ok (RangeFilter a b) = (is_finite_num a \<and> is_finite_num b \<and> num_leq a b)"

definition filter_map_ok :: "filter_map \<Rightarrow> bool" where
  "filter_map_ok m = (jm_ok m \<and> (\<forall>f flt. jm_get m f = Some flt \<longrightarrow> canonicalField (Str f) = Some f \<and> filter_ok flt))"

definition text_id :: "string \<Rightarrow> bool" where
  "text_id i = (i \<noteq> [] \<and> trim i = i)"

definition provider_ok :: "filter_state \<Rightarrow> string \<Rightarrow> provider \<Rightarrow> bool" where
  "provider_ok s i p =
     (pv_id p = i \<and> text_id i \<and> jm_get (fs_generations s) i = Some (pv_generation p))"

definition filters_inv :: "filter_state \<Rightarrow> bool" where
  "filters_inv s =
     (jm_ok (fs_providers s) \<and> jm_ok (fs_filters s) \<and> jm_ok (fs_pending s) \<and>
      (\<forall>i p. jm_get (fs_providers s) i = Some p \<longrightarrow> provider_ok s i p) \<and>
      (\<forall>i g. jm_get (fs_generations s) i = Some g \<longrightarrow> is_finite_num g \<and> num_leq (JInt 0) g) \<and>
      (\<forall>i m. jm_get (fs_filters s) i = Some m \<longrightarrow> jm_has (fs_providers s) i \<and> m \<noteq> [] \<and> filter_map_ok m) \<and>
      (\<forall>i m. jm_get (fs_pending s) i = Some m \<longrightarrow> \<not> jm_has (fs_providers s) i \<and> text_id i \<and> filter_map_ok m) \<and>
      list_all text_id (fs_snapshotIds s))"

lemma filters_invI:
  assumes "jm_ok (fs_providers s)" and "jm_ok (fs_filters s)" and "jm_ok (fs_pending s)"
    and "\<And>i p. jm_get (fs_providers s) i = Some p \<Longrightarrow> provider_ok s i p"
    and "\<And>i g. jm_get (fs_generations s) i = Some g \<Longrightarrow> is_finite_num g \<and> num_leq (JInt 0) g"
    and "\<And>i m. jm_get (fs_filters s) i = Some m \<Longrightarrow> jm_has (fs_providers s) i \<and> m \<noteq> [] \<and> filter_map_ok m"
    and "\<And>i m. jm_get (fs_pending s) i = Some m \<Longrightarrow> \<not> jm_has (fs_providers s) i \<and> text_id i \<and> filter_map_ok m"
    and "list_all text_id (fs_snapshotIds s)"
  shows "filters_inv s"
  unfolding filters_inv_def using assms by blast

lemma filters_invD:
  assumes "filters_inv s"
  shows "jm_ok (fs_providers s)" "jm_ok (fs_filters s)" "jm_ok (fs_pending s)"
    "jm_get (fs_providers s) i = Some p \<Longrightarrow> provider_ok s i p"
    "jm_get (fs_generations s) i = Some g \<Longrightarrow> is_finite_num g \<and> num_leq (JInt 0) g"
    "jm_get (fs_filters s) i = Some m \<Longrightarrow> jm_has (fs_providers s) i \<and> m \<noteq> [] \<and> filter_map_ok m"
    "jm_get (fs_pending s) i = Some m \<Longrightarrow> \<not> jm_has (fs_providers s) i \<and> text_id i \<and> filter_map_ok m"
    "list_all text_id (fs_snapshotIds s)"
  using assms unfolding filters_inv_def by blast+

lemma emit_filters_fields [simp]:
  "fs_providers (emit_filters e s) = fs_providers s" "fs_filters (emit_filters e s) = fs_filters s"
  "fs_pending (emit_filters e s) = fs_pending s" "fs_snapshotIds (emit_filters e s) = fs_snapshotIds s"
  "fs_generations (emit_filters e s) = fs_generations s" "fs_applied (emit_filters e s) = fs_applied s"
  by (simp_all add: emit_filters_def)

lemma put_filters_fields [simp]:
  "fs_providers (put_filters i m s) = fs_providers s" "fs_pending (put_filters i m s) = fs_pending s"
  "fs_snapshotIds (put_filters i m s) = fs_snapshotIds s" "fs_generations (put_filters i m s) = fs_generations s"
  "fs_applied (put_filters i m s) = fs_applied s"
  "jm_get (fs_filters (put_filters i m s)) = (jm_get (fs_filters s))(i := if m = [] then None else Some m)"
  by (auto simp: put_filters_def fun_eq_iff)

lemma filters_inv_emit [simp]: "filters_inv (emit_filters e s) = filters_inv s"
  by (simp add: filters_inv_def provider_ok_def)

lemma jm_ok_put: "jm_ok (fs_filters s) \<Longrightarrow> jm_ok (fs_filters (put_filters i m s))"
  by (simp add: put_filters_def jm_ok_delete jm_ok_set)

text \<open>A change of the filters of one provider.\<close>

lemma filters_inv_put:
  assumes "filters_inv s" and "jm_has (fs_providers s) i" and "filter_map_ok m"
  shows "filters_inv (put_filters i m s)"
proof (rule filters_invI)
  note D = filters_invD [OF assms(1)]
  show "jm_ok (fs_filters (put_filters i m s))" by (rule jm_ok_put [OF D(2)])
  show "jm_has (fs_providers (put_filters i m s)) j \<and> n \<noteq> [] \<and> filter_map_ok n"
    if "jm_get (fs_filters (put_filters i m s)) j = Some n" for j n
    using that assms(2,3) D(6) [of j n] by (simp split: if_splits)
qed (use filters_invD [OF assms(1)] in \<open>simp_all add: provider_ok_def\<close>)

lemma filter_map_ok_Nil [simp]: "filter_map_ok []"
  by (simp add: filter_map_ok_def)

lemma filter_map_ok_delete: "filter_map_ok m \<Longrightarrow> filter_map_ok (jm_delete f m)"
  by (simp add: filter_map_ok_def)

lemma filter_map_ok_set:
  "filter_map_ok m \<Longrightarrow> canonicalField (Str f) = Some f \<Longrightarrow> filter_ok flt \<Longrightarrow> filter_map_ok (jm_set f flt m)"
  by (simp add: filter_map_ok_def)

lemma filter_map_ok_ensure: "filters_inv s \<Longrightarrow> filter_map_ok (ensureProviderFilters i s)"
  by (auto simp: ensureProviderFilters_def split: option.split dest: filters_invD(6))

lemma canonical_cases: "canonicalField v = Some f \<Longrightarrow> f \<in> {''displayScale'', ''status'', ''packageStatus'', ''usageBand''}"
proof -
  assume "canonicalField v = Some f"
  then obtain k d where kd: "jm_get definitionsByKey k = Some d" "f = js_str (field d ''fieldName'')"
    by (auto simp: canonicalField_def getCanonicalAttributeFilterFieldName_def getAttributeFilterFieldDefinition_def)
  from kd(1) have "d \<in> set (jm_values definitionsByKey)" by (metis image_eqI list.set_map map_of_SomeD snd_conv)
  moreover have "list_all (\<lambda>d. js_str (field d ''fieldName'') \<in> {''displayScale'', ''status'', ''packageStatus'', ''usageBand''})
      (jm_values definitionsByKey)" by code_simp
  ultimately show ?thesis using kd(2) by (auto simp: list_all_iff)
qed

lemma canonical_again: "canonicalField v = Some f \<Longrightarrow> canonicalField (Str f) = Some f"
proof -
  assume "canonicalField v = Some f"
  from canonical_cases [OF this] show ?thesis
  proof (elim insertE emptyE)
    assume "f = ''displayScale''" then show ?thesis by (simp only:) code_simp
  next
    assume "f = ''status''" then show ?thesis by (simp only:) code_simp
  next
    assume "f = ''packageStatus''" then show ?thesis by (simp only:) code_simp
  next
    assume "f = ''usageBand''" then show ?thesis by (simp only:) code_simp
  qed
qed

section \<open>Every operation keeps the invariant\<close>

lemma opt_text_id: "opt_text v = Some i \<Longrightarrow> text_id i"
  by (auto simp: opt_text_Some text_id_def)

lemma opt_text_of_id: "text_id i \<Longrightarrow> opt_text (Str i) = Some i"
  by (simp add: text_id_def)

lemma latest_generation_inv:
  assumes "filters_inv s"
  shows "latest_generation s i = (case jm_get (fs_generations s) i of Some g \<Rightarrow> g | None \<Rightarrow> JInt 0)"
  using filters_invD(4) [OF assms, of i]
  by (auto simp: latest_generation_def provider_ok_def split: option.splits)

lemma latest_generation_ok: "filters_inv s \<Longrightarrow> is_finite_num (latest_generation s i) \<and> num_leq (JInt 0) (latest_generation s i)"
  by (auto simp: latest_generation_inv split: option.split dest: filters_invD(5))

lemma normalizeGeneration_ok: "is_finite_num (normalizeGeneration v) \<and> num_leq (JInt 0) (normalizeGeneration v)"
  by (simp add: normalizeGeneration_def Let_def)

lemma next_generation_ok:
  assumes "filters_inv s"
  shows "is_finite_num (next_generation v i s) \<and> num_leq (JInt 0) (next_generation v i s)"
proof (cases "is_nullish v")
  case True
  let ?l = "latest_generation s i"
  have "num_leq (JInt 0) (num_add ?l (JInt 1))"
    using num_leq_trans [of "JInt 0" ?l "num_add ?l (JInt 1)"] num_less_add [of ?l 1] latest_generation_ok [OF assms, of i]
    by (simp add: num_less_def)
  with True show ?thesis by (simp add: next_generation_def)
qed (simp add: next_generation_def normalizeGeneration_ok)

lemma setFilter_inv:
  assumes "filters_inv s"
  shows "filters_inv (snd (setFilter v f vs n s))" "fs_generations (snd (setFilter v f vs n s)) = fs_generations s"
    "fs_providers (snd (setFilter v f vs n s)) = fs_providers s" "fs_pending (snd (setFilter v f vs n s)) = fs_pending s"
    "fs_snapshotIds (snd (setFilter v f vs n s)) = fs_snapshotIds s"
proof -
  note ok = filter_map_ok_ensure [OF assms]
  show "filters_inv (snd (setFilter v f vs n s))"
    using assms ok
    by (auto simp: setFilter_def Let_def split: option.split
        intro!: filters_inv_put filter_map_ok_delete filter_map_ok_set dest: canonical_again)
qed (simp_all add: setFilter_def Let_def split: option.split)

lemma clearFilter_inv:
  assumes "filters_inv s"
  shows "filters_inv (snd (clearFilter v f s))" "fs_generations (snd (clearFilter v f s)) = fs_generations s"
proof -
  have "filters_inv (put_filters i (jm_delete g m) s)" if "jm_get (fs_filters s) i = Some m" for i g m
    using filters_invD(6) [OF assms that] assms by (intro filters_inv_put filter_map_ok_delete) simp_all
  with assms show "filters_inv (snd (clearFilter v f s))"
    by (simp add: clearFilter_def Let_def split: option.split)
qed (simp add: clearFilter_def Let_def split: option.split)

lemma toFiniteNumber_finite: "toFiniteNumber v = Some a \<Longrightarrow> is_finite_num a"
  by (auto simp: toFiniteNumber_def split: if_splits)

lemma setRangeFilter_inv:
  assumes "filters_inv s"
  shows "filters_inv (snd (setRangeFilter v f a b c d s))"
    "fs_generations (snd (setRangeFilter v f a b c d s)) = fs_generations s"
proof -
  note ok = filter_map_ok_ensure [OF assms]
  have put: "filters_inv (put_filters i (if full then jm_delete g (ensureProviderFilters i s)
      else jm_set g (RangeFilter (num_min x y) (num_max x y)) (ensureProviderFilters i s)) s)"
    if "jm_has (fs_providers s) i" "canonicalField f = Some g" "toFiniteNumber a = Some x" "toFiniteNumber b = Some y"
    for i g x y full
    using num_min_max [OF toFiniteNumber_finite [OF that(3)] toFiniteNumber_finite [OF that(4)]]
      canonical_again [OF that(2)]
    by (intro filters_inv_put [OF assms that(1)]) (simp add: ok filter_map_ok_delete filter_map_ok_set)
  show "filters_inv (snd (setRangeFilter v f a b c d s))"
    using assms clearFilter_inv(1) [OF assms] put
    by (simp add: setRangeFilter_def Let_def split: option.split)
  show "fs_generations (snd (setRangeFilter v f a b c d s)) = fs_generations s"
    using clearFilter_inv(2) [OF assms]
    by (simp add: setRangeFilter_def Let_def split: option.split)
qed

lemma filters_inv_forget:
  assumes "filters_inv s"
  shows "filters_inv (s\<lparr>fs_filters := jm_delete i (fs_filters s)\<rparr>)"
  by (rule filters_invI) (use filters_invD [OF assms] in \<open>auto simp: provider_ok_def split: if_splits\<close>)

lemma clearProvider_inv:
  assumes "filters_inv s"
  shows "filters_inv (snd (clearProvider v s))" "fs_generations (snd (clearProvider v s)) = fs_generations s"
  using assms filters_inv_forget [OF assms]
  by (simp_all add: clearProvider_def split: option.split)

lemma filter_map_ok_supported: "filter_map_ok m \<Longrightarrow> filter_map_ok (supported_filters p m)"
proof -
  assume ok: "filter_map_ok m"
  have sub: "jm_ok (supported_filters p m)"
    using ok by (simp add: supported_filters_def filter_map_ok_def jm_ok_filter)
  have "jm_get m f = Some flt" if "jm_get (supported_filters p m) f = Some flt" for f flt
  proof -
    from that have "(f, flt) \<in> set m" by (auto simp: supported_filters_def dest: map_of_SomeD)
    with ok show ?thesis by (simp add: filter_map_ok_def jm_get_mem)
  qed
  with ok sub show ?thesis unfolding filter_map_ok_def by blast
qed

lemma sanitize_inv:
  assumes "filters_inv s"
  shows "filters_inv (sanitizeProviderFilters i s)"
proof -
  have "filters_inv (put_filters i (supported_filters p m) s)"
    if "jm_get (fs_providers s) i = Some p" "jm_get (fs_filters s) i = Some m" for p m
    using filters_invD(6) [OF assms that(2)] by (intro filters_inv_put [OF assms]) (simp_all add: filter_map_ok_supported)
  with assms show ?thesis by (simp add: sanitizeProviderFilters_def split: option.split)
qed

lemma sanitize_fields [simp]:
  "fs_providers (sanitizeProviderFilters i s) = fs_providers s" "fs_pending (sanitizeProviderFilters i s) = fs_pending s"
  "fs_generations (sanitizeProviderFilters i s) = fs_generations s"
  "fs_snapshotIds (sanitizeProviderFilters i s) = fs_snapshotIds s"
  by (simp_all add: sanitizeProviderFilters_def split: option.split)

lemma apply_default_inv:
  assumes "filters_inv s"
  shows "filters_inv (apply_default i d s) \<and> fs_generations (apply_default i d s) = fs_generations s \<and>
    fs_providers (apply_default i d s) = fs_providers s"
  using assms setFilter_inv [OF assms]
  by (simp add: apply_default_def Let_def split: option.split list.split)

lemma applyDefaultExcludedValues_inv:
  assumes "filters_inv s"
  shows "filters_inv (applyDefaultExcludedValues i ds s) \<and>
    fs_generations (applyDefaultExcludedValues i ds s) = fs_generations s \<and>
    fs_providers (applyDefaultExcludedValues i ds s) = fs_providers s"
  unfolding applyDefaultExcludedValues_def using assms
proof (induction ds arbitrary: s)
  case (Cons d ds)
  with apply_default_inv [OF Cons.prems, of i d] show ?case by (simp del: fun_upd_apply)
qed simp

lemma resetToDefaults_inv:
  assumes "filters_inv s"
  shows "filters_inv (snd (resetToDefaults env s)) \<and> fs_generations (snd (resetToDefaults env s)) = fs_generations s"
proof -
  let ?s1 = "s\<lparr>fs_filters := [], fs_pending := [], fs_snapshotIds := [], fs_applied := False\<rparr>"
  have 1: "filters_inv ?s1"
    by (rule filters_invI) (use filters_invD [OF assms] in \<open>simp_all add: provider_ok_def\<close>)
  have fold: "filters_inv t \<Longrightarrow>
      filters_inv (foldl (\<lambda>s p. applyDefaultExcludedValues (pv_id p) (pv_defaultExcludedValues p) s) t ps) \<and>
      fs_generations (foldl (\<lambda>s p. applyDefaultExcludedValues (pv_id p) (pv_defaultExcludedValues p) s) t ps) =
      fs_generations t" for t ps
  proof (induction ps arbitrary: t)
    case (Cons p ps)
    with applyDefaultExcludedValues_inv [OF Cons.prems] show ?case by simp
  qed simp
  from fold [OF 1, of "jm_values (fs_providers s)"] show ?thesis
    by (simp add: resetToDefaults_def Let_def)
qed

lemma retain_inv:
  assumes "filters_inv s" and "text_id i"
  shows "filters_inv (snd (retain_filter_state i s)) \<and>
    fs_generations (snd (retain_filter_state i s)) = fs_generations s \<and>
    fs_providers (snd (retain_filter_state i s)) = fs_providers s"
proof -
  let ?t = "snd (retain_filter_state i s)"
  note D = filters_invD [OF assms(1)]
  have eq: "fs_generations ?t = fs_generations s" "fs_providers ?t = fs_providers s"
    "fs_filters ?t = jm_delete i (fs_filters s)"
    by (simp_all add: retain_filter_state_def Let_def)
  have pend: "fs_pending ?t = fs_pending s \<or> fs_pending ?t = jm_delete i (fs_pending s) \<or>
      fs_pending ?t = jm_set i [] (fs_pending s) \<and> \<not> jm_has (fs_providers s) i"
    by (simp add: retain_filter_state_def Let_def)
  have ids: "list_all text_id (fs_snapshotIds ?t)"
    using D(8) assms(2) by (simp add: retain_filter_state_def Let_def)
  have "filters_inv ?t"
  proof (rule filters_invI)
    show "jm_ok (fs_pending ?t)" using pend D(3) by auto
    show "\<not> jm_has (fs_providers ?t) j \<and> text_id j \<and> filter_map_ok m" if "jm_get (fs_pending ?t) j = Some m" for j m
      using pend that D(7) [of j m] assms(2) unfolding eq by (auto split: if_splits)
  qed (use D ids in \<open>auto simp: eq provider_ok_def split: if_splits\<close>)
  with eq show ?thesis by simp
qed

lemma clear_each_inv:
  assumes "filters_inv s" and "list_all text_id ids"
  shows "filters_inv (snd (clear_each ids c s)) \<and> fs_generations (snd (clear_each ids c s)) = fs_generations s"
  using assms
proof (induction ids c s rule: clear_each.induct)
  case (2 i ids c s)
  obtain c' s' where r: "retain_filter_state i s = (c', s')" by fastforce
  with retain_inv [OF 2(2), of i] 2(1) [OF r [symmetric]] 2(3) show ?case by simp
qed simp

lemma key_get: "k \<in> set (jm_keys m) \<Longrightarrow> \<exists>v. jm_get m k = Some v"
  using jm_has_keys [of m k] by auto

lemma known_ids_text:
  assumes "filters_inv s"
  shows "list_all text_id (known_provider_ids s)"
proof -
  note D = filters_invD [OF assms]
  have p: "text_id i" if "i \<in> set (jm_keys (fs_providers s))" for i
    using key_get [OF that] D(4) by (auto simp: provider_ok_def)
  moreover have "text_id i" if "i \<in> set (jm_keys (fs_filters s))" for i
    using key_get [OF that] D(6) [of i] p [of i] jm_has_keys [of "fs_providers s" i] by blast
  moreover have "text_id i" if "i \<in> set (jm_keys (fs_pending s))" for i
    using key_get [OF that] D(7) [of i] by blast
  ultimately show ?thesis using D(8) unfolding known_provider_ids_def list_all_iff set_set_of_list by (simp only: set_append Un_iff) blast
qed

lemma clearAll_inv:
  assumes "filters_inv s"
  shows "filters_inv (snd (clearAll s)) \<and> fs_generations (snd (clearAll s)) = fs_generations s"
proof -
  obtain c t where r: "clear_each (known_provider_ids s) False s = (c, t)" by fastforce
  have t: "filters_inv t \<and> fs_generations t = fs_generations s"
    using clear_each_inv [OF assms known_ids_text [OF assms], of False] r by simp
  then have "filters_inv (t\<lparr>fs_applied := True\<rparr>)"
    by (auto simp: filters_inv_def provider_ok_def)
  with t r show ?thesis by (simp add: clearAll_def Let_def)
qed

lemma applied_inv:
  assumes "filters_inv s"
  shows "filters_inv (s\<lparr>fs_snapshotIds := ids, fs_applied := b\<rparr>) = list_all text_id ids"
  using assms by (auto simp: filters_inv_def provider_ok_def)

lemma start_filters_inv:
  assumes "filters_inv (s\<lparr>fs_pending := jm_delete i (fs_pending s)\<rparr>)" and "jm_has (fs_providers s) i"
    and "\<And>m. jm_get (fs_pending s) i = Some m \<Longrightarrow> filter_map_ok m"
  shows "filters_inv (sanitizeProviderFilters i (start_filters i p s)) \<and>
    fs_generations (sanitizeProviderFilters i (start_filters i p s)) = fs_generations s"
proof (cases "jm_get (fs_pending s) i")
  case (Some m)
  let ?t = "s\<lparr>fs_pending := jm_delete i (fs_pending s)\<rparr>"
  obtain q where q: "jm_get (fs_providers s) i = Some q" using assms(2) by auto
  have "filters_inv (put_filters i (supported_filters q m) ?t)"
    using assms Some by (intro filters_inv_put [OF assms(1)] filter_map_ok_supported) simp_all
  moreover have "sanitizeProviderFilters i (start_filters i p s) = put_filters i (supported_filters q m) ?t"
    using Some q by (simp add: start_filters_def sanitizeProviderFilters_def put_filters_def jm_delete_set)
  ultimately show ?thesis by simp
next
  case None
  then have "s\<lparr>fs_pending := jm_delete i (fs_pending s)\<rparr> = s" by (simp add: jm_delete_fresh)
  with assms(1) have "filters_inv s" by simp
  with None filters_inv_forget [OF this] applyDefaultExcludedValues_inv [OF this] show ?thesis
    by (simp add: start_filters_def sanitize_inv)
qed

lemma register_fields [simp]:
  "fs_providers (register_provider i p s) = jm_set i p (fs_providers s)"
  "fs_generations (register_provider i p s) = jm_set i (pv_generation p) (fs_generations s)"
  "fs_filters (register_provider i p s) = fs_filters s" "fs_pending (register_provider i p s) = fs_pending s"
  "fs_snapshotIds (register_provider i p s) = fs_snapshotIds s" "fs_applied (register_provider i p s) = fs_applied s"
  by (simp_all add: register_provider_def)

lemma make_provider_fields [simp]:
  "pv_id (make_provider env q i) = i" "pv_generation (make_provider env q i) = normalizeGeneration (pi_generation q)"
  by (simp_all add: make_provider_def Let_def)

lemma register_inv:
  assumes "filters_inv s" and "text_id i" and "pv_id p = i"
    and "is_finite_num (pv_generation p) \<and> num_leq (JInt 0) (pv_generation p)"
  shows "filters_inv ((register_provider i p s)\<lparr>fs_pending := jm_delete i (fs_pending s)\<rparr>)"
proof -
  note D = filters_invD [OF assms(1)]
  show ?thesis
  proof (rule filters_invI)
    fix j m
    assume "jm_get (fs_pending ((register_provider i p s)\<lparr>fs_pending := jm_delete i (fs_pending s)\<rparr>)) j = Some m"
    then have "j \<noteq> i" "jm_get (fs_pending s) j = Some m" by (simp_all split: if_splits)
    with D(7) [of j m] show "\<not> jm_has (fs_providers ((register_provider i p s)\<lparr>fs_pending := jm_delete i (fs_pending s)\<rparr>)) j \<and>
        text_id j \<and> filter_map_ok m" by simp
  next
    fix j q
    assume "jm_get (fs_providers ((register_provider i p s)\<lparr>fs_pending := jm_delete i (fs_pending s)\<rparr>)) j = Some q"
    with assms(2,3) D(4) [of j q] show "provider_ok ((register_provider i p s)\<lparr>fs_pending := jm_delete i (fs_pending s)\<rparr>) j q"
      by (auto simp: provider_ok_def split: if_splits)
  next
    fix j m
    assume "jm_get (fs_filters ((register_provider i p s)\<lparr>fs_pending := jm_delete i (fs_pending s)\<rparr>)) j = Some m"
    with D(6) [of j m] show "jm_has (fs_providers ((register_provider i p s)\<lparr>fs_pending := jm_delete i (fs_pending s)\<rparr>)) j \<and>
        m \<noteq> [] \<and> filter_map_ok m" by simp
  next
    fix j g
    assume "jm_get (fs_generations ((register_provider i p s)\<lparr>fs_pending := jm_delete i (fs_pending s)\<rparr>)) j = Some g"
    with assms(4) D(5) [of j g] show "is_finite_num g \<and> num_leq (JInt 0) g" by (simp split: if_splits)
  qed (use D in simp_all)
qed

lemma replaceProvider_inv:
  assumes "filters_inv s" and "replaceProvider env q s = Inr (r, s')"
  shows "filters_inv s' \<and> (r = Stale \<longrightarrow> s' = s) \<and>
    (r = Published \<longrightarrow> (\<exists>i. opt_text (pi_providerId q) = Some i \<and>
       \<not> is_stale i (normalizeGeneration (pi_generation q)) s \<and> jm_has (fs_providers s') i \<and>
       fs_generations s' = jm_set i (normalizeGeneration (pi_generation q)) (fs_generations s)))"
proof -
  from assms(2) obtain i where i: "opt_text (pi_providerId q) = Some i"
    by (auto simp: replaceProvider_def split: option.splits)
  let ?g = "normalizeGeneration (pi_generation q)"
  show ?thesis
  proof (cases "is_stale i ?g s")
    case True
    with assms i show ?thesis by (auto simp: replaceProvider_def Let_def)
  next
    case False
    let ?s1 = "register_provider i (make_provider env q i) s"
    have 1: "filters_inv (?s1\<lparr>fs_pending := jm_delete i (fs_pending ?s1)\<rparr>)"
      using register_inv [OF assms(1) opt_text_id [OF i], of "make_provider env q i"]
      by (simp add: normalizeGeneration_ok)
    let ?s2 = "if \<not> jm_has (fs_providers s) i then start_filters i (make_provider env q i) ?s1 else ?s1"
    have 2: "filters_inv (sanitizeProviderFilters i ?s2) \<and> fs_generations (sanitizeProviderFilters i ?s2) = fs_generations ?s1 \<and>
        jm_has (fs_providers (sanitizeProviderFilters i ?s2)) i"
    proof (cases "jm_has (fs_providers s) i")
      case True
      then have "jm_get (fs_pending s) i = None"
        using filters_invD(7) [OF assms(1), of i] by (cases "jm_get (fs_pending s) i") auto
      then have "?s1\<lparr>fs_pending := jm_delete i (fs_pending ?s1)\<rparr> = ?s1" by (simp add: jm_delete_fresh)
      with 1 have "filters_inv ?s1" by simp
      with True show ?thesis by (simp add: sanitize_inv)
    next
      case False
      have "filters_inv (sanitizeProviderFilters i (start_filters i (make_provider env q i) ?s1)) \<and>
          fs_generations (sanitizeProviderFilters i (start_filters i (make_provider env q i) ?s1)) = fs_generations ?s1"
        using filters_invD(7) [OF assms(1), of i] by (intro start_filters_inv [OF 1]) simp_all
      moreover have "fs_providers (start_filters i (make_provider env q i) ?s1) = fs_providers ?s1"
      proof -
        have "fs_providers (applyDefaultExcludedValues i ds t) = fs_providers t" for ds t
          unfolding applyDefaultExcludedValues_def
        proof (induction ds arbitrary: t)
          case (Cons d ds)
          have "fs_providers (apply_default i d t) = fs_providers t"
            by (simp add: apply_default_def setFilter_def Let_def split: option.split list.split)
          with Cons show ?case by simp
        qed simp
        then show ?thesis by (simp add: start_filters_def split: option.split)
      qed
      ultimately show ?thesis using False by simp
    qed
    have "replaceProvider env q s = Inr (Published, emit_filters
        (ProviderEvent (if \<not> jm_has (fs_providers s) i then ''provider-added'' else ''provider-replaced'') i ?g)
        (sanitizeProviderFilters i ?s2))"
      using i False by (simp add: replaceProvider_def Let_def)
    with assms(2) have "r = Published" "s' = emit_filters
        (ProviderEvent (if \<not> jm_has (fs_providers s) i then ''provider-added'' else ''provider-replaced'') i ?g)
        (sanitizeProviderFilters i ?s2)" by (simp_all only: sum.inject prod.inject)
    with 2 i False show ?thesis by (simp only: filters_inv_emit emit_filters_fields) simp
  qed
qed

lemma set_generation_inv:
  assumes "filters_inv s" and "is_finite_num g \<and> num_leq (JInt 0) g"
    and "fs_generations t = jm_set i g (fs_generations s)" and "fs_providers t = jm_delete i (fs_providers s)"
    and "fs_filters t = jm_delete i (fs_filters s)" and "list_all text_id (fs_snapshotIds t)"
    and "jm_ok (fs_pending t)"
    and "\<And>j m. jm_get (fs_pending t) j = Some m \<Longrightarrow> j = i \<and> text_id i \<and> filter_map_ok m \<or> jm_get (fs_pending s) j = Some m"
  shows "filters_inv t"
proof (rule filters_invI)
  note D = filters_invD [OF assms(1)]
  show "provider_ok t j p" if "jm_get (fs_providers t) j = Some p" for j p
    using that D(4) [of j p] assms(3,4) by (auto simp: provider_ok_def split: if_splits)
  show "is_finite_num h \<and> num_leq (JInt 0) h" if "jm_get (fs_generations t) j = Some h" for j h
    using that D(5) [of j h] assms(2,3) by (auto split: if_splits)
  show "jm_has (fs_providers t) j \<and> m \<noteq> [] \<and> filter_map_ok m" if "jm_get (fs_filters t) j = Some m" for j m
    using that D(6) [of j m] assms(4,5) by (auto split: if_splits)
  show "\<not> jm_has (fs_providers t) j \<and> text_id j \<and> filter_map_ok m" if "jm_get (fs_pending t) j = Some m" for j m
    using assms(8) [OF that] D(7) [of j m] assms(4) by auto
qed (use assms filters_invD(1,2) [OF assms(1)] in simp_all)

lemma removeProvider_inv:
  assumes "filters_inv s"
  shows "filters_inv (snd (snd (removeProvider v w s))) \<and>
    (case opt_text v of
       None \<Rightarrow> snd (snd (removeProvider v w s)) = s
     | Some i \<Rightarrow>
         if num_less (next_generation w i s) (latest_generation s i) then snd (snd (removeProvider v w s)) = s
         else fs_generations (snd (snd (removeProvider v w s))) = jm_set i (next_generation w i s) (fs_generations s))"
proof (cases "opt_text v")
  case (Some i)
  let ?g = "next_generation w i s"
  let ?s1 = "snd (drop_filter_state i (s\<lparr>fs_generations := jm_set i ?g (fs_generations s),
     fs_providers := jm_delete i (fs_providers s)\<rparr>))"
  note D = filters_invD [OF assms]
  have "filters_inv ?s1"
    by (rule set_generation_inv [OF assms next_generation_ok [OF assms], of ?s1 i w i])
      (use D(3,8) in \<open>auto simp: drop_filter_state_def list_all_iff split: if_splits\<close>)
  moreover have "fs_generations ?s1 = jm_set i ?g (fs_generations s)" by (simp add: drop_filter_state_def)
  ultimately show ?thesis using Some assms
    by (simp add: removeProvider_def Let_def split_beta)
qed (use assms in \<open>simp add: removeProvider_def\<close>)

lemma suspendProvider_inv:
  assumes "filters_inv s"
  shows "filters_inv (snd (snd (suspendProvider v w s))) \<and>
    (case opt_text v of
       None \<Rightarrow> snd (snd (suspendProvider v w s)) = s
     | Some i \<Rightarrow>
         if num_less (next_generation w i s) (latest_generation s i) then snd (snd (suspendProvider v w s)) = s
         else fs_generations (snd (snd (suspendProvider v w s))) = jm_set i (next_generation w i s) (fs_generations s))"
proof (cases "opt_text v")
  case (Some i)
  let ?g = "next_generation w i s"
  note D = filters_invD [OF assms]
  note gen = next_generation_ok [OF assms, of w i]
  show ?thesis
  proof (cases "jm_has (fs_providers s) i")
    case True
    let ?t = "s\<lparr>fs_generations := jm_set i ?g (fs_generations s), fs_providers := jm_delete i (fs_providers s),
        fs_filters := jm_delete i (fs_filters s), fs_pending := jm_set i (ensureProviderFilters i s) (fs_pending s),
        fs_snapshotIds := (if i \<in> set (fs_snapshotIds s) then fs_snapshotIds s else fs_snapshotIds s @ [i])\<rparr>"
    have "filters_inv ?t"
      by (rule set_generation_inv [OF assms gen, of ?t i])
        (use D(3,8) opt_text_id [OF Some] filter_map_ok_ensure [OF assms] in \<open>auto split: if_splits\<close>)
    with True Some assms show ?thesis
      by (simp add: suspendProvider_def Let_def)
  next
    case False
    then have absent: "jm_get (fs_providers s) i = None" by simp
    moreover from absent have "jm_get (fs_filters s) i = None"
      using D(6) [of i] by (cases "jm_get (fs_filters s) i") auto
    ultimately have same: "jm_delete i (fs_providers s) = fs_providers s" "jm_delete i (fs_filters s) = fs_filters s"
      by (simp_all only: jm_delete_fresh)
    have "filters_inv (s\<lparr>fs_generations := jm_set i ?g (fs_generations s)\<rparr>)"
      by (rule set_generation_inv [OF assms gen, of _ i]) (use D(3,8) same in simp_all)
    with False Some assms show ?thesis
      by (simp add: suspendProvider_def Let_def)
  qed
qed (use assms in \<open>simp add: suspendProvider_def\<close>)

lemma deserialize_ok:
  assumes "filter_map_ok m"
  shows "filter_map_ok (deserializeFilterEntries m es)"
  using assms
proof (induction m es rule: deserializeFilterEntries.induct)
  case (2 m e es)
  have "filter_map_ok (jm_set f flt m)" if d: "deserialize_filter e = Some (f, flt)" for f flt
  proof (rule filter_map_ok_set [OF 2(2)])
    from d show "canonicalField (Str f) = Some f"
      by (auto simp: deserialize_filter_def split: option.splits if_splits dest: canonical_again)
    from d show "filter_ok flt"
      by (auto simp: deserialize_filter_def num_min_max toFiniteNumber_finite split: option.splits if_splits)
  qed
  with 2 show ?case by (auto split: option.split)
qed simp

lemma apply_entry_inv:
  assumes "filters_inv s" and "text_id (fst e)"
  shows "filters_inv (apply_entry e s) \<and> fs_generations (apply_entry e s) = fs_generations s \<and>
    fs_providers (apply_entry e s) = fs_providers s"
proof -
  obtain i fs where e: "e = (i, fs)" by fastforce
  let ?m = "deserializeFilterEntries [] fs"
  let ?ids = "if i \<in> set (fs_snapshotIds s) then fs_snapshotIds s else fs_snapshotIds s @ [i]"
  let ?s1 = "s\<lparr>fs_snapshotIds := ?ids\<rparr>"
  note D = filters_invD [OF assms(1)]
  have m: "filter_map_ok ?m" by (rule deserialize_ok) simp
  have "list_all text_id ?ids" using D(8) assms(2) e by simp
  then have 1: "filters_inv ?s1" using applied_inv [OF assms(1), where ids = "?ids" and b = "fs_applied s"] by simp
  show ?thesis
  proof (cases "jm_has (fs_providers s) i")
    case True
    have "filters_inv (if ?m = [] then ?s1 else put_filters i ?m ?s1)"
      using filters_inv_put [OF 1 _ m, of i] True 1 by simp
    moreover have "apply_entry e s = sanitizeProviderFilters i (if ?m = [] then ?s1 else put_filters i ?m ?s1)"
      using True e by (simp add: apply_entry_def Let_def put_filters_def)
    ultimately show ?thesis by (simp only:) (simp add: sanitize_inv)
  next
    case False
    have "filters_inv (?s1\<lparr>fs_pending := jm_set i ?m (fs_pending ?s1)\<rparr>)"
      by (rule filters_invI)
        (use filters_invD [OF 1] m False assms(2) e in \<open>auto simp: provider_ok_def split: if_splits\<close>)
    with False e show ?thesis by (simp add: apply_entry_def Let_def)
  qed
qed

lemma snapshot_entries_ids:
  "snapshot_entries acc es = Some r \<Longrightarrow> list_all (text_id \<circ> fst) acc \<Longrightarrow> list_all (text_id \<circ> fst) r"
  by (induction acc es rule: snapshot_entries.induct) (auto split: option.splits if_splits dest: opt_text_id)

lemma apply_entries_inv:
  assumes "filters_inv s" and "list_all (text_id \<circ> fst) es"
  shows "filters_inv (foldl (\<lambda>s e. apply_entry e s) s es) \<and>
    fs_generations (foldl (\<lambda>s e. apply_entry e s) s es) = fs_generations s \<and>
    fs_providers (foldl (\<lambda>s e. apply_entry e s) s es) = fs_providers s"
  using assms
proof (induction es arbitrary: s)
  case (Cons e es)
  with apply_entry_inv [OF Cons.prems(1), of e] show ?case by simp
qed simp

definition cleared_for_snapshot :: "filter_env \<Rightarrow> nat \<Rightarrow> filter_state \<Rightarrow> filter_state" where
  "cleared_for_snapshot env version s =
     s\<lparr>fs_pending := [], fs_snapshotIds := [], fs_applied := True,
       fs_filters := (if version = 2 then [] else jm_delete (fe_compatibilityProviderId env) (fs_filters s))\<rparr>"

lemma cleared_inv: "filters_inv s \<Longrightarrow> filters_inv (cleared_for_snapshot env n s)"
  by (rule filters_invI)
    (use filters_invD [of s] in \<open>auto simp: cleared_for_snapshot_def provider_ok_def split: if_splits\<close>)

lemma applyFilterSnapshot_inv:
  assumes "filters_inv s" and "text_id (fe_compatibilityProviderId env)"
  shows "filters_inv (snd (applyFilterSnapshot env v s)) \<and>
    fs_generations (snd (applyFilterSnapshot env v s)) = fs_generations s"
proof (cases "normalizeFilterSnapshot env v")
  case (Some r)
  then obtain n es where n: "normalizeFilterSnapshot env v = Some (n, es)" by (cases r) auto
  then have "list_all (text_id \<circ> fst) es"
    using assms(2) snapshot_entries_ids [of "[]"]
    by (auto simp: normalizeFilterSnapshot_def split: if_splits)
  from apply_entries_inv [OF cleared_inv [OF assms(1)] this, of env n] n show ?thesis
    by (simp add: applyFilterSnapshot_def cleared_for_snapshot_def Let_def)
qed (use assms in \<open>simp add: applyFilterSnapshot_def\<close>)

end
