(* ===== verification/AttributeFilterProperties.thy ===== *)
theory AttributeFilterProperties
  imports AttributeFilterLaws
begin

text \<open>
  The properties of \<open>attributeFilterService.js\<close>: a late provider is refused, and a snapshot carries the filters of any
  state of the service to any other.
\<close>

section \<open>Reachable states\<close>

text \<open>The service is created with a provider id for old snapshots that is not blank.\<close>

lemma filter_step_inv:
  assumes "filters_inv s" and "text_id (fe_compatibilityProviderId env)"
  shows "filters_inv (filter_step env op s)"
proof (cases op)
  case (Replace q)
  with assms replaceProvider_inv [OF assms(1), of env q] show ?thesis
    by (simp split: sum.split prod.split)
qed (use assms in \<open>simp_all add: removeProvider_inv suspendProvider_inv setFilter_inv setRangeFilter_inv
       clearFilter_inv clearProvider_inv clearAll_inv resetToDefaults_inv applyFilterSnapshot_inv\<close>)

lemma initial_filters_inv: "filters_inv initial_filters"
  by (simp add: filters_inv_def initial_filters_def)

lemma filter_reachable_inv:
  "filter_reachable env s \<Longrightarrow> text_id (fe_compatibilityProviderId env) \<Longrightarrow> filters_inv s"
  by (induction rule: filter_reachable.induct) (simp_all add: initial_filters_inv filter_step_inv)

section \<open>Generations\<close>

definition newer :: "filter_state \<Rightarrow> filter_state \<Rightarrow> bool" where
  "newer s t = (\<forall>i. jm_has (fs_generations s) i \<longrightarrow>
     jm_has (fs_generations t) i \<and> num_leq (latest_generation s i) (latest_generation t i))"

lemma newer_same: "filters_inv s \<Longrightarrow> filters_inv t \<Longrightarrow> fs_generations t = fs_generations s \<Longrightarrow> newer s t"
  by (simp add: newer_def latest_generation_inv num_leq_refl filters_invD(5) split: option.split)

lemma newer_set:
  assumes "filters_inv s" and "filters_inv t" and "fs_generations t = jm_set i g (fs_generations s)"
    and "num_leq (latest_generation s i) g"
  shows "newer s t"
  using assms filters_invD(5) [OF assms(1)]
  by (auto simp: newer_def latest_generation_inv num_leq_refl split: option.split)

lemma newer_trans:
  assumes "newer s t" and "newer t u" and "filters_inv s" and "filters_inv t" and "filters_inv u"
  shows "newer s u"
  unfolding newer_def
proof (intro allI impI)
  fix i
  assume "jm_has (fs_generations s) i"
  with assms(1,2) show "jm_has (fs_generations u) i \<and> num_leq (latest_generation s i) (latest_generation u i)"
    unfolding newer_def
    by (meson num_leq_trans latest_generation_ok [OF assms(3)] latest_generation_ok [OF assms(4)] latest_generation_ok [OF assms(5)])
qed

lemma filter_step_newer:
  assumes "filters_inv s" and "text_id (fe_compatibilityProviderId env)"
  shows "newer s (filter_step env op s)"
proof -
  note inv = filter_step_inv [OF assms, of op]
  have late: "newer s (filter_step env op s)"
    if "case opt_text v of None \<Rightarrow> filter_step env op s = s
        | Some i \<Rightarrow> if num_less (next_generation w i s) (latest_generation s i) then filter_step env op s = s
          else fs_generations (filter_step env op s) = jm_set i (next_generation w i s) (fs_generations s)" for v w
  proof (cases "filter_step env op s = s")
    case True
    with assms(1) show ?thesis by (simp add: newer_same)
  next
    case False
    with that obtain i where i: "\<not> num_less (next_generation w i s) (latest_generation s i)"
      "fs_generations (filter_step env op s) = jm_set i (next_generation w i s) (fs_generations s)"
      by (auto split: option.splits if_splits)
    from i(1) have "num_leq (latest_generation s i) (next_generation w i s)"
      using next_generation_ok [OF assms(1)] latest_generation_ok [OF assms(1)] by (blast intro: not_num_less)
    then show ?thesis by (rule newer_set [OF assms(1) inv i(2)])
  qed
  show ?thesis
  proof (cases op)
    case (Replace q)
    show ?thesis
    proof (cases "replaceProvider env q s")
      case (Inl e)
      with Replace assms(1) show ?thesis by (simp add: newer_same)
    next
      case (Inr p)
      then obtain r t where r: "replaceProvider env q s = Inr (r, t)" by (cases p) auto
      note R = replaceProvider_inv [OF assms(1) r]
      show ?thesis
      proof (cases r)
        case Stale
        with R r Replace assms(1) show ?thesis by (simp add: newer_same)
      next
        case Published
        with R obtain i where i: "\<not> is_stale i (normalizeGeneration (pi_generation q)) s"
          "fs_generations t = jm_set i (normalizeGeneration (pi_generation q)) (fs_generations s)" by auto
        from i(1) have "num_leq (latest_generation s i) (normalizeGeneration (pi_generation q))"
          using normalizeGeneration_ok filters_invD(5) [OF assms(1)]
          by (auto simp: is_stale_def latest_generation_inv [OF assms(1)] intro: not_num_less split: option.splits)
        with newer_set [OF assms(1) _ i(2)] R r Replace show ?thesis by simp
      qed
    qed
  next
    case (Remove v w)
    show ?thesis
      by (rule late [where v = v and w = w]) 
        (unfold Remove filter_step.simps, rule conjunct2 [OF removeProvider_inv [OF assms(1)]])
  next
    case (Suspend v w)
    show ?thesis
      by (rule late [where v = v and w = w]) 
        (unfold Suspend filter_step.simps, rule conjunct2 [OF suspendProvider_inv [OF assms(1)]])
  qed (use assms inv in \<open>auto intro!: newer_same simp: setFilter_inv setRangeFilter_inv clearFilter_inv clearProvider_inv
         clearAll_inv resetToDefaults_inv applyFilterSnapshot_inv\<close>)
qed

lemma filter_steps:
  assumes "filters_inv s" and "text_id (fe_compatibilityProviderId env)"
  shows "filters_inv (fold (filter_step env) ops s) \<and> newer s (fold (filter_step env) ops s)"
  using assms(1)
proof (induction ops arbitrary: s)
  case Nil
  then show ?case by (simp add: newer_same)
next
  case (Cons op ops)
  note inv = filter_step_inv [OF Cons.prems assms(2), of op]
  from Cons.IH [OF inv] newer_trans [OF filter_step_newer [OF Cons.prems assms(2)] _ Cons.prems inv]
  show ?case by simp
qed

text \<open>
  C37. A late provider never replaces a newer one: once a generation of a provider is known, whatever happens afterwards, a
  provider of an older generation is refused and changes nothing, and so is one of the same generation after the provider was
  removed or suspended. Any other provider with an id is published with its generation.
\<close>

theorem late_provider_refused:
  assumes "filter_reachable env s" and "text_id (fe_compatibilityProviderId env)"
    and "opt_text (pi_providerId q) = Some i" and "getProviderGeneration (Str i) s = Some l"
    and "g = normalizeGeneration (pi_generation q)" and "t = fold (filter_step env) ops s"
  shows "(num_less g l \<longrightarrow> replaceProvider env q t = Inr (Stale, t)) \<and>
    (num_leq g l \<and> \<not> jm_has (fs_providers t) i \<longrightarrow> replaceProvider env q t = Inr (Stale, t)) \<and>
    (num_leq (latest_generation t i) g \<and> (jm_has (fs_providers t) i \<or> \<not> num_leq g (latest_generation t i)) \<longrightarrow>
       (\<exists>u. replaceProvider env q t = Inr (Published, u) \<and> getProviderGeneration (Str i) u = Some g \<and>
          map_option pv_generation (jm_get (fs_providers u) i) = Some g))"
proof -
  note inv = filter_reachable_inv [OF assms(1,2)]
  note T = filter_steps [OF inv assms(2), of ops, folded assms(6)]
  have tid: "opt_text (Str i) = Some i" using opt_text_of_id [OF opt_text_id [OF assms(3)]] .
  have l: "jm_get (fs_generations s) i = Some l"
    using assms(4) tid filters_invD(4) [OF inv, of i]
    by (auto simp: getProviderGeneration_def provider_ok_def split: option.splits)
  obtain k where k: "jm_get (fs_generations t) i = Some k" "num_leq l k"
    using T l latest_generation_inv [OF inv, of i] latest_generation_inv [of t i]
    by (fastforce simp: newer_def split: option.splits)
  have fin: "is_finite_num l" "is_finite_num k" "is_finite_num g"
    using filters_invD(5) [OF inv l] filters_invD(5) [of t, OF _ k(1)] T normalizeGeneration_ok assms(5) by auto
  have lt: "latest_generation t i = k" using latest_generation_inv [of t i] T k(1) by simp
  have stale: "is_stale i g t \<longleftrightarrow> num_less g k \<or> \<not> jm_has (fs_providers t) i \<and> num_leq g k \<and> num_leq k g"
    using k(1) by (simp add: is_stale_def)
  have refused: "replaceProvider env q t = Inr (Stale, t)" if "is_stale i g t"
    using that assms(3,5) by (simp add: replaceProvider_def)
  have "is_stale i g t" if "num_less g l"
  proof -
    have "num_leq g k" "\<not> num_leq k g"
      using that num_leq_trans [OF fin(3,1,2) _ k(2)] num_leq_trans [OF fin(1,2,3) k(2)] by (auto simp: num_less_def)
    then show ?thesis using stale by (simp add: num_less_def)
  qed
  moreover have "is_stale i g t" if "num_leq g l" "\<not> jm_has (fs_providers t) i"
  proof -
    have "num_leq g k" using num_leq_trans [OF fin(3,1,2) that(1) k(2)] .
    then show ?thesis using stale that(2) by (auto simp: num_less_def)
  qed
  moreover have "\<exists>u. replaceProvider env q t = Inr (Published, u) \<and> getProviderGeneration (Str i) u = Some g \<and>
      map_option pv_generation (jm_get (fs_providers u) i) = Some g"
    if "num_leq k g" "jm_has (fs_providers t) i \<or> \<not> num_leq g k"
  proof -
    have "\<not> is_stale i g t" using that stale by (auto simp: num_less_def)
    then obtain u where u: "replaceProvider env q t = Inr (Published, u)"
      using assms(3,5) by (auto simp: replaceProvider_def Let_def)
    from replaceProvider_inv [OF conjunct1 [OF T] u] assms(3,5)
    have "filters_inv u" "jm_has (fs_providers u) i" "jm_get (fs_generations u) i = Some g" by auto
    then show ?thesis using u tid filters_invD(4) [of u i]
      by (auto simp: getProviderGeneration_def provider_ok_def)
  qed
  ultimately show ?thesis using refused lt by blast
qed

section \<open>Snapshots\<close>

text \<open>
  A filter read back from a snapshot: the texts of its values are normalised again, which changes none but
  the empty text.
\<close>

fun restored_filter :: "attribute_filter \<Rightarrow> attribute_filter" where
  "restored_filter (ValuesFilter vs) = ValuesFilter (set_of_list (map (normalizeFilterValue \<circ> Str) vs))"
| "restored_filter (RangeFilter a b) = RangeFilter a b"

definition restored_map :: "filter_map \<Rightarrow> filter_map" where
  "restored_map m = jm_map restored_filter m"

lemma set_of_list_distinct: "distinct xs \<Longrightarrow> set_of_list xs = xs"
  by (induction xs) (auto simp: filter_id_conv)

lemma restored_filter_same: "filter_ok (ValuesFilter vs) \<Longrightarrow> [] \<notin> set vs \<Longrightarrow> restored_filter (ValuesFilter vs) = ValuesFilter vs"
proof -
  assume a: "filter_ok (ValuesFilter vs)" "[] \<notin> set vs"
  have "map (normalizeFilterValue \<circ> Str) vs = vs"
    using a(2) by (intro map_idI) (auto simp: normalizeFilterValue_def isEmptyAttributeValue_def)
  with a(1) show ?thesis by (simp add: set_of_list_distinct)
qed

lemma deserialize_serialize:
  assumes "canonicalField (Str f) = Some f" and "filter_ok flt"
  shows "deserialize_filter (serialize_filter (f, flt)) = Some (f, restored_filter flt)"
    and "valid_field_entry (serialize_filter (f, flt))"
proof -
  have fin: "toFiniteNumber (JNum a) = Some a" if "is_finite_num a" for a
    using that by (simp add: toFiniteNumber_def isEmptyAttributeValue_def)
  have minmax: "num_min a b = a" "num_max a b = b" if "num_leq a b" for a b
    using that by (simp_all add: num_min_def num_max_def)
  show "deserialize_filter (serialize_filter (f, flt)) = Some (f, restored_filter flt)"
    using assms by (cases flt) (simp_all add: deserialize_filter_def serialize_filter_def fin minmax comp_def)
  show "valid_field_entry (serialize_filter (f, flt))"
    using assms by (cases flt) (simp_all add: valid_field_entry_def serialize_filter_def fin)
qed

lemma filter_map_okD: "filter_map_ok m \<Longrightarrow> (f, flt) \<in> set m \<Longrightarrow> canonicalField (Str f) = Some f \<and> filter_ok flt"
  by (simp add: filter_map_ok_def jm_get_mem)

lemma deserialize_map_from:
  assumes "jm_ok (acc @ m)" and "\<And>f flt. (f, flt) \<in> set m \<Longrightarrow> canonicalField (Str f) = Some f \<and> filter_ok flt"
  shows "deserializeFilterEntries acc (map serialize_filter m) = acc @ restored_map m"
  using assms
proof (induction m arbitrary: acc)
  case Nil
  then show ?case by (simp add: restored_map_def jm_map_def)
next
  case (Cons e m)
  obtain f flt where e: "e = (f, flt)" by fastforce
  have d: "deserialize_filter (serialize_filter e) = Some (f, restored_filter flt)"
    using Cons.prems(2) [of f flt] e deserialize_serialize(1) [of f flt] by simp
  have "jm_get acc f = None" using Cons.prems(1) e by (simp add: jm_ok_def map_of_eq_None_iff)
  then have "jm_set f (restored_filter flt) acc = acc @ [(f, restored_filter flt)]" by (rule jm_set_fresh)
  moreover have "jm_ok ((acc @ [(f, restored_filter flt)]) @ m)"
    using Cons.prems(1) e by (simp add: jm_ok_def)
  then have "deserializeFilterEntries (acc @ [(f, restored_filter flt)]) (map serialize_filter m) =
      (acc @ [(f, restored_filter flt)]) @ restored_map m"
    by (rule Cons.IH) (use Cons.prems(2) in auto)
  ultimately show ?case using d e by (simp add: restored_map_def jm_map_def)
qed

lemma deserialize_map:
  assumes "filter_map_ok m"
  shows "deserializeFilterEntries [] (map serialize_filter m) = restored_map m"
proof -
  have "jm_ok ([] @ m)" using assms by (simp add: filter_map_ok_def)
  then have "deserializeFilterEntries [] (map serialize_filter m) = [] @ restored_map m"
    by (rule deserialize_map_from) (rule filter_map_okD [OF assms])
  then show ?thesis by simp
qed

lemma serialize_valid:
  assumes "filter_map_ok m"
  shows "isValidSnapshotFieldEntries (serializeFilterMap m)"
proof -
  have "valid_field_entry (serialize_filter e)" if "e \<in> set m" for e
    using filter_map_okD [OF assms, of "fst e" "snd e"] that deserialize_serialize(2) [of "fst e" "snd e"] by simp
  then show ?thesis by (simp add: isValidSnapshotFieldEntries_def serializeFilterMap_def list_all_iff)
qed

lemma snapshot_entries_exact:
  assumes "distinct (map fst acc @ ids)" and "list_all text_id ids" and "\<And>i. i \<in> set ids \<Longrightarrow> filter_map_ok (f i)"
  shows "snapshot_entries acc (map (\<lambda>i. Obj [(''providerId'', Str i), (''fields'', serializeFilterMap (f i))]) ids) =
    Some (acc @ map (\<lambda>i. (i, map serialize_filter (f i))) ids)"
  using assms
proof (induction ids arbitrary: acc)
  case (Cons i ids)
  have "opt_text (Str i) = Some i" using Cons.prems(2) by (simp add: opt_text_of_id)
  moreover have "i \<notin> fst ` set acc" using Cons.prems(1) by simp
  moreover have "isValidSnapshotFieldEntries (serializeFilterMap (f i))"
    using Cons.prems(3) by (simp add: serialize_valid)
  ultimately show ?case
    using Cons.IH [of "acc @ [(i, map serialize_filter (f i))]"] Cons.prems
    by (simp add: serializeFilterMap_def)
qed simp

lemma snapshot_ids:
  assumes "filters_inv s"
  shows "distinct (getSnapshotProviderIds env s)"
    and "i \<in> set (getSnapshotProviderIds env s) \<longleftrightarrow> jm_has (fs_providers s) i \<or> jm_has (fs_pending s) i"
    and "list_all text_id (getSnapshotProviderIds env s)"
proof -
  note D = filters_invD [OF assms]
  have keys: "map pv_id (jm_values (fs_providers s)) = jm_keys (fs_providers s)"
  proof -
    have "pv_id p = k" if "(k, p) \<in> set (fs_providers s)" for k p
      using D(4) [of k p] that by (simp add: jm_get_mem [OF D(1)] provider_ok_def)
    then show ?thesis by (auto simp: comp_def)
  qed
  have layers: "set (getLayerIds env s) = set (jm_keys (fs_providers s))" "distinct (getLayerIds env s)"
  proof -
    have "set (getLayerIds env s) = set (map pv_id (jm_values (fs_providers s)))"
      by (simp only: getLayerIds_def set_map set_sort_by)
    then show "set (getLayerIds env s) = set (jm_keys (fs_providers s))" by (simp only: keys)
    have "distinct (map pv_id (jm_values (fs_providers s)))" using D(1) unfolding keys by (simp add: jm_ok_def)
    then show "distinct (getLayerIds env s)" by (simp only: getLayerIds_def distinct_sort_by)
  qed
  let ?rest = "filter (\<lambda>i. \<not> jm_has (fs_providers s) i) (jm_keys (fs_pending s))"
  have rest: "distinct (sort_by (fe_collate env) ?rest)"
    using distinct_sort_by [of "\<lambda>x. x" "fe_collate env" ?rest] D(3) by (simp add: jm_ok_def)
  have "set (getLayerIds env s) \<inter> set (sort_by (fe_collate env) ?rest) = {}"
    unfolding layers(1) set_sort_by set_filter using jm_has_keys [of "fs_providers s"] by blast
  with layers(2) rest show "distinct (getSnapshotProviderIds env s)"
    unfolding getSnapshotProviderIds_def distinct_append by blast
  have mem: "i \<in> set (getSnapshotProviderIds env s) \<longleftrightarrow> jm_has (fs_providers s) i \<or> jm_has (fs_pending s) i" for i
    unfolding getSnapshotProviderIds_def set_append set_sort_by Un_iff layers(1) set_filter mem_Collect_eq
    using jm_has_keys [of "fs_providers s" i] jm_has_keys [of "fs_pending s" i] by blast
  then show "i \<in> set (getSnapshotProviderIds env s) \<longleftrightarrow> jm_has (fs_providers s) i \<or> jm_has (fs_pending s) i" .
  show "list_all text_id (getSnapshotProviderIds env s)"
    unfolding list_all_iff
  proof
    fix j
    assume "j \<in> set (getSnapshotProviderIds env s)"
    then consider p where "jm_get (fs_providers s) j = Some p" | m where "jm_get (fs_pending s) j = Some m"
      using mem by blast
    then show "text_id j" using D(4,7) by cases (auto simp: provider_ok_def)
  qed
qed

lemma saved_filters_ok: "filters_inv s \<Longrightarrow> filter_map_ok (saved_filters i s)"
  by (auto simp: saved_filters_def split: option.split dest: filters_invD(6,7))

text \<open>What a provider of the state keeps of the filters stored for it.\<close>

definition kept_filters :: "filter_state \<Rightarrow> string \<Rightarrow> filter_map \<Rightarrow> filter_map option" where
  "kept_filters s i m =
     (case jm_get (fs_providers s) i of
        None \<Rightarrow> None
      | Some p \<Rightarrow> if supported_filters p m = [] then None else Some (supported_filters p m))"

lemma apply_entry_exact:
  assumes "jm_get (fs_filters s) i = None"
  shows "fs_providers (apply_entry (i, fs) s) = fs_providers s"
    "jm_get (fs_filters (apply_entry (i, fs) s)) =
       (jm_get (fs_filters s))(i := kept_filters s i (deserializeFilterEntries [] fs))"
    "jm_get (fs_pending (apply_entry (i, fs) s)) =
       (jm_get (fs_pending s))(i := if jm_has (fs_providers s) i then jm_get (fs_pending s) i
          else Some (deserializeFilterEntries [] fs))"
proof -
  let ?m = "deserializeFilterEntries [] fs"
  show "fs_providers (apply_entry (i, fs) s) = fs_providers s" by (simp add: apply_entry_def Let_def)
  show "jm_get (fs_pending (apply_entry (i, fs) s)) =
       (jm_get (fs_pending s))(i := if jm_has (fs_providers s) i then jm_get (fs_pending s) i else Some ?m)"
    by (auto simp: apply_entry_def Let_def fun_eq_iff)
  show "jm_get (fs_filters (apply_entry (i, fs) s)) = (jm_get (fs_filters s))(i := kept_filters s i ?m)"
  proof (cases "jm_get (fs_providers s) i")
    case None
    with assms show ?thesis by (auto simp: apply_entry_def Let_def kept_filters_def fun_eq_iff)
  next
    case (Some p)
    have sup: "supported_filters p [] = []" by (simp add: supported_filters_def)
    from Some assms sup show ?thesis
      by (auto simp: apply_entry_def Let_def kept_filters_def sanitizeProviderFilters_def fun_eq_iff split: option.splits)
  qed
qed

lemma apply_entries_exact:
  assumes "distinct (map fst es)" and "\<And>i. i \<in> set (map fst es) \<Longrightarrow> jm_get (fs_filters s) i = None"
  shows "fs_providers (foldl (\<lambda>s e. apply_entry e s) s es) = fs_providers s \<and>
    jm_get (fs_filters (foldl (\<lambda>s e. apply_entry e s) s es)) j =
      (case map_of es j of None \<Rightarrow> jm_get (fs_filters s) j
       | Some fs \<Rightarrow> kept_filters s j (deserializeFilterEntries [] fs)) \<and>
    jm_get (fs_pending (foldl (\<lambda>s e. apply_entry e s) s es)) j =
      (case map_of es j of None \<Rightarrow> jm_get (fs_pending s) j
       | Some fs \<Rightarrow> if jm_has (fs_providers s) j then jm_get (fs_pending s) j else Some (deserializeFilterEntries [] fs))"
  using assms
proof (induction es arbitrary: s)
  case (Cons e es)
  obtain i fs where e: "e = (i, fs)" by fastforce
  note one = apply_entry_exact [of s i fs, OF Cons.prems(2) [of i, unfolded e, simplified]]
  have kept: "kept_filters (apply_entry (i, fs) s) = kept_filters s"
    using one(1) by (simp add: kept_filters_def fun_eq_iff)
  have fresh: "map_of es i = None" using Cons.prems(1) e by (simp add: map_of_eq_None_iff)
  have "jm_get (fs_filters (apply_entry (i, fs) s)) k = None" if "k \<in> set (map fst es)" for k
    using Cons.prems that e one(2) by auto
  note IH = Cons.IH [OF _ this, unfolded kept one(1)]
  have "distinct (map fst es)" using Cons.prems(1) by simp
  note IH = IH [OF this]
  show ?case
    using IH fresh one(2,3) e by (cases "j = i") (auto split: option.splits)
qed simp

text \<open>
  C38. A snapshot carries the filters of one state to any other. Applying the snapshot of \<open>s\<close> to a state \<open>t\<close> succeeds and leaves
  the providers of \<open>t\<close>; a provider of \<open>t\<close> then has exactly the filters \<open>s\<close> had for it, active or kept for later, on the
  fields it has values for, and none if \<open>s\<close> did not know it; for every other provider known to \<open>s\<close> the filters are kept for later.
\<close>

theorem snapshot_restores_filters:
  assumes "filter_reachable env s" and "filter_reachable env t" and "text_id (fe_compatibilityProviderId env)"
  shows "case applyFilterSnapshot env (getFilterSnapshot env s) t of (applied, u) \<Rightarrow>
    applied \<and> fs_providers u = fs_providers t \<and>
    (\<forall>i. let known = jm_has (fs_providers s) i \<or> jm_has (fs_pending s) i; m = restored_map (saved_filters i s)
         in jm_get (fs_filters u) i = (if known then kept_filters t i m else None) \<and>
            jm_get (fs_pending u) i = (if known \<and> \<not> jm_has (fs_providers t) i then Some m else None))"
proof -
  note inv = filter_reachable_inv [OF assms(1,3)]
  note ids = snapshot_ids [OF inv, where env = env]
  let ?ids = "getSnapshotProviderIds env s"
  let ?es = "map (\<lambda>i. (i, map serialize_filter (saved_filters i s))) ?ids"
  have norm: "normalizeFilterSnapshot env (getFilterSnapshot env s) = Some (2, ?es)"
    using snapshot_entries_exact [of "[]" ?ids "\<lambda>i. saved_filters i s"] ids(1,3) saved_filters_ok [OF inv]
    by (simp add: normalizeFilterSnapshot_def getFilterSnapshot_def)
  let ?t = "cleared_for_snapshot env 2 t"
  let ?u = "foldl (\<lambda>s e. apply_entry e s) ?t ?es"
  have empty: "jm_get (fs_filters ?t) i = None" "jm_get (fs_pending ?t) i = None" "fs_providers ?t = fs_providers t" for i
    by (simp_all add: cleared_for_snapshot_def)
  have look: "map_of ?es i = (if jm_has (fs_providers s) i \<or> jm_has (fs_pending s) i
      then Some (map serialize_filter (saved_filters i s)) else None)" for i
    using ids(2) [of i] by (simp add: map_of_map_restrict restrict_map_def)
  have kept: "kept_filters ?t = kept_filters t" by (simp add: kept_filters_def empty(3) fun_eq_iff)
  have fst: "map fst ?es = ?ids" by (simp add: comp_def)
  have u: "fs_providers ?u = fs_providers t"
    "jm_get (fs_filters ?u) i = (if jm_has (fs_providers s) i \<or> jm_has (fs_pending s) i
       then kept_filters t i (restored_map (saved_filters i s)) else None)"
    "jm_get (fs_pending ?u) i = (if (jm_has (fs_providers s) i \<or> jm_has (fs_pending s) i) \<and> \<not> jm_has (fs_providers t) i
       then Some (restored_map (saved_filters i s)) else None)" for i
    using apply_entries_exact [of ?es ?t i] ids(1) fst look [of i] kept empty deserialize_map [OF saved_filters_ok [OF inv]]
    by (simp_all split: option.splits if_splits)
  have "applyFilterSnapshot env (getFilterSnapshot env s) t = (True, emit_filters (FilterEvent ''snapshot-applied'' None) ?u)"
    by (simp add: applyFilterSnapshot_def norm cleared_for_snapshot_def Let_def)
  then show ?thesis using u by (simp add: Let_def)
qed

section \<open>Witnesses\<close>

definition sample_env :: filter_env where
  "sample_env =
     \<lparr>fe_statuses = Arr [], fe_usages = Arr [], fe_readers = (\<lambda>n g r. Undef),
      fe_collate = (\<lambda>a b. length a \<le> length b), fe_collate_numeric = (\<lambda>a b. length a \<le> length b),
      fe_compatibilityProviderId = ''aoi''\<rparr>"

definition sample_graphic :: "int \<Rightarrow> graphic" where
  "sample_graphic n = \<lparr>gr_value = Obj [(''attributes'', Obj [(''status'', JNum (JInt n))])], gr_layer = None\<rparr>"

definition sample_input :: "int \<Rightarrow> provider_input" where
  "sample_input g =
     \<lparr>pi_providerId = Str ''p'', pi_sourceId = Undef, pi_label = Undef, pi_generation = JNum (JInt g),
      pi_layers = [\<lparr>ly_ref = \<lparr>lr_id = 0, lr_props = Undef\<rparr>, ly_graphics = [sample_graphic 1, sample_graphic 2]\<rparr>],
      pi_filterDefinitions = Arr [Str ''status''], pi_defaultExcludedValues = Undef, pi_useLookupOptions = False,
      pi_order = Undef\<rparr>"

definition sample_state :: filter_state where
  "sample_state =
     filter_step sample_env (SetFilter (Str ''p'') (Str ''status'') [Str ''2''] (JNum (JInt 2)))
       (filter_step sample_env (Replace (sample_input 2)) initial_filters)"

lemma sample_filters_reachable: "filter_reachable sample_env sample_state" "filter_reachable sample_env initial_filters"
  "text_id (fe_compatibilityProviderId sample_env)"
proof -
  show "text_id (fe_compatibilityProviderId sample_env)" by code_simp
qed (unfold sample_state_def, (intro filter_reachable.intros)+)

theorem late_provider_refused_witness:
  "replaceProvider sample_env (sample_input 1) (fold (filter_step sample_env) [Suspend (Str ''p'') Undef] sample_state) =
     Inr (Stale, fold (filter_step sample_env) [Suspend (Str ''p'') Undef] sample_state)"
proof -
  have h: "opt_text (pi_providerId (sample_input 1)) = Some ''p''"
    "getProviderGeneration (Str ''p'') sample_state = Some (JInt 2)"
    "num_less (normalizeGeneration (pi_generation (sample_input 1))) (JInt 2)"
    by code_simp+
  from late_provider_refused [OF sample_filters_reachable(1,3) h(1,2) refl refl] h(3) show ?thesis by blast
qed

lemma sample_provider: "map_option pv_id (jm_get (fs_providers sample_state) ''p'') = Some ''p''"
  by code_simp

lemma sample_saved: "saved_filters ''p'' sample_state = [(''status'', ValuesFilter [''2''])]"
  by code_simp

lemma sample_restored: "restored_map (saved_filters ''p'' sample_state) = [(''status'', ValuesFilter [''2''])]"
  unfolding sample_saved by code_simp

theorem snapshot_restores_filters_witness:
  "jm_get (fs_pending (snd (applyFilterSnapshot sample_env (getFilterSnapshot sample_env sample_state) initial_filters))) ''p'' =
     Some [(''status'', ValuesFilter [''2''])]"
proof -
  have p: "jm_has (fs_providers sample_state) ''p''" using sample_provider by auto
  have n: "\<not> jm_has (fs_providers initial_filters) ''p''" by (simp add: initial_filters_def)
  obtain ok u where u: "applyFilterSnapshot sample_env (getFilterSnapshot sample_env sample_state) initial_filters = (ok, u)"
    by fastforce
  from snapshot_restores_filters [OF sample_filters_reachable, unfolded u prod.case Let_def]
  have "jm_get (fs_pending u) ''p'' = (if (jm_has (fs_providers sample_state) ''p'' \<or> jm_has (fs_pending sample_state) ''p'') \<and>
      \<not> jm_has (fs_providers initial_filters) ''p'' then Some (restored_map (saved_filters ''p'' sample_state)) else None)"
    by blast
  with p n show ?thesis unfolding u snd_conv sample_restored by simp
qed

end
