(* ===== verification/DataSourceController.thy ===== *)
theory DataSourceController
  imports DataSourcePersistence
begin

text \<open>
  \<open>features/dataSources/services/dataSourceController.js\<close> and \<open>domain/dataSourceStartupSelection.js\<close>: which
  data sources are on, and the loading of each of them.

  The closure's variables are the record \<open>controller\<close>; the selection is kept in the storage of
  \<open>DataSourcePersistence\<close>. Each function is what one turn of the event loop does between two awaits. An
  activation that waits for its loader, its normaliser or the map adapter is an entry of \<open>running\<close>, with the
  stage it waits in; \<open>activation_reply\<close> is its next turn, with what the awaited promise settled to. The
  calls that start several activations and wait for all of them are entries of \<open>groups\<close>, a reset that
  still switches sources off is an entry of \<open>resets\<close>, and a targeted read is an entry of \<open>reads\<close>.

  Of the map adapter the model keeps what each source shows: \<open>rendered\<close> maps a source to the content of its
  layers, whichever way the adapter puts them there (\<open>reconcileGraphicsLayers\<close> or new layers). A commit that
  throws is rolled back by the adapter, so it leaves \<open>rendered\<close> as it was.
\<close>

section \<open>State\<close>

record source_state =
  requestedEnabled :: bool
  enabled :: bool
  loading :: bool
  src_error :: "string option"
  src_generation :: nat
  loadedAt :: "string option"

definition createInitialState :: source_state where
  "createInitialState =
     \<lparr>requestedEnabled = False, enabled = False, loading = False, src_error = None, src_generation = 0, loadedAt = None\<rparr>"

record op_context =
  cx_id :: nat
  cx_generation :: nat
  cx_aborted :: bool

datatype stage = LoadStage | NormalizeStage js | PrepareStage js

record activation =
  ac_id :: nat
  ac_source :: string
  ac_generation :: nat
  ac_persist :: bool
  ac_reason :: string
  ac_silent :: bool
  ac_wasEnabled :: bool
  ac_stage :: stage

record targeted_read =
  tr_id :: nat
  tr_source :: string
  tr_context :: nat
  tr_generation :: nat
  tr_name :: string

record source_result =
  rs_source :: string
  rs_success :: bool
  rs_stale :: bool
  rs_skipped :: bool
  rs_generation :: nat

datatype slot = Waiting nat | Settled source_result | Rejected string

datatype group_kind =
    InitializeGroup nat bool "string list"
  | RefreshGroup
  | ResetGroup "string list" string

record group =
  gp_id :: nat
  gp_kind :: group_kind
  gp_slots :: "slot list"

record reset_run =
  rr_id :: nat
  rr_rest :: "string list"
  rr_reason :: string
  rr_silent :: bool

datatype controller_event =
    StateChanged string
  | Initialized
  | ResetDone string
  | Lifecycle string string string "nat option"
  | LayersChanged string string
  | ErrorNotice string string
  | Warning string

record controller =
  states :: "(string, source_state) jmap"
  contexts :: "(string, op_context) jmap"
  storage :: source_storage
  initialized :: bool
  initializing :: bool
  destroyed :: bool
  selectionRevision :: nat
  rendered :: "(string, js) jmap"
  running :: "activation list"
  reads :: "targeted_read list"
  groups :: "group list"
  resets :: "reset_run list"
  next_id :: nat
  summaries :: "(nat \<times> (string + source_result list)) list"
  log :: "controller_event list"

definition initial_controller :: "source_registry \<Rightarrow> source_storage \<Rightarrow> controller" where
  "initial_controller reg st =
     \<lparr>states = jm_of (map (\<lambda>d. (source_id d, createInitialState)) (definitions reg)), contexts = [], storage = st,
      initialized = False, initializing = False, destroyed = False, selectionRevision = 0, rendered = [],
      running = [], reads = [], groups = [], resets = [], next_id = 0, summaries = [], log = []\<rparr>"

definition source_state_of :: "controller \<Rightarrow> string \<Rightarrow> source_state" where
  "source_state_of s i = (case jm_get (states s) i of None \<Rightarrow> createInitialState | Some st \<Rightarrow> st)"

definition log_event :: "controller_event \<Rightarrow> controller \<Rightarrow> controller" where
  "log_event e s = s\<lparr>log := log s @ [e]\<rparr>"

definition updateState :: "string \<Rightarrow> (source_state \<Rightarrow> source_state) \<Rightarrow> controller \<Rightarrow> controller" where
  "updateState i f s =
     log_event (StateChanged i) (s\<lparr>states := jm_set i (f (source_state_of s i)) (states s)\<rparr>)"

definition requested_ids :: "source_registry \<Rightarrow> controller \<Rightarrow> string list" where
  "requested_ids reg s =
     map source_id (filter (\<lambda>d. requestedEnabled (source_state_of s (source_id d))) (definitions reg))"

definition write_selection :: "source_registry \<Rightarrow> string list \<Rightarrow> controller \<Rightarrow> controller" where
  "write_selection reg ids s =
     s\<lparr>storage := snd (writeDataSourceSelection (storage s) reg (Arr (map Str ids)))\<rparr>"

definition persistCurrentState :: "source_registry \<Rightarrow> controller \<Rightarrow> controller" where
  "persistCurrentState reg s = write_selection reg (requested_ids reg s) s"

definition getActiveSourceIds :: "source_registry \<Rightarrow> controller \<Rightarrow> string list" where
  "getActiveSourceIds reg s = map source_id (filter (\<lambda>d. enabled (source_state_of s (source_id d))) (definitions reg))"

definition isCurrentOperation :: "string \<Rightarrow> nat \<Rightarrow> controller \<Rightarrow> bool" where
  "isCurrentOperation i g s =
     (\<not> destroyed s \<and> src_generation (source_state_of s i) = g \<and> requestedEnabled (source_state_of s i))"

text \<open>\<open>beginOperation\<close> and \<open>invalidateOperation\<close>, which aborts the context it begins.\<close>

definition beginOperation :: "bool \<Rightarrow> string \<Rightarrow> controller \<Rightarrow> nat \<times> controller" where
  "beginOperation aborted i s =
     (let g = Suc (src_generation (source_state_of s i)) in
      (g, s\<lparr>contexts := jm_set i \<lparr>cx_id = next_id s, cx_generation = g, cx_aborted = aborted\<rparr> (contexts s),
            next_id := Suc (next_id s)\<rparr>))"

definition requireRuntimeSource :: "source_registry \<Rightarrow> string \<Rightarrow> string + js" where
  "requireRuntimeSource reg i =
     (case getDataSourceDefinition reg (Str i) of
        None \<Rightarrow> Inl (''Unknown data source: '' @ i @ ''.'')
      | Some d \<Rightarrow>
          if isRuntimeSelectableDataSource d then Inr d
          else Inl (''Data source \"'' @ js_str (field d ''label'') @ ''\" is not available in this deployment.''))"

definition destroyed_message :: string where
  "destroyed_message = ''The data source controller has been destroyed.''"

section \<open>Activation\<close>

definition activateSource ::
    "source_registry \<Rightarrow> string \<Rightarrow> bool \<Rightarrow> string \<Rightarrow> bool \<Rightarrow> controller \<Rightarrow> (string + nat) \<times> controller" where
  "activateSource reg sourceId persist reason silent s =
     (if destroyed s then (Inl destroyed_message, s)
      else (case requireRuntimeSource reg sourceId of
              Inl e \<Rightarrow> (Inl e, s)
            | Inr d \<Rightarrow>
                (let i = source_id d;
                     s1 = (if persist then s\<lparr>selectionRevision := Suc (selectionRevision s)\<rparr> else s);
                     was = enabled (source_state_of s1 i);
                     (g, s2) = beginOperation False i s1;
                     s3 = updateState i (\<lambda>st. st\<lparr>requestedEnabled := True, loading := True, src_error := None,
                            src_generation := g\<rparr>) s2;
                     a = \<lparr>ac_id = next_id s3, ac_source = i, ac_generation = g, ac_persist = persist, ac_reason = reason,
                          ac_silent = silent, ac_wasEnabled = was, ac_stage = LoadStage\<rparr>
                 in (Inr (ac_id a), s3\<lparr>running := running s3 @ [a], next_id := Suc (next_id s3)\<rparr>))))"

definition fill_slot :: "nat \<Rightarrow> source_result \<Rightarrow> group \<Rightarrow> group" where
  "fill_slot n r gp = gp\<lparr>gp_slots := map (\<lambda>x. if x = Waiting n then Settled r else x) (gp_slots gp)\<rparr>"

definition end_activation :: "activation \<Rightarrow> source_result \<Rightarrow> controller \<Rightarrow> controller" where
  "end_activation a r s =
     s\<lparr>running := filter (\<lambda>b. ac_id b \<noteq> ac_id a) (running s), groups := map (fill_slot (ac_id a) r) (groups s),
       summaries := summaries s @ [(ac_id a, Inr [r])]\<rparr>"

definition createStaleResult :: "string \<Rightarrow> nat \<Rightarrow> source_result" where
  "createStaleResult i g = \<lparr>rs_source = i, rs_success = False, rs_stale = True, rs_skipped = True, rs_generation = g\<rparr>"

definition end_stale :: "activation \<Rightarrow> controller \<Rightarrow> controller" where
  "end_stale a s = end_activation a (createStaleResult (ac_source a) (ac_generation a)) s"

definition advance :: "activation \<Rightarrow> stage \<Rightarrow> controller \<Rightarrow> controller" where
  "advance a st s =
     s\<lparr>running := map (\<lambda>b. if ac_id b = ac_id a then b\<lparr>ac_stage := st\<rparr> else b) (running s)\<rparr>"

definition commit_activation :: "source_registry \<Rightarrow> string \<Rightarrow> activation \<Rightarrow> js \<Rightarrow> controller \<Rightarrow> controller" where
  "commit_activation reg now a content s =
     (let i = ac_source a; kind = (if ac_wasEnabled a then ''refreshed'' else ''activated'');
          s1 = updateState i (\<lambda>st. st\<lparr>requestedEnabled := True, enabled := True, loading := False, src_error := None,
                 loadedAt := Some now, src_generation := ac_generation a\<rparr>)
               (s\<lparr>rendered := jm_set i content (rendered s)\<rparr>);
          s2 = log_event (Lifecycle kind i (ac_reason a) (Some (ac_generation a))) (log_event (LayersChanged i kind) s1);
          s3 = (if ac_persist a then persistCurrentState reg s2 else s2)
      in end_activation a \<lparr>rs_source = i, rs_success = True, rs_stale = False, rs_skipped = False,
           rs_generation = ac_generation a\<rparr> s3)"

definition fail_activation :: "source_registry \<Rightarrow> activation \<Rightarrow> string \<Rightarrow> controller \<Rightarrow> controller" where
  "fail_activation reg a e s =
     (let i = ac_source a; was = ac_wasEnabled a;
          label = (case getDataSourceDefinition reg (Str i) of None \<Rightarrow> [] | Some d \<Rightarrow> js_str (field d ''label''))
      in if \<not> isCurrentOperation i (ac_generation a) s then end_stale a s
         else
           let s1 = (if was then s
                     else (log_event (Lifecycle ''deactivating'' i ''activation-failed'' None) s)
                            \<lparr>rendered := jm_delete i (rendered s)\<rparr>);
               s2 = updateState i (\<lambda>st. st\<lparr>requestedEnabled := was, enabled := was, loading := False, src_error := Some e,
                      src_generation := ac_generation a\<rparr>) s1;
               s3 = (if ac_persist a then persistCurrentState reg s2 else s2);
               s4 = log_event (if ac_silent a then Warning (label @ '' refresh failed.'')
                      else ErrorNotice (label @ (if was then '' refresh failed'' else '' could not be enabled'')) e) s3
           in end_activation a \<lparr>rs_source = i, rs_success = False, rs_stale = False, rs_skipped = False,
                rs_generation = ac_generation a\<rparr> s4)"

text \<open>The next turn of an activation; \<open>throws\<close> is the error of a commit that throws.\<close>

definition activation_reply ::
    "source_registry \<Rightarrow> string \<Rightarrow> activation \<Rightarrow> string + js \<Rightarrow> string option \<Rightarrow> controller \<Rightarrow> controller" where
  "activation_reply reg now a reply throws s =
     (case reply of
        Inl e \<Rightarrow> fail_activation reg a e s
      | Inr v \<Rightarrow>
          if \<not> isCurrentOperation (ac_source a) (ac_generation a) s then end_stale a s
          else (case ac_stage a of
                  LoadStage \<Rightarrow> advance a (NormalizeStage v) s
                | NormalizeStage raw \<Rightarrow> advance a (PrepareStage v) s
                | PrepareStage normalized \<Rightarrow>
                    (case throws of
                       Some e \<Rightarrow> fail_activation reg a e s
                     | None \<Rightarrow> commit_activation reg now a v s)))"

section \<open>Deactivation\<close>

definition deactivateSource ::
    "source_registry \<Rightarrow> string \<Rightarrow> bool \<Rightarrow> string \<Rightarrow> controller \<Rightarrow> (string + source_result) \<times> controller" where
  "deactivateSource reg sourceId persist reason s =
     (if destroyed s then (Inl destroyed_message, s)
      else (case getDataSourceDefinition reg (Str sourceId) of
              None \<Rightarrow> (Inr \<lparr>rs_source = sourceId, rs_success = False, rs_stale = False, rs_skipped = True, rs_generation = 0\<rparr>, s)
            | Some d \<Rightarrow>
                (let i = source_id d;
                     s1 = (if persist then s\<lparr>selectionRevision := Suc (selectionRevision s)\<rparr> else s);
                     (g, s2) = beginOperation True i s1;
                     s3 = (log_event (Lifecycle ''deactivating'' i reason (Some g)) s2)\<lparr>rendered := jm_delete i (rendered s2)\<rparr>;
                     s4 = updateState i (\<lambda>st. st\<lparr>requestedEnabled := False, enabled := False, loading := False,
                            src_error := None, loadedAt := None, src_generation := g\<rparr>) s3;
                     s5 = log_event (LayersChanged i ''deactivated'') (log_event (Lifecycle ''deactivated'' i reason (Some g)) s4);
                     s6 = (if persist then persistCurrentState reg s5 else s5)
                 in (Inr \<lparr>rs_source = i, rs_success = True, rs_stale = False, rs_skipped = False, rs_generation = g\<rparr>, s6))))"

section \<open>Several sources\<close>

fun start_each ::
    "source_registry \<Rightarrow> (string \<times> bool) list \<Rightarrow> string \<Rightarrow> bool \<Rightarrow> slot list \<Rightarrow> controller \<Rightarrow> slot list \<times> controller" where
  "start_each reg [] reason silent slots s = (slots, s)"
| "start_each reg ((i, target) # is) reason silent slots s =
     (if \<not> target
      then start_each reg is reason silent (slots @ [Settled \<lparr>rs_source = i, rs_success = True, rs_stale = False,
             rs_skipped = True, rs_generation = 0\<rparr>]) s
      else (case activateSource reg i False reason silent s of
              (Inl e, s') \<Rightarrow> start_each reg is reason silent (slots @ [Rejected e]) s'
            | (Inr n, s') \<Rightarrow> start_each reg is reason silent (slots @ [Waiting n]) s'))"

definition start_group ::
    "source_registry \<Rightarrow> group_kind \<Rightarrow> (string \<times> bool) list \<Rightarrow> string \<Rightarrow> bool \<Rightarrow> controller \<Rightarrow> controller" where
  "start_group reg kind is reason silent s =
     (case start_each reg is reason silent [] s of
        (slots, s1) \<Rightarrow> s1\<lparr>groups := groups s1 @ [\<lparr>gp_id = next_id s1, gp_kind = kind, gp_slots = slots\<rparr>],
                         next_id := Suc (next_id s1)\<rparr>)"

record startup_selection =
  su_enabledSourceIds :: "string list"
  su_fallbackSourceId :: "string option"
  su_recoveredFromEmpty :: bool

definition resolveStartupDataSourceSelection :: "selection \<Rightarrow> js list \<Rightarrow> string list \<Rightarrow> startup_selection" where
  "resolveStartupDataSourceSelection sel selectable defaults =
     (if \<not> (sel_status sel = ''valid'' \<and> \<not> isFirstVisit sel) \<or> enabledSourceIds sel \<noteq> []
      then \<lparr>su_enabledSourceIds = enabledSourceIds sel, su_fallbackSourceId = None, su_recoveredFromEmpty = False\<rparr>
      else
        let fallbacks = filter (\<lambda>d. field (field d ''persistence'') ''persistSelection'' \<noteq> JBool False) selectable;
            chosen = (case List.find (\<lambda>d. source_id d \<in> set defaults) fallbacks of
                        Some d \<Rightarrow> Some d
                      | None \<Rightarrow> (case fallbacks of [] \<Rightarrow> None | d # ds \<Rightarrow> Some d))
        in (case chosen of
              None \<Rightarrow> \<lparr>su_enabledSourceIds = [], su_fallbackSourceId = None, su_recoveredFromEmpty = False\<rparr>
            | Some d \<Rightarrow> \<lparr>su_enabledSourceIds = [source_id d], su_fallbackSourceId = Some (source_id d),
                        su_recoveredFromEmpty = True\<rparr>))"

datatype initialize_result = AlreadyInitialized | InitializationPending | InitializationStarted

definition initializeController :: "source_registry \<Rightarrow> controller \<Rightarrow> controller" where
  "initializeController reg s =
     (let sel = readDataSourceSelection (storage s) reg;
          startup = resolveStartupDataSourceSelection sel (getRuntimeSelectableDataSources reg)
                      (getDefaultEnabledSourceIds reg);
          targets = su_enabledSourceIds startup
      in start_group reg
           (InitializeGroup (selectionRevision s) (shouldPersist sel \<or> su_recoveredFromEmpty startup) targets)
           (map (\<lambda>d. (source_id d, source_id d \<in> set targets)) (getRuntimeSelectableDataSources reg))
           ''initialization'' False s)"

definition initialize_controller :: "source_registry \<Rightarrow> controller \<Rightarrow> (string + initialize_result) \<times> controller" where
  "initialize_controller reg s =
     (if destroyed s then (Inl destroyed_message, s)
      else if initialized s then (Inr AlreadyInitialized, s)
      else if initializing s then (Inr InitializationPending, s)
      else (Inr InitializationStarted, initializeController reg (s\<lparr>initializing := True\<rparr>)))"

definition refreshActive :: "source_registry \<Rightarrow> string \<Rightarrow> bool \<Rightarrow> controller \<Rightarrow> string option \<times> controller" where
  "refreshActive reg reason silent s =
     (if destroyed s then (Some destroyed_message, s)
      else (None, start_group reg RefreshGroup (map (\<lambda>i. (i, True)) (getActiveSourceIds reg s)) reason silent s))"

text \<open>One turn of a reset: the next source is switched off, or the defaults are started.\<close>

definition reset_step :: "source_registry \<Rightarrow> reset_run \<Rightarrow> controller \<Rightarrow> controller" where
  "reset_step reg r s =
     (let s0 = s\<lparr>resets := filter (\<lambda>q. rr_id q \<noteq> rr_id r) (resets s)\<rparr> in
      case rr_rest r of
        i # rest \<Rightarrow>
          (case deactivateSource reg i False (rr_reason r) s0 of
             (Inl e, s1) \<Rightarrow> s1\<lparr>summaries := summaries s1 @ [(rr_id r, Inl e)]\<rparr>
           | (Inr _, s1) \<Rightarrow> s1\<lparr>resets := resets s1 @ [r\<lparr>rr_rest := rest\<rparr>]\<rparr>)
      | [] \<Rightarrow>
          (let defaults = getDefaultEnabledSourceIds reg in
           start_group reg (ResetGroup defaults (rr_reason r))
             (map (\<lambda>d. (source_id d, True))
                (filter (\<lambda>d. source_id d \<in> set defaults) (getRuntimeSelectableDataSources reg)))
             (rr_reason r) (rr_silent r) s0))"

definition resetSourcesToDefaults :: "source_registry \<Rightarrow> string \<Rightarrow> bool \<Rightarrow> controller \<Rightarrow> string option \<times> controller" where
  "resetSourcesToDefaults reg reason silent s =
     (if destroyed s then (Some destroyed_message, s)
      else (None, reset_step reg
             \<lparr>rr_id = next_id s, rr_rest = map source_id (definitions reg), rr_reason = reason, rr_silent = silent\<rparr>
             (s\<lparr>selectionRevision := Suc (selectionRevision s), next_id := Suc (next_id s)\<rparr>)))"

definition summary_success :: "source_result list \<Rightarrow> bool" where
  "summary_success rs = list_all (\<lambda>r. rs_success r \<or> rs_skipped r \<or> rs_stale r) rs"

definition failed_source_ids :: "source_result list \<Rightarrow> string list" where
  "failed_source_ids rs = map rs_source (filter (\<lambda>r. \<not> rs_success r \<and> \<not> rs_skipped r \<and> \<not> rs_stale r) rs)"

fun slot_results :: "slot list \<Rightarrow> source_result list option" where
  "slot_results [] = Some []"
| "slot_results (Waiting n # xs) = None"
| "slot_results (Rejected e # xs) = None"
| "slot_results (Settled r # xs) = map_option (\<lambda>rs. r # rs) (slot_results xs)"

fun slot_error :: "slot list \<Rightarrow> string option" where
  "slot_error [] = None"
| "slot_error (Rejected e # xs) = Some e"
| "slot_error (x # xs) = slot_error xs"

text \<open>The turn after \<open>Promise.all\<close> of a group.\<close>

definition end_group :: "source_registry \<Rightarrow> group \<Rightarrow> controller \<Rightarrow> controller" where
  "end_group reg gp s =
     (let s0 = s\<lparr>groups := filter (\<lambda>q. gp_id q \<noteq> gp_id gp) (groups s)\<rparr> in
      case slot_error (gp_slots gp) of
        Some e \<Rightarrow> s0\<lparr>summaries := summaries s0 @ [(gp_id gp, Inl e)]\<rparr>
      | None \<Rightarrow>
          (case slot_results (gp_slots gp) of
             None \<Rightarrow> s
           | Some rs \<Rightarrow>
               (let s1 = s0\<lparr>summaries := summaries s0 @ [(gp_id gp, Inr rs)]\<rparr> in
                case gp_kind gp of
                  RefreshGroup \<Rightarrow> persistCurrentState reg s1
                | ResetGroup defaults reason \<Rightarrow> log_event (ResetDone reason) (write_selection reg defaults s1)
                | InitializeGroup revision changed ids \<Rightarrow>
                    (let s2 = s1\<lparr>initialized := True\<rparr>;
                         s3 = (if selectionRevision s2 = revision \<and> changed then write_selection reg ids s2 else s2)
                     in log_event Initialized s3))))"

section \<open>Targeted status reads\<close>

definition targeted_current :: "string \<Rightarrow> nat \<Rightarrow> controller \<Rightarrow> bool" where
  "targeted_current i c s =
     (\<not> destroyed s \<and>
      (case jm_get (contexts s) i of None \<Rightarrow> False | Some cx \<Rightarrow> cx_id cx = c \<and> \<not> cx_aborted cx) \<and>
      enabled (source_state_of s i) \<and> requestedEnabled (source_state_of s i) \<and> \<not> loading (source_state_of s i))"

datatype targeted_start = TargetedSkipped string | TargetedStarted nat

definition refreshProductStatus ::
    "source_registry \<Rightarrow> bool \<Rightarrow> string \<Rightarrow> js \<Rightarrow> controller \<Rightarrow> targeted_start \<times> controller" where
  "refreshProductStatus reg has_loader i datasetName s =
     (if destroyed s then (TargetedSkipped ''destroyed'', s)
      else if (case getDataSourceDefinition reg (Str i) of None \<Rightarrow> True | Some d \<Rightarrow> \<not> truthy (field d ''targetedStatus'')) \<or>
              text_of datasetName = [] \<or> \<not> has_loader
      then (TargetedSkipped ''unsupported'', s)
      else (case jm_get (contexts s) i of
              None \<Rightarrow> (TargetedSkipped ''inactive-or-loading'', s)
            | Some cx \<Rightarrow>
                if \<not> enabled (source_state_of s i) \<or> \<not> requestedEnabled (source_state_of s i) \<or>
                   loading (source_state_of s i) \<or> cx_aborted cx
                then (TargetedSkipped ''inactive-or-loading'', s)
                else (TargetedStarted (next_id s),
                  s\<lparr>reads := reads s @ [\<lparr>tr_id = next_id s, tr_source = i, tr_context = cx_id cx,
                       tr_generation = src_generation (source_state_of s i), tr_name = text_of datasetName\<rparr>],
                    next_id := Suc (next_id s)\<rparr>)))"

text \<open>What the adapter makes of a status that arrived: it refuses it, finds no change, or shows it.\<close>

datatype publication = NotPublished string | PublishedSame | PublishedChanged js

definition targeted_reply :: "targeted_read \<Rightarrow> string + publication \<Rightarrow> controller \<Rightarrow> controller" where
  "targeted_reply r reply s =
     (let i = tr_source r;
          s0 = s\<lparr>reads := filter (\<lambda>q. tr_id q \<noteq> tr_id r) (reads s)\<rparr>;
          answer = (\<lambda>ok stale skipped t. t\<lparr>summaries := summaries t @ [(tr_id r, Inr [\<lparr>rs_source = i, rs_success = ok,
             rs_stale = stale, rs_skipped = skipped, rs_generation = tr_generation r\<rparr>])]\<rparr>)
      in if \<not> targeted_current i (tr_context r) s then answer False True True s0
         else (case reply of
                 Inl e \<Rightarrow> answer False False False (log_event (Warning ''Targeted Product status refresh failed'') s0)
               | Inr (NotPublished reason) \<Rightarrow> answer False False True s0
               | Inr PublishedSame \<Rightarrow> answer True False False s0
               | Inr (PublishedChanged content) \<Rightarrow>
                   (let g = Suc (src_generation (source_state_of s0 i));
                        s1 = updateState i (\<lambda>st. st\<lparr>src_generation := g\<rparr>) (s0\<lparr>rendered := jm_set i content (rendered s0)\<rparr>)
                    in answer True False False
                         (log_event (Lifecycle ''refreshed'' i ''targeted-product-status'' (Some g))
                           (log_event (LayersChanged i ''refreshed'') s1)))))"

section \<open>The end of the controller\<close>

definition destroy_controller :: "source_registry \<Rightarrow> bool \<Rightarrow> controller \<Rightarrow> controller" where
  "destroy_controller reg removeLayers s =
     (if destroyed s then s
      else s\<lparr>destroyed := True, contexts := [],
             rendered := (if removeLayers then foldl (\<lambda>m d. jm_delete (source_id d) m) (rendered s) (definitions reg)
                          else rendered s)\<rparr>)"

section \<open>Events\<close>

datatype source_event =
    Initialize
  | Activate string bool string bool
  | Deactivate string bool string
  | RefreshActive string bool
  | RefreshStatus bool string js
  | ResetSources string bool
  | DestroyController bool
  | ActivationReply string activation "string + js" "string option"
  | TargetedReply targeted_read "string + publication"
  | ResetTurn reset_run
  | GroupTurn group

fun source_step :: "source_registry \<Rightarrow> source_event \<Rightarrow> controller \<Rightarrow> controller" where
  "source_step reg Initialize s = snd (initialize_controller reg s)"
| "source_step reg (Activate i p r q) s = snd (activateSource reg i p r q s)"
| "source_step reg (Deactivate i p r) s = snd (deactivateSource reg i p r s)"
| "source_step reg (RefreshActive r q) s = snd (refreshActive reg r q s)"
| "source_step reg (RefreshStatus l i n) s = snd (refreshProductStatus reg l i n s)"
| "source_step reg (ResetSources r q) s = snd (resetSourcesToDefaults reg r q s)"
| "source_step reg (DestroyController l) s = destroy_controller reg l s"
| "source_step reg (ActivationReply now a r t) s = activation_reply reg now a r t s"
| "source_step reg (TargetedReply r p) s = targeted_reply r p s"
| "source_step reg (ResetTurn r) s = reset_step reg r s"
| "source_step reg (GroupTurn gp) s = end_group reg gp s"

text \<open>A turn needs what it continues; the calls of the page can happen at any time.\<close>

fun can_happen :: "source_event \<Rightarrow> controller \<Rightarrow> bool" where
  "can_happen (ActivationReply now a r t) s = (a \<in> set (running s))"
| "can_happen (TargetedReply r p) s = (r \<in> set (reads s))"
| "can_happen (ResetTurn r) s = (r \<in> set (resets s))"
| "can_happen (GroupTurn gp) s = (gp \<in> set (groups s))"
| "can_happen _ s = True"

inductive source_reachable :: "source_registry \<Rightarrow> controller \<Rightarrow> bool" for reg where
  initial: "source_reachable reg (initial_controller reg st)"
| step: "source_reachable reg s \<Longrightarrow> can_happen e s \<Longrightarrow> source_reachable reg (source_step reg e s)"

end
