(* ===== verification/DataSourceControllerLaws.thy ===== *)
theory DataSourceControllerLaws
  imports DataSourceController
begin

text \<open>
  The invariant of \<open>dataSourceController.js\<close> and its properties: what a source shows is what its state
  says, a superseded activation has no effect, and a source that was switched off stays off.
\<close>

section \<open>The invariant\<close>

text \<open>The activations in flight, without the stages they wait in: id, source, generation, \<open>wasEnabled\<close>.\<close>

definition flight :: "controller \<Rightarrow> (nat \<times> string \<times> nat \<times> bool) list" where
  "flight s = map (\<lambda>a. (ac_id a, ac_source a, ac_generation a, ac_wasEnabled a)) (running s)"

definition of_source :: "string \<Rightarrow> (nat \<times> string \<times> nat \<times> bool) list \<Rightarrow> (nat \<times> string \<times> nat \<times> bool) list" where
  "of_source i fl = filter (\<lambda>(n, j, g, w). j = i) fl"

definition of_generation :: "nat \<Rightarrow> (nat \<times> string \<times> nat \<times> bool) list \<Rightarrow> (nat \<times> string \<times> nat \<times> bool) list" where
  "of_generation g fl = filter (\<lambda>(n, j, h, w). h = g) fl"

definition source_ok :: "source_state \<Rightarrow> bool \<Rightarrow> (nat \<times> string \<times> nat \<times> bool) list \<Rightarrow> bool" where
  "source_ok st shown fl =
     ((if loading st then requestedEnabled st \<and> map (\<lambda>(n, j, g, w). w) (of_generation (src_generation st) fl) = [enabled st]
       else of_generation (src_generation st) fl = [] \<and> requestedEnabled st = enabled st) \<and>
      shown = enabled st)"

definition flight_ok :: "controller \<Rightarrow> bool" where
  "flight_ok s =
     (distinct (map fst (flight s)) \<and>
      (\<forall>(n, i, g, w) \<in> set (flight s). n < next_id s \<and> g \<le> src_generation (source_state_of s i)))"

definition source_inv :: "controller \<Rightarrow> bool" where
  "source_inv s =
     (flight_ok s \<and>
      (\<not> destroyed s \<longrightarrow>
        (\<forall>i. source_ok (source_state_of s i) (jm_has (rendered s) i) (of_source i (flight s)))))"

lemma source_invD:
  assumes "source_inv s"
  shows "flight_ok s" "\<not> destroyed s \<Longrightarrow> source_ok (source_state_of s i) (jm_has (rendered s) i) (of_source i (flight s))"
  using assms by (simp_all add: source_inv_def)

lemma source_inv_cong:
  assumes "source_inv s" and "states t = states s" and "rendered t = rendered s" and "destroyed t = destroyed s"
    and "flight t = flight s" and "next_id s \<le> next_id t"
  shows "source_inv t"
  using assms by (fastforce simp: source_inv_def flight_ok_def source_state_of_def)

text \<open>A change that concerns the source \<open>i\<close> only.\<close>

lemma source_inv_change:
  assumes "source_inv s" and "flight_ok t" and "destroyed t = destroyed s"
    and "\<And>j. j \<noteq> i \<Longrightarrow> source_state_of t j = source_state_of s j \<and> jm_has (rendered t) j = jm_has (rendered s) j \<and>
           of_source j (flight t) = of_source j (flight s)"
    and "\<not> destroyed s \<Longrightarrow> source_ok (source_state_of t i) (jm_has (rendered t) i) (of_source i (flight t))"
  shows "source_inv t"
  unfolding source_inv_def
proof (intro conjI impI allI)
  fix j
  assume "\<not> destroyed t"
  with assms(3) have live: "\<not> destroyed s" by simp
  show "source_ok (source_state_of t j) (jm_has (rendered t) j) (of_source j (flight t))"
  proof (cases "j = i")
    case False
    with assms(4) [OF False] source_invD(2) [OF assms(1) live, of j] show ?thesis by simp
  qed (use assms(5) live in simp)
qed (rule assms(2))

lemma source_state_of_set [simp]:
  "source_state_of (s\<lparr>states := jm_set i st m\<rparr>) j = (if j = i then st else (case jm_get m j of None \<Rightarrow> createInitialState | Some st \<Rightarrow> st))"
  by (simp add: source_state_of_def)

lemma log_event_fields [simp]:
  "states (log_event e s) = states s" "rendered (log_event e s) = rendered s" "destroyed (log_event e s) = destroyed s"
  "running (log_event e s) = running s" "next_id (log_event e s) = next_id s" "contexts (log_event e s) = contexts s"
  "storage (log_event e s) = storage s" "groups (log_event e s) = groups s" "flight (log_event e s) = flight s"
  "source_state_of (log_event e s) = source_state_of s" "resets (log_event e s) = resets s" "reads (log_event e s) = reads s"
  by (simp_all add: log_event_def flight_def source_state_of_def fun_eq_iff)

lemma updateState_fields [simp]:
  "rendered (updateState i f s) = rendered s" "destroyed (updateState i f s) = destroyed s"
  "running (updateState i f s) = running s" "next_id (updateState i f s) = next_id s"
  "contexts (updateState i f s) = contexts s" "flight (updateState i f s) = flight s"
  "groups (updateState i f s) = groups s" "resets (updateState i f s) = resets s" "reads (updateState i f s) = reads s"
  "source_state_of (updateState i f s) = (source_state_of s)(i := f (source_state_of s i))"
  by (simp_all add: updateState_def flight_def fun_eq_iff source_state_of_def)

lemma persist_fields [simp]:
  "states (persistCurrentState reg s) = states s" "rendered (persistCurrentState reg s) = rendered s"
  "destroyed (persistCurrentState reg s) = destroyed s" "running (persistCurrentState reg s) = running s"
  "next_id (persistCurrentState reg s) = next_id s" "flight (persistCurrentState reg s) = flight s"
  "source_state_of (persistCurrentState reg s) = source_state_of s" "resets (persistCurrentState reg s) = resets s"
  "groups (persistCurrentState reg s) = groups s"
  by (simp_all add: persistCurrentState_def write_selection_def flight_def source_state_of_def fun_eq_iff)

lemma write_selection_fields [simp]:
  "states (write_selection reg ids s) = states s" "rendered (write_selection reg ids s) = rendered s"
  "destroyed (write_selection reg ids s) = destroyed s" "running (write_selection reg ids s) = running s"
  "next_id (write_selection reg ids s) = next_id s" "flight (write_selection reg ids s) = flight s"
  by (simp_all add: write_selection_def flight_def)

lemma end_activation_fields [simp]:
  "states (end_activation a r s) = states s" "rendered (end_activation a r s) = rendered s"
  "destroyed (end_activation a r s) = destroyed s" "next_id (end_activation a r s) = next_id s"
  "flight (end_activation a r s) = filter (\<lambda>(n, k). n \<noteq> ac_id a) (flight s)"
  "source_state_of (end_activation a r s) = source_state_of s"
  by (simp_all add: end_activation_def flight_def source_state_of_def fun_eq_iff filter_map comp_def split_beta)

lemma shown_fields [simp]:
  "source_state_of (s\<lparr>rendered := m\<rparr>) = source_state_of s" "flight (s\<lparr>rendered := m\<rparr>) = flight s"
  by (simp_all add: source_state_of_def flight_def fun_eq_iff)

section \<open>The steps of one source\<close>

lemma of_source_append: "of_source i (xs @ ys) = of_source i xs @ of_source i ys"
  by (simp add: of_source_def)

lemma of_source_remove:
  assumes "distinct (map fst fl)" and "(n, i, g, w) \<in> set fl" and "j \<noteq> i"
  shows "of_source j (filter (\<lambda>(m, k). m \<noteq> n) fl) = of_source j fl"
proof -
  have "m \<noteq> n" if "(m, j, h, v) \<in> set fl" for m h v
    using assms that eq_key_imp_eq_value [of fl n "(i, g, w)" "(j, h, v)"] by auto
  then have "filter (\<lambda>x. (case x of (m, k) \<Rightarrow> m \<noteq> n) \<and> (case x of (m, k, h, v) \<Rightarrow> k = j)) fl =
      filter (\<lambda>x. case x of (m, k, h, v) \<Rightarrow> k = j) fl"
    by (intro filter_cong) auto
  then show ?thesis unfolding of_source_def filter_filter .
qed

lemma no_newer:
  assumes "flight_ok s" and "src_generation (source_state_of s i) < g"
  shows "of_generation g (of_source i (flight s)) = []"
  using assms by (fastforce simp: flight_ok_def of_generation_def of_source_def filter_empty_conv)

lemma activateSource_inv:
  assumes "source_inv s"
  shows "source_inv (snd (activateSource reg i p r q s))"
proof (cases "destroyed s")
  case True
  with assms show ?thesis by (simp add: activateSource_def)
next
  case live: False
  show ?thesis
  proof (cases "requireRuntimeSource reg i")
    case (Inl e)
    with assms live show ?thesis by (simp add: activateSource_def)
  next
    case (Inr d)
    let ?i = "source_id d"
    let ?t = "snd (activateSource reg i p r q s)"
    let ?g = "Suc (src_generation (source_state_of s ?i))"
    have st: "source_state_of ?t = (source_state_of s)(?i := (source_state_of s ?i)
        \<lparr>requestedEnabled := True, loading := True, src_error := None, src_generation := ?g\<rparr>)"
      using live Inr by (simp add: activateSource_def beginOperation_def Let_def source_state_of_def updateState_def fun_eq_iff)
    have fl: "flight ?t = flight s @ [(Suc (next_id s), ?i, ?g, enabled (source_state_of s ?i))]"
      "next_id ?t = Suc (Suc (next_id s))" "rendered ?t = rendered s" "destroyed ?t = destroyed s"
      using live Inr by (simp_all add: activateSource_def beginOperation_def Let_def flight_def source_state_of_def updateState_def)
    note F = source_invD(1) [OF assms]
    show ?thesis
    proof (rule source_inv_change [OF assms, of ?t ?i])
      show "flight_ok ?t"
        using F by (fastforce simp: flight_ok_def fl st)
      show "source_ok (source_state_of ?t ?i) (jm_has (rendered ?t) ?i) (of_source ?i (flight ?t))" if "\<not> destroyed s"
        using no_newer [OF F, of ?i ?g] source_invD(2) [OF assms that, of ?i]
        by (simp add: source_ok_def st fl of_source_append of_generation_def) (simp add: of_source_def)
    qed (simp_all add: st fl of_source_append, simp add: of_source_def)
  qed
qed

lemma deactivateSource_inv:
  assumes "source_inv s"
  shows "source_inv (snd (deactivateSource reg i p r s))"
proof (cases "destroyed s")
  case True
  with assms show ?thesis by (simp add: deactivateSource_def)
next
  case live: False
  show ?thesis
  proof (cases "getDataSourceDefinition reg (Str i)")
    case None
    with assms live show ?thesis by (simp add: deactivateSource_def)
  next
    case (Some d)
    let ?i = "source_id d"
    let ?t = "snd (deactivateSource reg i p r s)"
    let ?g = "Suc (src_generation (source_state_of s ?i))"
    have st: "source_state_of ?t = (source_state_of s)(?i := (source_state_of s ?i)
        \<lparr>requestedEnabled := False, enabled := False, loading := False, src_error := None, loadedAt := None, src_generation := ?g\<rparr>)"
      using live Some by (simp add: deactivateSource_def beginOperation_def Let_def source_state_of_def updateState_def fun_eq_iff
          persistCurrentState_def write_selection_def log_event_def)
    have fl: "flight ?t = flight s" "next_id ?t = Suc (next_id s)" "rendered ?t = jm_delete ?i (rendered s)" "destroyed ?t = destroyed s"
      using live Some by (simp_all add: deactivateSource_def beginOperation_def Let_def flight_def updateState_def
          persistCurrentState_def write_selection_def log_event_def)
    note F = source_invD(1) [OF assms]
    show ?thesis
    proof (rule source_inv_change [OF assms, of ?t ?i])
      show "flight_ok ?t"
        using F by (fastforce simp: flight_ok_def fl st)
      show "source_ok (source_state_of ?t ?i) (jm_has (rendered ?t) ?i) (of_source ?i (flight ?t))" if "\<not> destroyed s"
        using no_newer [OF F, of ?i ?g] by (simp add: source_ok_def st fl)
    qed (simp_all add: st fl)
  qed
qed

section \<open>The end of an activation\<close>

definition current :: "activation \<Rightarrow> controller \<Rightarrow> bool" where
  "current a s = isCurrentOperation (ac_source a) (ac_generation a) s"

lemma in_flight:
  "a \<in> set (running s) \<Longrightarrow> (ac_id a, ac_source a, ac_generation a, ac_wasEnabled a) \<in> set (flight s)"
  by (auto simp: flight_def)

text \<open>The activation that is current is the only one of its source and generation.\<close>

lemma current_alone:
  assumes "source_inv s" and "a \<in> set (running s)" and "current a s"
  shows "of_generation (src_generation (source_state_of s (ac_source a))) (of_source (ac_source a) (flight s)) =
      [(ac_id a, ac_source a, ac_generation a, ac_wasEnabled a)]"
    "ac_wasEnabled a = enabled (source_state_of s (ac_source a))" "loading (source_state_of s (ac_source a))"
    "ac_generation a = src_generation (source_state_of s (ac_source a))" "\<not> destroyed s"
proof -
  let ?i = "ac_source a" and ?fl = "flight s"
  let ?st = "source_state_of s ?i"
  have c: "\<not> destroyed s" "ac_generation a = src_generation ?st"
    using assms(3) by (simp_all add: current_def isCurrentOperation_def)
  have m: "(ac_id a, ?i, ac_generation a, ac_wasEnabled a) \<in> set (of_generation (src_generation ?st) (of_source ?i ?fl))"
    using in_flight [OF assms(2)] c(2) by (simp add: of_generation_def of_source_def)
  note ok = source_invD(2) [OF assms(1) c(1), of ?i]
  with m have l: "loading ?st" "map (\<lambda>(n, j, g, w). w) (of_generation (src_generation ?st) (of_source ?i ?fl)) = [enabled ?st]"
    by (auto simp: source_ok_def split: if_splits)
  from l(2) obtain x where x: "of_generation (src_generation ?st) (of_source ?i ?fl) = [x]"
    by (cases "of_generation (src_generation ?st) (of_source ?i ?fl)") auto
  with m show "of_generation (src_generation ?st) (of_source ?i ?fl) = [(ac_id a, ?i, ac_generation a, ac_wasEnabled a)]"
    by simp
  with l(2) show "ac_wasEnabled a = enabled ?st" by simp
  show "loading ?st" "ac_generation a = src_generation ?st" "\<not> destroyed s" using l(1) c by simp_all
qed

lemma of_source_end:
  "of_source i (filter (\<lambda>(n, k). n \<noteq> m) fl) = filter (\<lambda>(n, k). n \<noteq> m) (of_source i fl)"
  "of_generation g (filter (\<lambda>(n, k). n \<noteq> m) fl) = filter (\<lambda>(n, k). n \<noteq> m) (of_generation g fl)"
  by (simp_all add: of_source_def of_generation_def conj_commute split_beta)

lemma flight_ok_end:
  assumes "flight_ok s" and "flight t = filter (\<lambda>(n, k). n \<noteq> m) (flight s)" and "next_id t = next_id s"
    and "\<And>j. src_generation (source_state_of s j) \<le> src_generation (source_state_of t j)"
  shows "flight_ok t"
proof -
  have "distinct (map fst (filter (\<lambda>(n, k). n \<noteq> m) (flight s)))"
    using assms(1) by (simp add: flight_ok_def distinct_map_filter)
  with assms show ?thesis by (fastforce simp: flight_ok_def intro: le_trans)
qed

text \<open>The end of the current activation of a source, with the state it leaves.\<close>

lemma source_inv_end:
  assumes "source_inv s" and "a \<in> set (running s)" and "current a s"
    and "flight t = filter (\<lambda>(n, k). n \<noteq> ac_id a) (flight s)" and "next_id t = next_id s" and "destroyed t = destroyed s"
    and "source_state_of t = (source_state_of s)(ac_source a := st)"
    and "src_generation st = ac_generation a" and "\<not> loading st" and "requestedEnabled st = enabled st"
    and "\<And>j. j \<noteq> ac_source a \<Longrightarrow> jm_has (rendered t) j = jm_has (rendered s) j"
    and "jm_has (rendered t) (ac_source a) = enabled st"
  shows "source_inv t"
proof (rule source_inv_change [OF assms(1), of t "ac_source a"])
  note c = current_alone [OF assms(1-3)]
  note F = source_invD(1) [OF assms(1)]
  show "flight_ok t"
    by (rule flight_ok_end [OF F assms(4,5)]) (use assms(7,8) c(4) in simp)
  show "source_state_of t j = source_state_of s j \<and> jm_has (rendered t) j = jm_has (rendered s) j \<and>
           of_source j (flight t) = of_source j (flight s)" if "j \<noteq> ac_source a" for j
    using assms(7,11) that of_source_remove [OF _ in_flight [OF assms(2)] that] F
    by (simp add: assms(4) flight_ok_def)
  show "source_ok (source_state_of t (ac_source a)) (jm_has (rendered t) (ac_source a)) (of_source (ac_source a) (flight t))"
    using assms(7-10,12) c(1,4) by (simp add: source_ok_def assms(4) of_source_end)
qed (rule assms(6))

lemma source_inv_end_stale:
  assumes "source_inv s" and "a \<in> set (running s)" and "\<not> current a s"
  shows "source_inv (end_stale a s)"
proof (rule source_inv_change [OF assms(1), of "end_stale a s" "ac_source a"])
  note F = source_invD(1) [OF assms(1)]
  show "flight_ok (end_stale a s)"
    by (rule flight_ok_end [OF F, of _ "ac_id a"]) (simp_all add: end_stale_def)
  show "source_state_of (end_stale a s) j = source_state_of s j \<and> jm_has (rendered (end_stale a s)) j = jm_has (rendered s) j \<and>
           of_source j (flight (end_stale a s)) = of_source j (flight s)" if "j \<noteq> ac_source a" for j
    using that of_source_remove [OF _ in_flight [OF assms(2)] that] F by (simp add: end_stale_def flight_ok_def)
  show "source_ok (source_state_of (end_stale a s) (ac_source a)) (jm_has (rendered (end_stale a s)) (ac_source a))
      (of_source (ac_source a) (flight (end_stale a s)))" if live: "\<not> destroyed s"
  proof -
    let ?st = "source_state_of s (ac_source a)"
    note ok = source_invD(2) [OF assms(1) live, of "ac_source a"]
    have "ac_generation a \<noteq> src_generation ?st"
    proof
      assume g: "ac_generation a = src_generation ?st"
      then have "(ac_id a, ac_source a, ac_generation a, ac_wasEnabled a) \<in>
          set (of_generation (src_generation ?st) (of_source (ac_source a) (flight s)))"
        using in_flight [OF assms(2)] by (simp add: of_generation_def of_source_def)
      with ok have "requestedEnabled ?st" by (auto simp: source_ok_def split: if_splits)
      with g live assms(3) show False by (simp add: current_def isCurrentOperation_def)
    qed
    have other: "n \<noteq> ac_id a" if "(n, j, g, w) \<in> set (of_generation (src_generation ?st) (of_source (ac_source a) (flight s)))" for n j g w
    proof
      assume "n = ac_id a"
      with that have "(ac_id a, j, g, w) \<in> set (flight s)" "g = src_generation ?st"
        by (auto simp: of_generation_def of_source_def)
      moreover have "distinct (map fst (flight s))" using F by (simp add: flight_ok_def)
      ultimately have "(j, g, w) = (ac_source a, ac_generation a, ac_wasEnabled a)"
        using in_flight [OF assms(2)] eq_key_imp_eq_value [of "flight s" "ac_id a" "(j, g, w)"
            "(ac_source a, ac_generation a, ac_wasEnabled a)"] by simp
      with \<open>g = src_generation ?st\<close> \<open>ac_generation a \<noteq> src_generation ?st\<close> show False by simp
    qed
    have "filter (\<lambda>(n, k). n \<noteq> ac_id a) (of_generation (src_generation ?st) (of_source (ac_source a) (flight s))) =
        of_generation (src_generation ?st) (of_source (ac_source a) (flight s))"
      by (intro filter_True) (auto dest: other)
    with ok show ?thesis by (simp add: source_ok_def end_stale_def of_source_end)
  qed
qed (simp add: end_stale_def)

lemma flight_advance [simp]: "flight (advance a st s) = flight s"
  by (simp add: flight_def advance_def)

lemma commit_inv:
  assumes "source_inv s" and "a \<in> set (running s)" and "current a s"
  shows "source_inv (commit_activation reg now a v s)"
proof (rule source_inv_end [OF assms])
  let ?st = "(source_state_of s (ac_source a))\<lparr>requestedEnabled := True, enabled := True, loading := False,
     src_error := None, loadedAt := Some now, src_generation := ac_generation a\<rparr>"
  show "source_state_of (commit_activation reg now a v s) = (source_state_of s)(ac_source a := ?st)"
    by (simp add: commit_activation_def Let_def)
qed (simp_all add: commit_activation_def Let_def)

lemma fail_inv:
  assumes "source_inv s" and "a \<in> set (running s)"
  shows "source_inv (fail_activation reg a e s)"
proof (cases "current a s")
  case False
  with source_inv_end_stale [OF assms] show ?thesis by (simp add: fail_activation_def current_def Let_def)
next
  case True
  let ?t = "fail_activation reg a e s"
  let ?st = "(source_state_of s (ac_source a))\<lparr>requestedEnabled := ac_wasEnabled a, enabled := ac_wasEnabled a, loading := False,
     src_error := Some e, src_generation := ac_generation a\<rparr>"
  have cur: "isCurrentOperation (ac_source a) (ac_generation a) s" using True by (simp add: current_def)
  have shown: "jm_has (rendered s) (ac_source a) = ac_wasEnabled a"
    using source_invD(2) [OF assms(1) current_alone(5) [OF assms True], of "ac_source a"] current_alone(2) [OF assms True]
    by (simp add: source_ok_def)
  show ?thesis
  proof (rule source_inv_end [OF assms True, of ?t ?st])
    show "source_state_of ?t = (source_state_of s)(ac_source a := ?st)"
      using cur by (simp add: fail_activation_def Let_def)
    show "flight ?t = filter (\<lambda>(n, k). n \<noteq> ac_id a) (flight s)"
      using cur by (simp add: fail_activation_def Let_def)
  qed (use cur shown in \<open>simp_all add: fail_activation_def Let_def\<close>)
qed

lemma activation_reply_inv:
  assumes "source_inv s" and "a \<in> set (running s)"
  shows "source_inv (activation_reply reg now a r throws s)"
proof -
  have adv: "source_inv (advance a st s)" for st
    by (rule source_inv_cong [OF assms(1)]) (simp_all, simp_all add: advance_def)
  have "source_inv (end_stale a s)" if "\<not> isCurrentOperation (ac_source a) (ac_generation a) s"
    using source_inv_end_stale [OF assms] that by (simp add: current_def)
  moreover have "source_inv (commit_activation reg now a v s)" if "isCurrentOperation (ac_source a) (ac_generation a) s" for v
    using commit_inv [OF assms] that by (simp add: current_def)
  ultimately show ?thesis
    using adv fail_inv [OF assms]
    by (simp add: activation_reply_def split: sum.split stage.split option.split)
qed

section \<open>The steps of several sources\<close>

lemma start_each_inv:
  "source_inv s \<Longrightarrow> source_inv (snd (start_each reg is reason silent slots s))"
proof (induction reg "is" reason silent slots s rule: start_each.induct)
  case (2 reg i target "is" reason silent slots s)
  obtain r t where a: "activateSource reg i False reason silent s = (r, t)" by fastforce
  have t: "source_inv t" using activateSource_inv [OF 2(4), of reg i False reason silent] a by simp
  show ?case
  proof (cases target)
    case False
    with 2(1) 2(4) show ?thesis by simp
  next
    case True
    show ?thesis
    proof (cases r)
      case (Inl e)
      with 2(2) [OF _ a [unfolded Inl, symmetric] refl t] a True show ?thesis by simp
    next
      case (Inr n)
      with 2(3) [OF _ a [unfolded Inr, symmetric] refl t] a True show ?thesis by simp
    qed
  qed
qed simp

lemma source_inv_add:
  assumes "source_inv s"
  shows "source_inv (s\<lparr>groups := gs\<rparr>)" "source_inv (s\<lparr>groups := gs, next_id := Suc (next_id s)\<rparr>)"
    "source_inv (s\<lparr>resets := rs\<rparr>)" "source_inv (s\<lparr>summaries := ss\<rparr>)" "source_inv (s\<lparr>initialized := b\<rparr>)"
    "source_inv (s\<lparr>initializing := b\<rparr>)" "source_inv (s\<lparr>reads := ts\<rparr>)" "source_inv (s\<lparr>reads := ts, next_id := Suc (next_id s)\<rparr>)"
    "source_inv (s\<lparr>selectionRevision := n, next_id := Suc (next_id s)\<rparr>)" "source_inv (log_event e s)"
    "source_inv (write_selection reg ids s)" "source_inv (persistCurrentState reg s)"
  by (rule source_inv_cong [OF assms]; simp add: flight_def log_event_def write_selection_def persistCurrentState_def)+

lemma start_group_inv:
  assumes "source_inv s"
  shows "source_inv (start_group reg kind is reason silent s)"
proof -
  obtain slots t where a: "start_each reg is reason silent [] s = (slots, t)" by fastforce
  with start_each_inv [OF assms, of reg "is" reason silent "[]"] have "source_inv t" by simp
  with a show ?thesis by (simp add: start_group_def source_inv_add)
qed

lemma initialize_inv: "source_inv s \<Longrightarrow> source_inv (snd (initialize_controller reg s))"
  by (simp add: initialize_controller_def initializeController_def Let_def start_group_inv source_inv_add)

lemma refreshActive_inv: "source_inv s \<Longrightarrow> source_inv (snd (refreshActive reg r q s))"
  by (simp add: refreshActive_def start_group_inv)

lemma reset_step_inv:
  assumes "source_inv s"
  shows "source_inv (reset_step reg r s)"
proof -
  have 0: "source_inv (s\<lparr>resets := rs\<rparr>)" for rs by (rule source_inv_add [OF assms])
  show ?thesis
  proof (cases "rr_rest r")
    case Nil
    with 0 show ?thesis by (simp add: reset_step_def Let_def start_group_inv)
  next
    case (Cons i rest)
    obtain x t where a: "deactivateSource reg i False (rr_reason r)
        (s\<lparr>resets := filter (\<lambda>q. rr_id q \<noteq> rr_id r) (resets s)\<rparr>) = (x, t)" by fastforce
    with deactivateSource_inv [OF 0, of reg i False "rr_reason r" "filter (\<lambda>q. rr_id q \<noteq> rr_id r) (resets s)"]
    have "source_inv t" by simp
    with a Cons show ?thesis by (simp add: reset_step_def Let_def source_inv_add split: sum.split)
  qed
qed

lemma resetSources_inv: "source_inv s \<Longrightarrow> source_inv (snd (resetSourcesToDefaults reg r q s))"
  by (simp add: resetSourcesToDefaults_def reset_step_inv source_inv_add)

lemma end_group_inv: "source_inv s \<Longrightarrow> source_inv (end_group reg gp s)"
  by (simp add: end_group_def Let_def source_inv_add split: option.split group_kind.split)

lemma refreshProductStatus_inv: "source_inv s \<Longrightarrow> source_inv (snd (refreshProductStatus reg l i n s))"
  by (simp add: refreshProductStatus_def source_inv_add split: option.split)

lemma targeted_reply_inv:
  assumes "source_inv s"
  shows "source_inv (targeted_reply r p s)"
proof -
  let ?i = "tr_source r" and ?s0 = "s\<lparr>reads := filter (\<lambda>q. tr_id q \<noteq> tr_id r) (reads s)\<rparr>"
  have 0: "source_inv ?s0" by (rule source_inv_add [OF assms])
  have st: "source_state_of ?s0 = source_state_of s" "flight ?s0 = flight s" by (simp_all add: source_state_of_def flight_def fun_eq_iff)
  have pub: "source_inv (updateState ?i (\<lambda>x. x\<lparr>src_generation := Suc (src_generation (source_state_of s ?i))\<rparr>)
      (?s0\<lparr>rendered := jm_set ?i content (rendered s)\<rparr>))" (is "source_inv ?t")
    if c: "targeted_current ?i (tr_context r) s" for content
  proof (rule source_inv_change [OF assms, of _ ?i])
    note F = source_invD(1) [OF assms]
    have eq: "source_state_of ?t = (source_state_of s)(?i := (source_state_of s ?i)\<lparr>src_generation := Suc (src_generation (source_state_of s ?i))\<rparr>)"
      "flight ?t = flight s" "next_id ?t = next_id s" "rendered ?t = jm_set ?i content (rendered s)" "destroyed ?t = destroyed s"
      by (simp_all add: st)
    show "flight_ok ?t" using F unfolding flight_ok_def eq by (fastforce split: if_splits)
    show "source_ok (source_state_of ?t ?i) (jm_has (rendered ?t) ?i) (of_source ?i (flight ?t))"
      using c no_newer [OF F, of ?i "Suc (src_generation (source_state_of s ?i))"]
      unfolding eq by (simp add: source_ok_def targeted_current_def)
    show "source_state_of ?t j = source_state_of s j \<and> jm_has (rendered ?t) j = jm_has (rendered s) j \<and>
        of_source j (flight ?t) = of_source j (flight s)" if "j \<noteq> ?i" for j
      using that unfolding eq by simp
  qed simp
  show ?thesis
  proof (cases "targeted_current ?i (tr_context r) s")
    case True
    show ?thesis
      using True pub [OF True] 0
      by (simp add: targeted_reply_def Let_def st source_inv_add split: sum.split publication.split)
  next
    case False
    with 0 show ?thesis by (simp add: targeted_reply_def Let_def source_inv_add)
  qed
qed

lemma destroy_inv: "source_inv s \<Longrightarrow> source_inv (destroy_controller reg l s)"
  by (simp add: destroy_controller_def source_inv_def flight_ok_def flight_def source_state_of_def)

lemma source_step_inv: "source_inv s \<Longrightarrow> can_happen e s \<Longrightarrow> source_inv (source_step reg e s)"
  by (cases e) (simp_all add: initialize_inv activateSource_inv deactivateSource_inv refreshActive_inv
      refreshProductStatus_inv resetSources_inv destroy_inv activation_reply_inv targeted_reply_inv reset_step_inv end_group_inv)

lemma initial_inv: "source_inv (initial_controller reg st)"
proof -
  have "v = createInitialState" if "jm_get (states (initial_controller reg st)) i = Some v" for i v
  proof -
    from that have "(i, v) \<in> set (map (\<lambda>d. (source_id d, createInitialState)) (definitions reg))"
      by (auto simp: initial_controller_def dest!: map_of_SomeD dest: jm_of_mem)
    then show ?thesis by auto
  qed
  then have "source_state_of (initial_controller reg st) i = createInitialState" for i
    by (simp add: source_state_of_def split: option.split)
  then show ?thesis
    by (simp add: source_inv_def flight_ok_def flight_def source_ok_def of_source_def of_generation_def)
      (simp add: createInitialState_def initial_controller_def)
qed

lemma source_reachable_inv: "source_reachable reg s \<Longrightarrow> source_inv s"
  by (induction rule: source_reachable.induct) (simp_all add: initial_inv source_step_inv)

section \<open>A source that is off\<close>

definition same_at :: "string \<Rightarrow> controller \<Rightarrow> controller \<Rightarrow> bool" where
  "same_at i s t = (source_state_of t i = source_state_of s i \<and> jm_get (rendered t) i = jm_get (rendered s) i)"

definition is_off :: "string \<Rightarrow> controller \<Rightarrow> bool" where
  "is_off i s =
     (\<not> requestedEnabled (source_state_of s i) \<and> \<not> enabled (source_state_of s i) \<and> jm_get (rendered s) i = None)"

lemma is_off_same: "same_at i s t \<Longrightarrow> is_off i s \<Longrightarrow> is_off i t"
  by (simp add: same_at_def is_off_def)

lemma same_at_refl [simp]: "same_at i s s"
  by (simp add: same_at_def)

lemma same_at_trans: "same_at i s t \<Longrightarrow> same_at i t u \<Longrightarrow> same_at i s u"
  by (simp add: same_at_def)

lemma same_at_cong: "states t = states s \<Longrightarrow> rendered t = rendered s \<Longrightarrow> same_at i s t"
  by (simp add: same_at_def source_state_of_def)

lemma source_state_of_update [simp]:
  "source_state_of (s\<lparr>contexts := cs\<rparr>) = source_state_of s" "source_state_of (s\<lparr>next_id := n\<rparr>) = source_state_of s"
  "source_state_of (s\<lparr>selectionRevision := n\<rparr>) = source_state_of s" "source_state_of (s\<lparr>reads := rs\<rparr>) = source_state_of s"
  "source_state_of (s\<lparr>summaries := ss\<rparr>) = source_state_of s" "source_state_of (s\<lparr>destroyed := b\<rparr>) = source_state_of s"
  by (simp_all add: source_state_of_def fun_eq_iff)

text \<open>The source an activation of \<open>j\<close> would start.\<close>

definition starts :: "source_registry \<Rightarrow> string \<Rightarrow> string \<Rightarrow> bool" where
  "starts reg i j = (case requireRuntimeSource reg j of Inl e \<Rightarrow> False | Inr d \<Rightarrow> source_id d = i)"

lemma activateSource_same:
  assumes "\<not> starts reg i j"
  shows "same_at i s (snd (activateSource reg j p r q s))"
proof (cases "destroyed s")
  case True
  then show ?thesis by (simp add: activateSource_def)
next
  case False
  show ?thesis
  proof (cases "requireRuntimeSource reg j")
    case (Inl e)
    with False show ?thesis by (simp add: activateSource_def)
  next
    case (Inr d)
    with assms have "source_id d \<noteq> i" by (simp add: starts_def)
    with False Inr show ?thesis
      by (simp add: same_at_def activateSource_def beginOperation_def Let_def source_state_of_def updateState_def)
  qed
qed

lemma start_each_same:
  "(\<And>j target. (j, target) \<in> set is \<Longrightarrow> target \<Longrightarrow> \<not> starts reg i j) \<Longrightarrow>
   same_at i s (snd (start_each reg is reason silent slots s))"
proof (induction reg "is" reason silent slots s rule: start_each.induct)
  case (2 reg j target "is" reason silent slots s)
  obtain r t where a: "activateSource reg j False reason silent s = (r, t)" by fastforce
  show ?case
  proof (cases target)
    case False
    with 2(1) 2(4) show ?thesis by simp
  next
    case True
    have "same_at i s t" using activateSource_same [of reg i j s False reason silent] 2(4) True a by simp
    moreover have "same_at i t (snd (start_each reg is reason silent sl t))"
      if "\<And>n. r = Inr n \<Longrightarrow> sl = slots @ [Waiting n]" "\<And>e. r = Inl e \<Longrightarrow> sl = slots @ [Rejected e]" for sl
    proof (cases r)
      case (Inl e)
      with 2(2) [OF _ a [unfolded Inl, symmetric] refl] 2(4) True that show ?thesis by simp
    next
      case (Inr n)
      with 2(3) [OF _ a [unfolded Inr, symmetric] refl] 2(4) True that show ?thesis by simp
    qed
    ultimately show ?thesis
      using True a by (cases r) (auto intro: same_at_trans)
  qed
qed simp

lemma start_group_same:
  assumes "\<And>j target. (j, target) \<in> set is \<Longrightarrow> target \<Longrightarrow> \<not> starts reg i j"
  shows "same_at i s (start_group reg kind is reason silent s)"
proof -
  obtain slots t where a: "start_each reg is reason silent [] s = (slots, t)" by fastforce
  with start_each_same [OF assms, where s = s and reason = reason and silent = silent and slots = "[]"]
  have "same_at i s t" by fastforce
  then show ?thesis using a by (simp add: start_group_def same_at_def source_state_of_def)
qed

lemma deactivateSource_off:
  assumes "is_off i s"
  shows "is_off i (snd (deactivateSource reg j p r s))"
proof (cases "destroyed s")
  case True
  with assms show ?thesis by (simp add: deactivateSource_def)
next
  case False
  with assms show ?thesis
    by (simp add: is_off_def deactivateSource_def beginOperation_def Let_def split: option.split)
qed

lemma end_activation_same: "same_at i s (end_activation a r s)"
  by (rule same_at_cong) simp_all

lemma activation_reply_off:
  assumes "is_off i s"
  shows "is_off i (activation_reply reg now a r throws s)"
proof (cases "isCurrentOperation (ac_source a) (ac_generation a) s")
  case False
  then have "activation_reply reg now a r throws s = end_stale a s"
    by (simp add: activation_reply_def fail_activation_def Let_def split: sum.split)
  with is_off_same [OF end_activation_same assms] show ?thesis by (simp add: end_stale_def)
next
  case True
  with assms have other: "ac_source a \<noteq> i" by (auto simp: isCurrentOperation_def is_off_def)
  have "same_at i s (advance a st s)" for st by (rule same_at_cong) (simp_all add: advance_def)
  moreover have "same_at i s (commit_activation reg now a v s)" for v
    using other by (simp add: same_at_def commit_activation_def Let_def)
  moreover have "same_at i s (fail_activation reg a e s)" for e
    using other True by (simp add: same_at_def fail_activation_def Let_def)
  ultimately have "same_at i s (activation_reply reg now a r throws s)"
    using True by (simp add: activation_reply_def split: sum.split stage.split option.split)
  from is_off_same [OF this assms] show ?thesis .
qed

lemma targeted_reply_off:
  assumes "is_off i s"
  shows "is_off i (targeted_reply r p s)"
proof -
  have "tr_source r \<noteq> i" if "targeted_current (tr_source r) (tr_context r) s"
    using assms that by (auto simp: targeted_current_def is_off_def)
  then have "same_at i s (targeted_reply r p s)"
    by (auto simp: targeted_reply_def Let_def same_at_def split: sum.split publication.split)
  from is_off_same [OF this assms] show ?thesis .
qed

lemma keyed_lookup:
  assumes "reg = createDataSourceRegistry dev mock cfg" and "starts reg i j"
  shows "text_of (Str j) = i"
proof -
  from assms(2) obtain d where d: "getDataSourceDefinition reg (Str j) = Some d" "source_id d = i"
    by (auto simp: starts_def requireRuntimeSource_def split: sum.splits option.splits if_splits)
  with registry_lookup [of dev mock cfg "Str j" d] assms(1) show ?thesis by simp
qed

lemma active_ids_start:
  assumes "reg = createDataSourceRegistry dev mock cfg" and "j \<in> set (getActiveSourceIds reg s)" and "is_off i s"
  shows "\<not> starts reg i j"
proof
  assume "starts reg i j"
  with assms(1) have "text_of (Str j) = i" by (rule keyed_lookup)
  moreover have "text_of (Str j) = j"
    using assms(1,2) registry_ok_created [of dev mock cfg]
    by (auto simp: registry_ok_def list_all_iff plain_id_def getActiveSourceIds_def)
  ultimately show False using assms(2,3) by (auto simp: is_off_def getActiveSourceIds_def)
qed

text \<open>The events that may ask for the source \<open>i\<close>.\<close>

fun may_start :: "source_registry \<Rightarrow> string \<Rightarrow> source_event \<Rightarrow> bool" where
  "may_start reg i Initialize = True"
| "may_start reg i (ResetSources r q) = True"
| "may_start reg i (ResetTurn r) = True"
| "may_start reg i (Activate j p r q) = starts reg i j"
| "may_start reg i e = False"

fun source_run :: "source_registry \<Rightarrow> source_event list \<Rightarrow> controller \<Rightarrow> controller option" where
  "source_run reg [] s = Some s"
| "source_run reg (e # es) s = (if can_happen e s then source_run reg es (source_step reg e s) else None)"

lemma refreshActive_same:
  assumes "reg = createDataSourceRegistry dev mock cfg" and "is_off i s"
  shows "same_at i s (snd (refreshActive reg r q s))"
  using start_group_same [of "map (\<lambda>i. (i, True)) (getActiveSourceIds reg s)" reg i s RefreshGroup r q]
    active_ids_start [OF assms(1) _ assms(2)]
  by (auto simp: refreshActive_def)

lemma rest_same:
  "same_at i s (snd (refreshProductStatus reg l j n s))" "same_at i s (end_group reg gp s)"
  by (rule same_at_cong; simp add: refreshProductStatus_def end_group_def Let_def persistCurrentState_def write_selection_def
      log_event_def split: option.split group_kind.split)+

lemma destroy_off:
  assumes "is_off i s"
  shows "is_off i (destroy_controller reg l s)"
proof -
  have "jm_get (foldl (\<lambda>m d. jm_delete (source_id d) m) m ds) i = None" if "jm_get m i = None" for m :: "(string, js) jmap" and ds
    using that by (induction ds arbitrary: m) simp_all
  with assms show ?thesis by (simp add: is_off_def destroy_controller_def)
qed

lemma step_off:
  assumes "reg = createDataSourceRegistry dev mock cfg" and "is_off i s" and "\<not> may_start reg i e"
  shows "is_off i (source_step reg e s)"
proof (cases e)
  case (Activate j p r q)
  with is_off_same [OF activateSource_same assms(2), of reg j p r q] assms(3) show ?thesis by simp
next
  case (RefreshActive r q)
  with is_off_same [OF refreshActive_same [OF assms(1,2), of r q] assms(2)] show ?thesis by simp
next
  case (RefreshStatus l j n)
  with is_off_same [OF rest_same(1) assms(2)] show ?thesis by simp
next
  case (GroupTurn gp)
  with is_off_same [OF rest_same(2) assms(2)] show ?thesis by simp
qed (use assms deactivateSource_off destroy_off activation_reply_off targeted_reply_off in simp_all)

lemma run_off:
  assumes "reg = createDataSourceRegistry dev mock cfg"
  shows "source_run reg es s = Some t \<Longrightarrow> list_all (\<lambda>e. \<not> may_start reg i e) es \<Longrightarrow> is_off i s \<Longrightarrow> is_off i t"
  by (induction es arbitrary: s) (auto split: if_splits intro: step_off [OF assms])

lemma deactivated_off:
  assumes "deactivateSource reg j p r s = (Inr res, t)" and "rs_success res"
  shows "is_off (rs_source res) t"
  using assms
  by (auto simp: is_off_def deactivateSource_def beginOperation_def Let_def split: if_splits option.splits)

section \<open>A sample run\<close>

definition sample_registry :: source_registry where
  "sample_registry = createDataSourceRegistry False False Undef"

definition sample_on :: controller where
  "sample_on = source_step sample_registry (Activate ''s101'' True ''user-activation'' False)
     (initial_controller sample_registry empty_storage)"

definition sample_off :: controller where
  "sample_off = snd (deactivateSource sample_registry ''s101'' True ''user-deactivation'' sample_on)"

definition sample_late :: "source_event list" where
  "sample_late =
     [ActivationReply ''now'' (hd (running sample_on)) (Inr (Obj [])) None, RefreshActive ''timer'' True,
      Deactivate ''s57'' True ''user-deactivation'', DestroyController False]"

lemma sample_on_reachable: "source_reachable sample_registry sample_on"
  unfolding sample_on_def by (rule source_reachable.step [OF source_reachable.initial]) simp

lemma sample_on_live: "\<not> destroyed sample_on"
  by code_simp

lemma sample_on_running: "list_ex (\<lambda>a. ac_source a = ''s101'' \<and> ac_generation a = src_generation (source_state_of sample_on ''s101'')) (running sample_on)"
  by code_simp

lemma sample_switched_off:
  "fst (deactivateSource sample_registry ''s101'' True ''user-deactivation'' sample_on) =
   Inr \<lparr>rs_source = ''s101'', rs_success = True, rs_stale = False, rs_skipped = False, rs_generation = 2\<rparr>"
  by code_simp

lemma sample_late_runs: "source_run sample_registry sample_late sample_off \<noteq> None"
  by code_simp

lemma sample_late_quiet: "list_all (\<lambda>e. \<not> may_start sample_registry ''s101'' e) sample_late"
  by (simp add: sample_late_def)

section \<open>Properties\<close>

text \<open>
  C39. In every reachable state of a controller that was not destroyed, a source has something on the map exactly while it is
  enabled; it is loading exactly while the newest of its activations is in flight, and then it is wanted; when it is not
  loading it is enabled exactly when it is wanted. So once no activation is in flight, no source is loading and what is
  shown is what was asked for.
\<close>

theorem source_states_exact:
  assumes "source_reachable reg s" and "\<not> destroyed s"
  shows "(enabled (source_state_of s i) = jm_has (rendered s) i) \<and>
    (loading (source_state_of s i) =
       (\<exists>a \<in> set (running s). ac_source a = i \<and> ac_generation a = src_generation (source_state_of s i))) \<and>
    (if loading (source_state_of s i) then requestedEnabled (source_state_of s i)
     else requestedEnabled (source_state_of s i) = enabled (source_state_of s i)) \<and>
    (\<forall>a \<in> set (running s). ac_source a = i \<longrightarrow> ac_generation a \<le> src_generation (source_state_of s i))"
proof -
  note inv = source_reachable_inv [OF assms(1)]
  note ok = source_invD(2) [OF inv assms(2), of i]
  have "of_generation (src_generation (source_state_of s i)) (of_source i (flight s)) \<noteq> [] \<longleftrightarrow>
      (\<exists>a \<in> set (running s). ac_source a = i \<and> ac_generation a = src_generation (source_state_of s i))"
    by (auto simp: of_generation_def of_source_def flight_def filter_empty_conv)
  then have l: "loading (source_state_of s i) =
      (\<exists>a \<in> set (running s). ac_source a = i \<and> ac_generation a = src_generation (source_state_of s i))"
    using ok by (auto simp: source_ok_def split: if_splits)
  have le: "\<forall>a \<in> set (running s). ac_source a = i \<longrightarrow> ac_generation a \<le> src_generation (source_state_of s i)"
    using source_invD(1) [OF inv] in_flight [of _ s] by (fastforce simp: flight_ok_def)
  from ok have "enabled (source_state_of s i) = jm_has (rendered s) i" by (simp add: source_ok_def)
  moreover from ok have "if loading (source_state_of s i) then requestedEnabled (source_state_of s i)
     else requestedEnabled (source_state_of s i) = enabled (source_state_of s i)" by (simp add: source_ok_def split: if_splits)
  ultimately show ?thesis using l le by blast
qed

theorem source_states_exact_witness:
  "loading (source_state_of sample_on ''s101'') \<and> requestedEnabled (source_state_of sample_on ''s101'')"
  using source_states_exact [OF sample_on_reachable sample_on_live, of "''s101''"] sample_on_running
  by (auto simp: list_ex_iff split: if_splits)

text \<open>
  C40. A source that was switched off stays off whatever else happens: after a successful deactivation, any sequence of
  turns that holds no initialization, no reset and no activation of that source - so replies of the superseded
  activations, targeted status replies, refreshes, activations and deactivations of other sources and the end of the
  controller may come in any order - leaves it not wanted, not enabled and with nothing on the map.
\<close>

theorem switched_off_stays_off:
  assumes "reg = createDataSourceRegistry dev mock cfg" and "deactivateSource reg j p r s = (Inr res, s1)" and "rs_success res"
    and "source_run reg es s1 = Some t" and "list_all (\<lambda>e. \<not> may_start reg (rs_source res) e) es"
  shows "\<not> requestedEnabled (source_state_of t (rs_source res)) \<and> \<not> enabled (source_state_of t (rs_source res)) \<and>
    \<not> jm_has (rendered t) (rs_source res)"
  using run_off [OF assms(1,4,5) deactivated_off [OF assms(2,3)]] by (simp add: is_off_def)

theorem switched_off_stays_off_witness:
  "\<not> requestedEnabled (source_state_of (the (source_run sample_registry sample_late sample_off)) ''s101'') \<and>
   \<not> enabled (source_state_of (the (source_run sample_registry sample_late sample_off)) ''s101'') \<and>
   \<not> jm_has (rendered (the (source_run sample_registry sample_late sample_off))) ''s101''"
proof -
  obtain t where t: "source_run sample_registry sample_late sample_off = Some t" using sample_late_runs by blast
  have "deactivateSource sample_registry ''s101'' True ''user-deactivation'' sample_on =
      (Inr \<lparr>rs_source = ''s101'', rs_success = True, rs_stale = False, rs_skipped = False, rs_generation = 2\<rparr>, sample_off)"
    using sample_switched_off by (simp add: prod_eq_iff sample_off_def)
  from switched_off_stays_off [OF sample_registry_def this _ t] sample_late_quiet t show ?thesis by simp
qed

end
