(* ===== verification/Spec2Isabelle.thy ===== *)
theory Spec2Isabelle
  imports ProductOperations PopupExports ProductActions DataSourcePersistence ProductJobs ReviewProducts
    ProductCollection WorkspaceClaims JobTracking AssignmentServices AttributeFilterProperties DataSourceControllerLaws
begin

text \<open>
  The product catalogue of the S-100 services: a model of the browser clients under
  \<open>src/src/ProductCatalogue/src\<close>.
\<close>

end
